(* ===== verification/Prelude.thy ===== *)
theory Prelude
  imports Main "HOL-Library.Word" "HOL-Library.Multiset" "HOL-Library.AList"
begin

text \<open>
  Shared vocabulary of the development: the Go types the daemon uses, the collections the
  component theories feed (\<open>go_simps\<close> for the functional equations of the standard-library
  models, \<open>emit_intros\<close> for the composition of backend events) and the generic facts on
  characters, lists, association lists and iteration orders that several components use.

  Go's \<open>string\<close> is a byte sequence, and so is HOL's \<open>string\<close>: a \<open>char\<close> is one
  byte. \<open>uint\<close> and \<open>uint64\<close> are 64-bit words, \<open>uint32\<close> a 32-bit word; \<open>int\<close> is a
  mathematical integer whose 64-bit range is written out wherever a conversion may leave it.
\<close>

named_theorems go_simps "equations of the standard-library models"
named_theorems emit_intros "composition of emitted backend events"

type_synonym go_uint = "64 word"
type_synonym go_uint64 = "64 word"
type_synonym go_uint32 = "32 word"
type_synonym go_int = int

abbreviation byte :: "char \<Rightarrow> nat" where
  "byte c \<equiv> of_char c"

definition maxInt64 :: int where "maxInt64 = 9223372036854775807"
definition minInt64 :: int where "minInt64 = -9223372036854775808"

definition int64_range :: "int \<Rightarrow> bool" where
  "int64_range n \<longleftrightarrow> minInt64 \<le> n \<and> n \<le> maxInt64"

section \<open>Characters\<close>

lemma byte_less_256 [simp]: "byte c < 256"
  using of_char_mod_256 [of c, where ?'a = nat] mod_less_divisor [of 256 "byte c"] by simp

lemma byte_eq_iff: "byte c = byte d \<longleftrightarrow> c = d"
  by (fact of_char_eq_iff)

lemma byte_char_of [simp]: "n < 256 \<Longrightarrow> byte (char_of n) = n"
  by simp

lemma char_eqI: "byte c = byte d \<Longrightarrow> c = d"
  by simp

section \<open>Lists\<close>

lemma takeWhile_all: "(\<And>x. x \<in> set xs \<Longrightarrow> P x) \<Longrightarrow> takeWhile P xs = xs"
  by simp

lemma take_length_diff_snoc: "take (length (xs @ [x]) - 1) (xs @ [x]) = xs"
  by simp

lemma mset_eq_set: "mset xs = mset ys \<Longrightarrow> set xs = set ys"
  by (metis set_mset_mset)

section \<open>Go maps as association lists\<close>

text \<open>
  A Go map that the code ranges over is an association list with distinct keys; the order in
  which \<open>range\<close> visits it is not specified by the language, so every operation that ranges
  over a map takes the order as an argument, a function that permutes its input.
\<close>

type_synonym map_order = "go_uint list \<Rightarrow> go_uint list"

definition go_order :: "map_order \<Rightarrow> bool" where
  "go_order ord \<longleftrightarrow> (\<forall>xs. mset (ord xs) = mset xs)"

lemma go_order_id [simp, intro]: "go_order id" "go_order (\<lambda>xs. xs)"
  by (simp_all add: go_order_def)

lemma go_order_rev [simp, intro]: "go_order rev"
  by (simp add: go_order_def)

lemma go_order_set: "go_order ord \<Longrightarrow> set (ord xs) = set xs"
  unfolding go_order_def by (metis mset_eq_set)

lemma go_order_distinct: "go_order ord \<Longrightarrow> distinct (ord xs) \<longleftrightarrow> distinct xs"
  unfolding go_order_def by (metis mset_eq_imp_distinct_iff)

lemma go_order_length: "go_order ord \<Longrightarrow> length (ord xs) = length xs"
  unfolding go_order_def by (metis size_mset)

end
