(* ===== verification/GoStrings.thy ===== *)
theory GoStrings
  imports Prelude
begin

text \<open>
  The parts of Go's packages unicode/utf8, unicode, strings, strconv and path/filepath that
  the daemon calls, on byte strings. Each function follows the documented behaviour of the
  library routine of the same name, invalid UTF-8 and out-of-range numbers included.
\<close>

section \<open>UTF-8\<close>

definition RuneError :: nat where "RuneError = 0xFFFD"

definition cont_byte :: "nat \<Rightarrow> nat \<Rightarrow> char \<Rightarrow> bool" where
  "cont_byte lo hi c \<longleftrightarrow> lo \<le> byte c \<and> byte c \<le> hi"

text \<open>The range the second byte must lie in, by the first byte of the sequence.\<close>

definition accept_range :: "nat \<Rightarrow> nat \<times> nat" where
  "accept_range b0 =
     (if b0 = 0xE0 then (0xA0, 0xBF)
      else if b0 = 0xED then (0x80, 0x9F)
      else if b0 = 0xF0 then (0x90, 0xBF)
      else if b0 = 0xF4 then (0x80, 0x8F)
      else (0x80, 0xBF))"

fun DecodeRune :: "string \<Rightarrow> nat \<times> nat" where
  "DecodeRune [] = (RuneError, 0)"
| "DecodeRune (c0 # cs) =
     (let b0 = byte c0; (lo, hi) = accept_range b0 in
      if b0 < 0x80 then (b0, 1)
      else if b0 < 0xC2 \<or> 0xF4 < b0 then (RuneError, 1)
      else case cs of
        [] \<Rightarrow> (RuneError, 1)
      | c1 # cs1 \<Rightarrow>
          if \<not> cont_byte lo hi c1 then (RuneError, 1)
          else if b0 < 0xE0 then ((b0 - 0xC0) * 64 + (byte c1 - 0x80), 2)
          else case cs1 of
            [] \<Rightarrow> (RuneError, 1)
          | c2 # cs2 \<Rightarrow>
              if \<not> cont_byte 0x80 0xBF c2 then (RuneError, 1)
              else if b0 < 0xF0 then
                ((b0 - 0xE0) * 4096 + (byte c1 - 0x80) * 64 + (byte c2 - 0x80), 3)
              else case cs2 of
                [] \<Rightarrow> (RuneError, 1)
              | c3 # _ \<Rightarrow>
                  if \<not> cont_byte 0x80 0xBF c3 then (RuneError, 1)
                  else ((b0 - 0xF0) * 262144 + (byte c1 - 0x80) * 4096
                          + (byte c2 - 0x80) * 64 + (byte c3 - 0x80), 4))"

definition EncodeRune :: "nat \<Rightarrow> string" where
  "EncodeRune r0 =
     (let r = (if r0 > 0x10FFFF \<or> (0xD800 \<le> r0 \<and> r0 \<le> 0xDFFF) then RuneError else r0) in
      if r < 0x80 then [char_of r]
      else if r < 0x800 then [char_of (0xC0 + r div 64), char_of (0x80 + r mod 64)]
      else if r < 0x10000 then
        [char_of (0xE0 + r div 4096), char_of (0x80 + (r div 64) mod 64), char_of (0x80 + r mod 64)]
      else
        [char_of (0xF0 + r div 262144), char_of (0x80 + (r div 4096) mod 64),
         char_of (0x80 + (r div 64) mod 64), char_of (0x80 + r mod 64)])"

definition RuneStart :: "char \<Rightarrow> bool" where
  "RuneStart c \<longleftrightarrow> \<not> (0x80 \<le> byte c \<and> byte c < 0xC0)"

text \<open>The index at which the backward search of \<open>DecodeLastRuneInString\<close> stops.\<close>

fun last_start :: "string \<Rightarrow> nat \<Rightarrow> nat \<Rightarrow> nat" where
  "last_start s lim 0 = 0"
| "last_start s lim (Suc i) =
     (if Suc i \<le> lim \<or> RuneStart (s ! Suc i) then Suc i else last_start s lim i)"

definition DecodeLastRune :: "string \<Rightarrow> nat \<times> nat" where
  "DecodeLastRune s =
     (if s = [] then (RuneError, 0)
      else let end = length s; c = last s in
        if byte c < 0x80 then (byte c, 1)
        else if end = 1 then (RuneError, 1)
        else let start = last_start s (end - 4) (end - 2);
                 (r, size) = DecodeRune (drop start s)
             in if start + size \<noteq> end then (RuneError, 1) else (r, size))"

definition IsSpace :: "nat \<Rightarrow> bool" where
  "IsSpace r \<longleftrightarrow> r \<in> {9, 10, 11, 12, 13, 32, 0x85, 0xA0, 0x1680, 0x2028, 0x2029, 0x202F, 0x205F, 0x3000}
     \<or> (0x2000 \<le> r \<and> r \<le> 0x200A)"

declare DecodeRune.simps(2) [simp del]

lemma DecodeRune_ascii [simp]: "byte c < 0x80 \<Longrightarrow> DecodeRune (c # cs) = (byte c, 1)"
  by (simp add: DecodeRune.simps(2) Let_def split: prod.splits)

lemma DecodeRune_width: "s \<noteq> [] \<Longrightarrow> 0 < snd (DecodeRune s) \<and> snd (DecodeRune s) \<le> length s"
  by (cases s) (auto simp: DecodeRune.simps(2) Let_def split: list.split prod.split if_split)

lemma DecodeLastRune_ascii [simp]:
  "s \<noteq> [] \<Longrightarrow> byte (last s) < 0x80 \<Longrightarrow> DecodeLastRune s = (byte (last s), 1)"
  by (simp add: DecodeLastRune_def Let_def)

lemma last_start_le: "last_start s lim i \<le> i"
  by (induction i) auto

lemma DecodeLastRune_width:
  assumes "s \<noteq> []"
  shows "0 < snd (DecodeLastRune s)"
proof -
  let ?t = "drop (last_start s (length s - 4) (length s - 2)) s"
  have "last_start s (length s - 4) (length s - 2) < length s"
    using assms last_start_le [of s "length s - 4" "length s - 2"]
    by (meson diff_less le_less_trans length_greater_0_conv zero_less_numeral)
  then have "?t \<noteq> []" by simp
  then have "0 < snd (DecodeRune ?t)" using DecodeRune_width by blast
  with assms show ?thesis
    by (simp add: DecodeLastRune_def Let_def case_prod_beta)
qed

section \<open>Package strings\<close>

function TrimLeftSpace :: "string \<Rightarrow> string" where
  "TrimLeftSpace s =
     (if s = [] then []
      else if IsSpace (fst (DecodeRune s)) then TrimLeftSpace (drop (snd (DecodeRune s)) s)
      else s)"
  by pat_completeness auto
termination
  by (relation "measure length") (use DecodeRune_width in auto)

function TrimRightSpace :: "string \<Rightarrow> string" where
  "TrimRightSpace s =
     (if s = [] then []
      else if IsSpace (fst (DecodeLastRune s))
        then TrimRightSpace (take (length s - snd (DecodeLastRune s)) s)
      else s)"
  by pat_completeness auto
termination
  by (relation "measure length") (use DecodeLastRune_width in auto)

declare TrimLeftSpace.simps [simp del] TrimRightSpace.simps [simp del]

definition TrimSpace :: "string \<Rightarrow> string" where
  "TrimSpace s = TrimRightSpace (TrimLeftSpace s)"

definition HasPrefix :: "string \<Rightarrow> string \<Rightarrow> bool" where
  "HasPrefix s p \<longleftrightarrow> take (length p) s = p"

definition TrimPrefix :: "string \<Rightarrow> string \<Rightarrow> string" where
  "TrimPrefix s p = (if HasPrefix s p then drop (length p) s else s)"

fun Contains :: "string \<Rightarrow> string \<Rightarrow> bool" where
  "Contains [] p = (p = [])"
| "Contains (c # cs) p = (HasPrefix (c # cs) p \<or> Contains cs p)"

text \<open>\<open>strings.ContainsAny\<close> and \<open>strings.ContainsRune\<close>, for ASCII sets: a byte below
  0x80 occurs in a UTF-8 string exactly as itself.\<close>

definition ContainsAny :: "string \<Rightarrow> string \<Rightarrow> bool" where
  "ContainsAny s cs \<longleftrightarrow> list_ex (\<lambda>c. c \<in> set cs) s"

text \<open>\<open>strings.Split(s, ",")\<close> for a one-byte separator.\<close>

fun Split :: "string \<Rightarrow> char \<Rightarrow> string list" where
  "Split [] sep = [[]]"
| "Split (c # cs) sep =
     (if c = sep then [] # Split cs sep
      else case Split cs sep of [] \<Rightarrow> [[c]] | p # ps \<Rightarrow> (c # p) # ps)"

text \<open>\<open>strings.TrimRight(s, "\n")\<close>.\<close>

definition TrimRightByte :: "string \<Rightarrow> char \<Rightarrow> string" where
  "TrimRightByte s c = rev (dropWhile (\<lambda>d. d = c) (rev s))"

text \<open>\<open>strings.Fields\<close>: the maximal runs of runes that are not white space.\<close>

function fields_from :: "string \<Rightarrow> string \<Rightarrow> string list" where
  "fields_from cur s =
     (if s = [] then (if cur = [] then [] else [cur])
      else let n = snd (DecodeRune s) in
        if IsSpace (fst (DecodeRune s))
          then (if cur = [] then [] else [cur]) @ fields_from [] (drop n s)
        else fields_from (cur @ take n s) (drop n s))"
  by pat_completeness auto
termination
  by (relation "measure (\<lambda>(cur, s). length s)") (use DecodeRune_width in auto)

declare fields_from.simps [simp del]

definition Fields :: "string \<Rightarrow> string list" where
  "Fields s = fields_from [] s"

lemma HasPrefix_simps [simp]:
  "HasPrefix s []" "\<not> HasPrefix [] (c # cs)"
  "HasPrefix (c # cs) (d # ds) \<longleftrightarrow> c = d \<and> HasPrefix cs ds"
  by (auto simp: HasPrefix_def)

lemma HasPrefix_append [simp]: "HasPrefix (p @ s) p"
  by (simp add: HasPrefix_def)

lemma HasPrefix_drop: "HasPrefix s p \<Longrightarrow> s = p @ drop (length p) s"
  unfolding HasPrefix_def by (metis append_take_drop_id)

lemma TrimSpace_Nil [simp]: "TrimSpace [] = []"
  by (simp add: TrimSpace_def TrimLeftSpace.simps TrimRightSpace.simps)

lemma TrimSpace_id:
  assumes "s \<noteq> []" "byte (hd s) < 0x80" "\<not> IsSpace (byte (hd s))"
    and "byte (last s) < 0x80" "\<not> IsSpace (byte (last s))"
  shows "TrimSpace s = s"
proof -
  from assms(1) have "s = hd s # tl s" by simp
  then have "DecodeRune s = (byte (hd s), 1)"
    using DecodeRune_ascii [OF assms(2), of "tl s"] by metis
  with assms(1,3) have "TrimLeftSpace s = s"
    by (simp add: TrimLeftSpace.simps [of s])
  moreover have "TrimRightSpace s = s"
    using assms by (simp add: TrimRightSpace.simps [of s])
  ultimately show ?thesis by (simp add: TrimSpace_def)
qed

lemma TrimLeftSpace_suffix: "\<exists>p. s = p @ TrimLeftSpace s"
proof (induction s rule: TrimLeftSpace.induct)
  case (1 s)
  let ?t = "drop (snd (DecodeRune s)) s"
  show ?case
  proof (cases "s \<noteq> [] \<and> IsSpace (fst (DecodeRune s))")
    case True
    with 1 obtain p where "?t = p @ TrimLeftSpace ?t" by blast
    then have "s = (take (snd (DecodeRune s)) s @ p) @ TrimLeftSpace ?t"
      by (metis append.assoc append_take_drop_id)
    then have "\<exists>p. s = p @ TrimLeftSpace ?t" by blast
    with True show ?thesis by (simp add: TrimLeftSpace.simps [of s])
  next
    case False
    then show ?thesis by (auto simp: TrimLeftSpace.simps [of s])
  qed
qed

lemma TrimRightSpace_prefix: "\<exists>q. s = TrimRightSpace s @ q"
proof (induction s rule: TrimRightSpace.induct)
  case (1 s)
  let ?n = "length s - snd (DecodeLastRune s)"
  show ?case
  proof (cases "s \<noteq> [] \<and> IsSpace (fst (DecodeLastRune s))")
    case True
    with 1 obtain q where "take ?n s = TrimRightSpace (take ?n s) @ q" by blast
    then have "s = TrimRightSpace (take ?n s) @ q @ drop ?n s"
      by (metis append.assoc append_take_drop_id)
    with True show ?thesis by (auto simp: TrimRightSpace.simps [of s])
  next
    case False
    then show ?thesis by (auto simp: TrimRightSpace.simps [of s])
  qed
qed

lemma TrimSpace_infix: "\<exists>p q. s = p @ TrimSpace s @ q"
  unfolding TrimSpace_def
  by (metis TrimLeftSpace_suffix TrimRightSpace_prefix append.assoc)

lemma length_TrimSpace: "length (TrimSpace s) \<le> length s"
proof -
  obtain p q where "s = p @ TrimSpace s @ q" using TrimSpace_infix by blast
  then have "length s = length p + length (TrimSpace s) + length q"
    by (metis add.assoc length_append)
  then show ?thesis by simp
qed

lemma set_TrimSpace: "set (TrimSpace s) \<subseteq> set s"
proof -
  obtain p q where "s = p @ TrimSpace s @ q" using TrimSpace_infix by blast
  then have "set s = set p \<union> set (TrimSpace s) \<union> set q"
    by (metis set_append sup_assoc)
  then show ?thesis by blast
qed

lemma DecodeLastRune_space_width:
  assumes "s \<noteq> []" "byte (hd s) < 0x80" "\<not> IsSpace (byte (hd s))" "IsSpace (fst (DecodeLastRune s))"
  shows "snd (DecodeLastRune s) < length s"
proof (cases "byte (last s) < 0x80")
  case True
  with assms have "length s \<noteq> 1" by (cases s) auto
  with True assms(1) show ?thesis by (cases s) auto
next
  case False
  let ?st = "last_start s (length s - 4) (length s - 2)"
  have err: "\<not> IsSpace RuneError" by (simp add: IsSpace_def RuneError_def)
  with assms(1,4) False have eq: "DecodeLastRune s = DecodeRune (drop ?st s)"
      "?st + snd (DecodeRune (drop ?st s)) = length s"
    by (auto simp: DecodeLastRune_def Let_def case_prod_beta split: if_splits)
  have "?st \<noteq> 0"
  proof
    assume "?st = 0"
    with eq assms(1,2) have "length s = 1" by (cases s) auto
    then have "last s = hd s" by (cases s) auto
    with False assms(2) show False by simp
  qed
  with eq show ?thesis by simp
qed

lemma TrimRightSpace_nonempty:
  "s \<noteq> [] \<Longrightarrow> byte (hd s) < 0x80 \<Longrightarrow> \<not> IsSpace (byte (hd s)) \<Longrightarrow> TrimRightSpace s \<noteq> []"
proof (induction s rule: TrimRightSpace.induct)
  case (1 s)
  show ?case
  proof (cases "IsSpace (fst (DecodeLastRune s))")
    case True
    let ?t = "take (length s - snd (DecodeLastRune s)) s"
    from True 1 have "snd (DecodeLastRune s) < length s" using DecodeLastRune_space_width by blast
    then have "?t \<noteq> []" "hd ?t = hd s" by (auto simp: hd_take)
    with True 1 show ?thesis by (simp add: TrimRightSpace.simps [of s])
  next
    case False
    with 1 show ?thesis by (simp add: TrimRightSpace.simps [of s])
  qed
qed

lemma TrimSpace_nonempty:
  assumes "s \<noteq> []" "byte (hd s) < 0x80" "\<not> IsSpace (byte (hd s))"
  shows "TrimSpace s \<noteq> []"
proof -
  from assms have "TrimLeftSpace s = s" by (subst TrimLeftSpace.simps) (cases s, auto)
  with assms TrimRightSpace_nonempty show ?thesis by (simp add: TrimSpace_def)
qed

section \<open>Package strconv\<close>

datatype num_error = ErrSyntax | ErrRange

definition is_digit :: "char \<Rightarrow> bool" where
  "is_digit c \<longleftrightarrow> 48 \<le> byte c \<and> byte c \<le> 57"

text \<open>The digit loop of \<open>ParseUint(s, 10, bitSize)\<close>: a value above \<open>maxVal\<close> is reported at the
  digit that exceeds it, before any later byte is looked at.\<close>

fun parse_digits :: "nat \<Rightarrow> nat \<Rightarrow> string \<Rightarrow> nat \<times> num_error option" where
  "parse_digits maxVal n [] = (n, None)"
| "parse_digits maxVal n (c # cs) =
     (if \<not> is_digit c then (0, Some ErrSyntax)
      else let n1 = n * 10 + (byte c - 48) in
        if n1 > maxVal then (maxVal, Some ErrRange) else parse_digits maxVal n1 cs)"

definition ParseUint :: "nat \<Rightarrow> string \<Rightarrow> nat \<times> num_error option" where
  "ParseUint bitSize s = (if s = [] then (0, Some ErrSyntax) else parse_digits (2 ^ bitSize - 1) 0 s)"

definition ParseInt :: "string \<Rightarrow> int \<times> num_error option" where
  "ParseInt s =
     (if s = [] then (0, Some ErrSyntax)
      else let neg = (hd s = CHR ''-'');
               ds = (if hd s = CHR ''-'' \<or> hd s = CHR ''+'' then tl s else s);
               (un, err) = ParseUint 64 ds
           in if err = Some ErrSyntax then (0, err)
              else if \<not> neg \<and> un \<ge> 2 ^ 63 then (maxInt64, Some ErrRange)
              else if neg \<and> un > 2 ^ 63 then (minInt64, Some ErrRange)
              else (if neg then - int un else int un, None))"

definition Atoi :: "string \<Rightarrow> int \<times> num_error option" where
  "Atoi s = ParseInt s"

fun nat_digits :: "nat \<Rightarrow> string" where
  "nat_digits n =
     (if n < 10 then [char_of (48 + n)] else nat_digits (n div 10) @ [char_of (48 + n mod 10)])"

declare nat_digits.simps [simp del]

definition Itoa :: "int \<Rightarrow> string" where
  "Itoa i = (if i < 0 then CHR ''-'' # nat_digits (nat (- i)) else nat_digits (nat i))"

lemma nat_digits_nonempty [simp]: "nat_digits n \<noteq> []"
  by (subst nat_digits.simps) simp

lemma is_digit_char_of [simp]: "d < 10 \<Longrightarrow> is_digit (char_of (48 + d :: nat))"
  by (simp add: is_digit_def)

lemma nat_digits_digits: "c \<in> set (nat_digits n) \<Longrightarrow> is_digit c"
  by (induction n rule: nat_digits.induct) (subst (asm) (2) nat_digits.simps, auto split: if_splits)

lemma nat_digits_hd_zero: "hd (nat_digits n) = CHR ''0'' \<Longrightarrow> n = 0"
proof (induction n rule: nat_digits.induct)
  case (1 n)
  show ?case
  proof (cases "n < 10")
    case True
    with "1.prems" have "char_of (48 + n) = CHR ''0''" by (simp add: nat_digits.simps [of n])
    then have "byte (char_of (48 + n)) = byte (CHR ''0'')" by simp
    with True show ?thesis by simp
  next
    case False
    with 1 show ?thesis by (simp add: nat_digits.simps [of n])
  qed
qed

lemma parse_digits_append:
  "parse_digits M n (xs @ ys) =
     (case parse_digits M n xs of (v, None) \<Rightarrow> parse_digits M v ys | (v, Some e) \<Rightarrow> (v, Some e))"
  by (induction M n xs rule: parse_digits.induct) (auto simp: Let_def)

lemma parse_nat_digits: "n \<le> M \<Longrightarrow> parse_digits M 0 (nat_digits n) = (n, None)"
proof (induction n rule: nat_digits.induct)
  case (1 n)
  show ?case
  proof (cases "n < 10")
    case True
    with "1.prems" show ?thesis by (simp add: nat_digits.simps [of n])
  next
    case False
    with 1 have "parse_digits M 0 (nat_digits (n div 10)) = (n div 10, None)" by simp
    with False "1.prems" show ?thesis
      by (simp add: nat_digits.simps [of n] parse_digits_append)
  qed
qed

lemma ParseUint_nat_digits: "n < 2 ^ b \<Longrightarrow> ParseUint b (nat_digits n) = (n, None)"
  unfolding ParseUint_def using parse_nat_digits [of n "2 ^ b - 1"] by simp

lemma nat_digits_hd_sign: "hd (nat_digits n) \<noteq> CHR ''-''" "hd (nat_digits n) \<noteq> CHR ''+''"
proof -
  have "is_digit (hd (nat_digits n))"
    using nat_digits_digits [of "hd (nat_digits n)" n] by simp
  then show "hd (nat_digits n) \<noteq> CHR ''-''" "hd (nat_digits n) \<noteq> CHR ''+''"
    by (auto simp: is_digit_def)
qed

lemma ParseInt_Itoa: "int64_range i \<Longrightarrow> ParseInt (Itoa i) = (i, None)"
  using nat_digits_hd_sign
  by (auto simp: ParseInt_def Itoa_def int64_range_def minInt64_def maxInt64_def
        ParseUint_nat_digits nat_less_iff)

lemma parse_digits_bound: "parse_digits M n s = (v, e) \<Longrightarrow> n \<le> M \<Longrightarrow> v \<le> M"
  by (induction M n s rule: parse_digits.induct) (auto simp: Let_def split: if_splits)

lemma ParseUint_bound: "ParseUint b s = (v, e) \<Longrightarrow> v < 2 ^ b"
  using parse_digits_bound [of "2 ^ b - 1" 0 s v e]
  by (auto simp: ParseUint_def less_eq_iff_succ_less split: if_splits)

lemma ParseInt_range: "int64_range (fst (ParseInt s))"
  by (auto simp: ParseInt_def int64_range_def minInt64_def maxInt64_def Let_def split: prod.splits)

section \<open>Package path/filepath\<close>

text \<open>\<open>Clean\<close> applies the lexical rules to the path elements from the left; the stack holds the
  elements kept so far, the last one first.\<close>

fun clean_elems :: "bool \<Rightarrow> string list \<Rightarrow> string list \<Rightarrow> string list" where
  "clean_elems rooted st [] = st"
| "clean_elems rooted st (e # es) =
     (if e = [] \<or> e = ''.'' then clean_elems rooted st es
      else if e = ''..'' then
        (case st of
           [] \<Rightarrow> clean_elems rooted (if rooted then [] else [''..'']) es
         | t # ts \<Rightarrow> clean_elems rooted (if t = ''..'' then ''..'' # st else ts) es)
      else clean_elems rooted (e # st) es)"

fun join_slash :: "string list \<Rightarrow> string" where
  "join_slash [] = []"
| "join_slash [e] = e"
| "join_slash (e # es) = e @ ''/'' @ join_slash es"

definition Clean :: "string \<Rightarrow> string" where
  "Clean path =
     (let rooted = HasPrefix path ''/'';
          out = rev (clean_elems rooted [] (Split path (CHR ''/'')))
      in if path = [] then ''.''
         else if rooted then ''/'' @ join_slash out
         else if out = [] then ''.'' else join_slash out)"

definition Dir :: "string \<Rightarrow> string" where
  "Dir path = Clean (rev (dropWhile (\<lambda>c. c \<noteq> CHR ''/'') (rev path)))"

section \<open>Digits and separators\<close>

lemma digit_not_space: "is_digit c \<Longrightarrow> byte c < 0x80 \<and> \<not> IsSpace (byte c)"
  by (auto simp: is_digit_def IsSpace_def)

lemma TrimSpace_digit_ends: "s \<noteq> [] \<Longrightarrow> is_digit (hd s) \<Longrightarrow> is_digit (last s) \<Longrightarrow> TrimSpace s = s"
  by (rule TrimSpace_id) (auto dest: digit_not_space)

lemma Split_append: "c \<notin> set e \<Longrightarrow> Split (e @ c # s) c = e # Split s c"
  by (induction e) auto

lemma Split_single: "c \<notin> set e \<Longrightarrow> Split e c = [e]"
  by (induction e) auto

lemma nat_digits_comma [simp]: "CHR '','' \<notin> set (nat_digits n)"
  using nat_digits_digits [of "CHR '',''" n] by (auto simp: is_digit_def)

lemma nat_digits_ends: "is_digit (hd (nat_digits n))" "is_digit (last (nat_digits n))"
  using nat_digits_digits [of _ n] by simp_all

lemma Split_no_sep: "e \<in> set (Split s c) \<Longrightarrow> c \<notin> set e"
  by (induction s c arbitrary: e rule: Split.induct) (auto split: if_splits list.splits)

end
