(* ===== verification/GoJson.thy ===== *)
theory GoJson
  imports GoStrings
begin

text \<open>
  The parts of Go's package encoding/json that the daemon relies on: the byte scanner that
  delimits and validates values, the streaming \<open>Decoder\<close> (\<open>More\<close>, \<open>Token\<close>,
  \<open>Decode\<close>), the unquoting of string literals, and the encoder \<open>json.Marshal\<close> uses for
  strings and integers. The scanner is the library's table of state functions; a value is
  read by running it, so nesting, escapes and numbers are accepted exactly as the library
  accepts them.
\<close>

section \<open>The scanner\<close>

datatype sstep =
    BeginValue | BeginValueOrEmpty | BeginStringOrEmpty | BeginString | EndValue | EndTop
  | InString | InStringEsc | InStringEscU | InStringEscU1 | InStringEscU12 | InStringEscU123
  | Neg | St1 | St0 | Dot | Dot0 | StE | ESign | E0
  | StT | Tr | Tru | StF | Fa | Fal | Fals | StN | Nu | Nul | StError

datatype pstate = ParseObjectKey | ParseObjectValue | ParseArrayValue

datatype opcode =
    ScanContinue | ScanBeginLiteral | ScanBeginObject | ScanObjectKey | ScanObjectValue
  | ScanEndObject | ScanBeginArray | ScanArrayValue | ScanEndArray | ScanSkipSpace
  | ScanEnd | ScanError

text \<open>A scanner is its current step and the stack of enclosing composites, innermost first.\<close>

type_synonym scanner = "sstep \<times> pstate list"

definition init_scanner :: scanner where "init_scanner = (BeginValue, [])"

definition maxNestingDepth :: nat where "maxNestingDepth = 10000"

definition json_space :: "char \<Rightarrow> bool" where
  "json_space c \<longleftrightarrow> c = CHR '' '' \<or> byte c = 9 \<or> byte c = 10 \<or> byte c = 13"

abbreviation scan_error :: "pstate list \<Rightarrow> scanner \<times> opcode" where
  "scan_error ps \<equiv> ((StError, ps), ScanError)"

definition push_state :: "sstep \<Rightarrow> pstate \<Rightarrow> opcode \<Rightarrow> pstate list \<Rightarrow> scanner \<times> opcode" where
  "push_state st p op ps =
     (if length ps < maxNestingDepth then ((st, p # ps), op) else ((StError, p # ps), ScanError))"

text \<open>\<open>stateEndTop\<close> returns \<open>scanEnd\<close> even for a byte that may not follow a top-level value: the
  streaming decoder reads one value and leaves the byte for its next call.\<close>

definition pop_step :: "pstate list \<Rightarrow> sstep" where
  "pop_step ps = (if ps = [] then EndTop else EndValue)"

fun end_value :: "pstate list \<Rightarrow> char \<Rightarrow> scanner \<times> opcode" where
  "end_value [] c = (((if json_space c then EndTop else StError), []), ScanEnd)"
| "end_value (p # ps) c =
     (if json_space c then ((EndValue, p # ps), ScanSkipSpace)
      else case p of
        ParseObjectKey \<Rightarrow>
          if c = CHR '':'' then ((BeginValue, ParseObjectValue # ps), ScanObjectKey)
          else scan_error (p # ps)
      | ParseObjectValue \<Rightarrow>
          if c = CHR '','' then ((BeginString, ParseObjectKey # ps), ScanObjectValue)
          else if c = CHR ''}'' then ((pop_step ps, ps), ScanEndObject)
          else scan_error (p # ps)
      | ParseArrayValue \<Rightarrow>
          if c = CHR '','' then ((BeginValue, p # ps), ScanArrayValue)
          else if c = CHR '']'' then ((pop_step ps, ps), ScanEndArray)
          else scan_error (p # ps))"

definition begin_value :: "pstate list \<Rightarrow> char \<Rightarrow> scanner \<times> opcode" where
  "begin_value ps c =
     (if json_space c then ((BeginValue, ps), ScanSkipSpace)
      else if c = CHR ''{'' then push_state BeginStringOrEmpty ParseObjectKey ScanBeginObject ps
      else if c = CHR ''['' then push_state BeginValueOrEmpty ParseArrayValue ScanBeginArray ps
      else if c = CHR 0x22 then ((InString, ps), ScanBeginLiteral)
      else if c = CHR ''-'' then ((Neg, ps), ScanBeginLiteral)
      else if c = CHR ''0'' then ((St0, ps), ScanBeginLiteral)
      else if c = CHR ''t'' then ((StT, ps), ScanBeginLiteral)
      else if c = CHR ''f'' then ((StF, ps), ScanBeginLiteral)
      else if c = CHR ''n'' then ((StN, ps), ScanBeginLiteral)
      else if is_digit c then ((St1, ps), ScanBeginLiteral)
      else scan_error ps)"

definition begin_string :: "pstate list \<Rightarrow> char \<Rightarrow> scanner \<times> opcode" where
  "begin_string ps c =
     (if json_space c then ((BeginString, ps), ScanSkipSpace)
      else if c = CHR 0x22 then ((InString, ps), ScanBeginLiteral)
      else scan_error ps)"

definition state0 :: "pstate list \<Rightarrow> char \<Rightarrow> scanner \<times> opcode" where
  "state0 ps c =
     (if c = CHR ''.'' then ((Dot, ps), ScanContinue)
      else if c = CHR ''e'' \<or> c = CHR ''E'' then ((StE, ps), ScanContinue)
      else end_value ps c)"

definition is_hex :: "char \<Rightarrow> bool" where
  "is_hex c \<longleftrightarrow> is_digit c \<or> (97 \<le> byte c \<and> byte c \<le> 102) \<or> (65 \<le> byte c \<and> byte c \<le> 70)"

abbreviation expect :: "bool \<Rightarrow> sstep \<Rightarrow> pstate list \<Rightarrow> scanner \<times> opcode" where
  "expect ok st ps \<equiv> (if ok then ((st, ps), ScanContinue) else scan_error ps)"

fun scan_step :: "scanner \<Rightarrow> char \<Rightarrow> scanner \<times> opcode" where
  "scan_step (BeginValue, ps) c = begin_value ps c"
| "scan_step (BeginValueOrEmpty, ps) c =
     (if json_space c then ((BeginValueOrEmpty, ps), ScanSkipSpace)
      else if c = CHR '']'' then end_value ps c else begin_value ps c)"
| "scan_step (BeginStringOrEmpty, ps) c =
     (if json_space c then ((BeginStringOrEmpty, ps), ScanSkipSpace)
      else if c = CHR ''}'' then end_value (ParseObjectValue # tl ps) c
      else begin_string ps c)"
| "scan_step (BeginString, ps) c = begin_string ps c"
| "scan_step (EndValue, ps) c = end_value ps c"
| "scan_step (EndTop, ps) c = (((if json_space c then EndTop else StError), ps), ScanEnd)"
| "scan_step (InString, ps) c =
     (if c = CHR 0x22 then ((EndValue, ps), ScanContinue)
      else if c = CHR 0x5C then ((InStringEsc, ps), ScanContinue)
      else expect (32 \<le> byte c) InString ps)"
| "scan_step (InStringEsc, ps) c =
     (if c = CHR ''u'' then ((InStringEscU, ps), ScanContinue)
      else expect (c \<in> set ''bfnrt/'' \<or> c = CHR 0x22 \<or> c = CHR 0x5C) InString ps)"
| "scan_step (InStringEscU, ps) c = expect (is_hex c) InStringEscU1 ps"
| "scan_step (InStringEscU1, ps) c = expect (is_hex c) InStringEscU12 ps"
| "scan_step (InStringEscU12, ps) c = expect (is_hex c) InStringEscU123 ps"
| "scan_step (InStringEscU123, ps) c = expect (is_hex c) InString ps"
| "scan_step (Neg, ps) c =
     (if c = CHR ''0'' then ((St0, ps), ScanContinue) else expect (is_digit c) St1 ps)"
| "scan_step (St1, ps) c = (if is_digit c then ((St1, ps), ScanContinue) else state0 ps c)"
| "scan_step (St0, ps) c = state0 ps c"
| "scan_step (Dot, ps) c = expect (is_digit c) Dot0 ps"
| "scan_step (Dot0, ps) c =
     (if is_digit c then ((Dot0, ps), ScanContinue)
      else if c = CHR ''e'' \<or> c = CHR ''E'' then ((StE, ps), ScanContinue)
      else end_value ps c)"
| "scan_step (StE, ps) c =
     (if c = CHR ''+'' \<or> c = CHR ''-'' then ((ESign, ps), ScanContinue)
      else expect (is_digit c) E0 ps)"
| "scan_step (ESign, ps) c = expect (is_digit c) E0 ps"
| "scan_step (E0, ps) c = (if is_digit c then ((E0, ps), ScanContinue) else end_value ps c)"
| "scan_step (StT, ps) c = expect (c = CHR ''r'') Tr ps"
| "scan_step (Tr, ps) c = expect (c = CHR ''u'') Tru ps"
| "scan_step (Tru, ps) c = expect (c = CHR ''e'') EndValue ps"
| "scan_step (StF, ps) c = expect (c = CHR ''a'') Fa ps"
| "scan_step (Fa, ps) c = expect (c = CHR ''l'') Fal ps"
| "scan_step (Fal, ps) c = expect (c = CHR ''s'') Fals ps"
| "scan_step (Fals, ps) c = expect (c = CHR ''e'') EndValue ps"
| "scan_step (StN, ps) c = expect (c = CHR ''u'') Nu ps"
| "scan_step (Nu, ps) c = expect (c = CHR ''l'') Nul ps"
| "scan_step (Nul, ps) c = expect (c = CHR ''l'') EndValue ps"
| "scan_step (StError, ps) c = scan_error ps"

section \<open>The streaming decoder\<close>

text \<open>\<open>Decoder.readValue\<close>: the bytes of the next value (leading white space included) and the
  bytes after it; \<open>None\<close> is a syntax error or an unexpected end of input.\<close>

fun read_value :: "scanner \<Rightarrow> string \<Rightarrow> (string \<times> string) option" where
  "read_value sc [] = (if snd (scan_step sc (CHR '' '')) = ScanEnd then Some ([], []) else None)"
| "read_value sc (c # cs) =
     (let (sc', op) = scan_step sc c in
      if op = ScanError then None
      else if op = ScanEnd then Some ([], c # cs)
      else if (op = ScanEndObject \<or> op = ScanEndArray) \<and> snd sc' = [] then Some ([c], cs)
      else map_option (\<lambda>(v, r). (c # v, r)) (read_value sc' cs))"

definition peek :: "string \<Rightarrow> string" where
  "peek s = dropWhile json_space s"

definition json_More :: "string \<Rightarrow> bool" where
  "json_More s \<longleftrightarrow> (case peek s of [] \<Rightarrow> False | c # _ \<Rightarrow> c \<noteq> CHR '']'' \<and> c \<noteq> CHR ''}'')"

text \<open>\<open>\u\<close> escapes and surrogate pairs.\<close>

definition hex_val :: "char \<Rightarrow> nat" where
  "hex_val c =
     (if is_digit c then byte c - 48 else if 97 \<le> byte c then byte c - 87 else byte c - 55)"

definition getu4 :: "string \<Rightarrow> nat option" where
  "getu4 s =
     (case s of
        c0 # c1 # h1 # h2 # h3 # h4 # _ \<Rightarrow>
          if c0 = CHR 0x5C \<and> c1 = CHR ''u'' \<and> is_hex h1 \<and> is_hex h2 \<and> is_hex h3 \<and> is_hex h4
          then Some (hex_val h1 * 4096 + hex_val h2 * 256 + hex_val h3 * 16 + hex_val h4)
          else None
      | _ \<Rightarrow> None)"

definition utf16_DecodeRune :: "nat \<Rightarrow> nat option \<Rightarrow> nat" where
  "utf16_DecodeRune r1 r2 =
     (case r2 of
        None \<Rightarrow> RuneError
      | Some b \<Rightarrow>
          if 0xD800 \<le> r1 \<and> r1 < 0xDC00 \<and> 0xDC00 \<le> b \<and> b < 0xE000
          then (r1 - 0xD800) * 1024 + (b - 0xDC00) + 0x10000 else RuneError)"

definition simple_escape :: "char \<Rightarrow> char option" where
  "simple_escape e =
     (if e = CHR 0x22 \<or> e = CHR 0x5C \<or> e = CHR ''/'' \<or> e = CHR 0x27 then Some e
      else if e = CHR ''b'' then Some (CHR 0x08)
      else if e = CHR ''f'' then Some (CHR 0x0C)
      else if e = CHR ''n'' then Some (CHR 0x0A)
      else if e = CHR ''r'' then Some (CHR 0x0D)
      else if e = CHR ''t'' then Some (CHR 0x09)
      else None)"

function unquote_body :: "string \<Rightarrow> string option" where
  "unquote_body [] = Some []"
| "unquote_body (c # cs) =
     (if c = CHR 0x5C then
        (if cs \<noteq> [] \<and> hd cs = CHR ''u'' then
           (case getu4 (c # cs) of
              None \<Rightarrow> None
            | Some rr \<Rightarrow>
                if 0xD800 \<le> rr \<and> rr < 0xE000 then
                  (let dec = utf16_DecodeRune rr (getu4 (drop 5 cs)) in
                   if dec \<noteq> RuneError
                   then map_option (append (EncodeRune dec)) (unquote_body (drop 11 cs))
                   else map_option (append (EncodeRune RuneError)) (unquote_body (drop 5 cs)))
                else map_option (append (EncodeRune rr)) (unquote_body (drop 5 cs)))
         else case cs of
             [] \<Rightarrow> None
           | e # es \<Rightarrow>
               (case simple_escape e of
                  None \<Rightarrow> None
                | Some d \<Rightarrow> map_option (Cons d) (unquote_body es)))
      else if c = CHR 0x22 \<or> byte c < 32 then None
      else if byte c < 0x80 then map_option (Cons c) (unquote_body cs)
      else map_option (append (EncodeRune (fst (DecodeRune (c # cs)))))
             (unquote_body (drop (snd (DecodeRune (c # cs)) - 1) cs)))"
  by pat_completeness auto
termination
  by (relation "measure length") auto

declare unquote_body.simps(2) [simp del]

text \<open>\<open>unquote\<close>: the value of a string literal, quotes included in the argument.\<close>

definition unquote :: "string \<Rightarrow> string option" where
  "unquote lit =
     (if 2 \<le> length lit \<and> hd lit = CHR 0x22 \<and> last lit = CHR 0x22
      then unquote_body (butlast (tl lit)) else None)"

section \<open>Tokens\<close>

datatype tstate = TokenTopValue | TokenObjectStart | TokenObjectKey | TokenObjectColon | TokenObjectComma

datatype token = Delim char | StringTok string | OtherTok

record decoder =
  buf :: string
  tokenState :: tstate

text \<open>
  \<open>Decoder.Token\<close> in the states a top-level object goes through. \<open>None\<close> is an error. A value
  that is neither a delimiter nor an object key is \<open>OtherTok\<close>.
\<close>

definition token_at :: "tstate \<Rightarrow> string \<Rightarrow> (token \<times> decoder) option" where
  "token_at ts s =
     (case peek s of
        [] \<Rightarrow> None
      | c # cs \<Rightarrow>
          if ts = TokenTopValue then
            (if c = CHR ''{'' then Some (Delim c, \<lparr>buf = cs, tokenState = TokenObjectStart\<rparr>)
             else if c = CHR ''['' then Some (Delim c, \<lparr>buf = cs, tokenState = TokenTopValue\<rparr>)
             else case read_value init_scanner (c # cs) of
                 None \<Rightarrow> None
               | Some (v, r) \<Rightarrow> Some (OtherTok, \<lparr>buf = r, tokenState = TokenTopValue\<rparr>))
          else if c = CHR 0x22 \<and> (ts = TokenObjectStart \<or> ts = TokenObjectKey) then
            (case read_value init_scanner (c # cs) of
               None \<Rightarrow> None
             | Some (v, r) \<Rightarrow>
                 (case unquote v of
                    None \<Rightarrow> None
                  | Some k \<Rightarrow> Some (StringTok k, \<lparr>buf = r, tokenState = TokenObjectColon\<rparr>)))
          else None)"

definition json_Token :: "decoder \<Rightarrow> (token \<times> decoder) option" where
  "json_Token d =
     (case peek (buf d) of
        [] \<Rightarrow> None
      | c # cs \<Rightarrow>
          if c = CHR '','' then
            (if tokenState d = TokenObjectComma then token_at TokenObjectKey cs else None)
          else token_at (tokenState d) (c # cs))"

text \<open>\<open>Decoder.Decode(&raw)\<close> of a member's value: the colon, then one value.\<close>

definition json_DecodeRaw :: "decoder \<Rightarrow> (string \<times> decoder) option" where
  "json_DecodeRaw d =
     (if tokenState d = TokenObjectColon then
        (case peek (buf d) of
           [] \<Rightarrow> None
         | c # cs \<Rightarrow>
             if c = CHR '':'' then
               (case read_value init_scanner cs of
                  None \<Rightarrow> None
                | Some (v, r) \<Rightarrow> Some (v, \<lparr>buf = r, tokenState = TokenObjectComma\<rparr>))
             else None)
      else None)"

lemma read_value_split: "read_value sc s = Some (v, r) \<Longrightarrow> s = v @ r"
  by (induction sc s arbitrary: v r rule: read_value.induct)
     (auto simp: Let_def split: if_splits prod.splits)

declare read_value.simps(2) [simp del]

lemma read_value_length: "read_value sc s = Some (v, r) \<Longrightarrow> length r \<le> length s"
  using read_value_split by fastforce

lemma length_peek: "length (peek s) \<le> length s"
  by (simp add: peek_def length_dropWhile_le)

lemma token_at_length: "token_at ts s = Some (t, d) \<Longrightarrow> length (buf d) \<le> length s"
  using length_peek [of s]
  by (auto simp: token_at_def split: list.splits if_splits option.splits dest!: read_value_length)

lemma json_Token_length: "json_Token d = Some (t, d') \<Longrightarrow> length (buf d') \<le> length (buf d)"
  using length_peek [of "buf d"]
  by (auto simp: json_Token_def split: list.splits if_splits dest!: token_at_length)

lemma json_DecodeRaw_length: "json_DecodeRaw d = Some (v, d') \<Longrightarrow> length (buf d') < length (buf d)"
  using length_peek [of "buf d"]
  by (auto simp: json_DecodeRaw_def split: list.splits if_splits option.splits dest!: read_value_length)

section \<open>Members of an object\<close>

text \<open>
  The members of a complete object as \<open>decodeState.object\<close> visits them: the unquoted key and
  the bytes of the value. The argument is the text after the opening brace or a comma.
\<close>

definition read_member :: "string \<Rightarrow> ((string \<times> string) \<times> string) option" where
  "read_member s =
     (case read_value init_scanner (peek s) of
        None \<Rightarrow> None
      | Some (k, r1) \<Rightarrow>
          (case (unquote k, peek r1) of
             (Some key, c # r2) \<Rightarrow>
               if c = CHR '':'' then
                 (case read_value init_scanner r2 of
                    None \<Rightarrow> None
                  | Some (v, r3) \<Rightarrow> Some ((key, v), peek r3))
               else None
           | _ \<Rightarrow> None))"

lemma read_member_length: "read_member s = Some (m, r) \<Longrightarrow> length r < length s"
proof -
  assume "read_member s = Some (m, r)"
  then obtain k r1 key c r2 v r3 where
    a: "read_value init_scanner (peek s) = Some (k, r1)" and "peek r1 = c # r2"
    and b: "read_value init_scanner r2 = Some (v, r3)" and "r = peek r3"
    by (auto simp: read_member_def split: option.splits list.splits if_splits)
  then show ?thesis
    using read_value_length [OF a] read_value_length [OF b] length_peek [of s] length_peek [of r1]
      length_peek [of r3]
    by simp
qed

function object_members :: "string \<Rightarrow> (string \<times> string) list option" where
  "object_members s =
     (case read_member s of
        None \<Rightarrow> None
      | Some (m, r) \<Rightarrow>
          (case r of
             [] \<Rightarrow> None
           | c # cs \<Rightarrow>
               if c = CHR '','' then map_option (Cons m) (object_members cs)
               else if c = CHR ''}'' then Some [m] else None))"
  by pat_completeness auto
termination
  by (relation "measure length") (auto dest: read_member_length)

declare object_members.simps [simp del]

text \<open>\<open>json.Unmarshal\<close> of an object: \<open>None\<close> when the value is not an object.\<close>

definition decode_object :: "string \<Rightarrow> (string \<times> string) list option" where
  "decode_object raw =
     (case peek raw of
        [] \<Rightarrow> None
      | c # cs \<Rightarrow>
          if c \<noteq> CHR ''{'' then None
          else (case peek cs of
                  [] \<Rightarrow> None
                | d # _ \<Rightarrow> if d = CHR ''}'' then Some [] else object_members cs))"

section \<open>Tokens and members\<close>

text \<open>The scan and the decoder read the same members.\<close>

lemma read_member_token:
  assumes "read_member s = Some ((k, v), r)" "ts = TokenObjectStart \<or> ts = TokenObjectKey"
  obtains d1 r3 where "token_at ts s = Some (StringTok k, d1)"
    and "json_DecodeRaw d1 = Some (v, \<lparr>buf = r3, tokenState = TokenObjectComma\<rparr>)" and "r = peek r3"
proof -
  from assms(1) obtain kt r1 r2 r3 where
    rk: "read_value init_scanner (peek s) = Some (kt, r1)" and uq: "unquote kt = Some k"
    and col: "peek r1 = CHR '':'' # r2" and rv: "read_value init_scanner r2 = Some (v, r3)"
    and "r = peek r3"
    by (auto simp: read_member_def split: option.splits list.splits if_splits)
  moreover from uq have "kt \<noteq> []" "hd kt = CHR 0x22"
    by (auto simp: unquote_def split: if_splits)
  then have "peek s = CHR 0x22 # tl (peek s)"
    using read_value_split [OF rk] by (cases kt) auto
  then have "token_at ts s = Some (StringTok k, \<lparr>buf = r1, tokenState = TokenObjectColon\<rparr>)"
    using assms(2) rk uq unfolding token_at_def by (auto split: list.splits)
  ultimately show thesis
    using that by (simp add: json_DecodeRaw_def)
qed

lemma peek_peek [simp]: "peek (peek s) = peek s"
  by (induction s) (simp_all add: peek_def)

lemma token_at_peek: "peek s = c # cs \<Longrightarrow> token_at ts (c # cs) = token_at ts s"
  using peek_peek [of s] by (simp add: token_at_def)

lemma read_member_peek: "read_member s = Some (m, r) \<Longrightarrow> \<exists>cs. peek s = CHR 0x22 # cs"
proof -
  assume "read_member s = Some (m, r)"
  then obtain kt r1 k where rk: "read_value init_scanner (peek s) = Some (kt, r1)" and "unquote kt = Some k"
    by (auto simp: read_member_def split: option.splits)
  then have "kt \<noteq> []" "hd kt = CHR 0x22" by (auto simp: unquote_def split: if_splits)
  then show ?thesis using read_value_split [OF rk] by (cases kt) auto
qed

lemma TrimRightSpace_last: "TrimRightSpace s \<noteq> [] \<Longrightarrow> \<not> json_space (last (TrimRightSpace s))"
proof (induction s rule: TrimRightSpace.induct)
  case (1 s)
  show ?case
  proof (cases "s \<noteq> [] \<and> IsSpace (fst (DecodeLastRune s))")
    case True
    with 1 show ?thesis by (simp add: TrimRightSpace.simps [of s])
  next
    case False
    with "1.prems" have "s \<noteq> []" and eq: "TrimRightSpace s = s"
      by (auto simp: TrimRightSpace.simps [of s] split: if_splits)
    with False have "\<not> IsSpace (fst (DecodeLastRune s))" by simp
    then have "\<not> json_space (last s)"
      using DecodeLastRune_ascii [OF \<open>s \<noteq> []\<close>] by (auto simp: json_space_def IsSpace_def)
    with eq show ?thesis by simp
  qed
qed

lemma TrimSpace_no_tail:
  assumes "TrimSpace s = v @ rest" "peek rest = []"
  shows "rest = []"
proof (rule ccontr)
  assume "rest \<noteq> []"
  then have "last rest = last (TrimSpace s)" "TrimSpace s \<noteq> []" using assms(1) by auto
  then have "\<not> json_space (last rest)"
    using TrimRightSpace_last [of "TrimLeftSpace s"] by (simp add: TrimSpace_def)
  moreover have "json_space (last rest)"
    using assms(2) \<open>rest \<noteq> []\<close> by (auto simp: peek_def dropWhile_eq_Nil_conv)
  ultimately show False by simp
qed

section \<open>Encoding strings\<close>

text \<open>\<open>json.Marshal\<close> of a string, HTML escaping on: quotes, backslashes, control bytes and the
  three HTML bytes are escaped, invalid UTF-8 becomes the replacement character, and the line
  separators U+2028 and U+2029 are escaped.\<close>

definition hex_digit :: "nat \<Rightarrow> char" where
  "hex_digit n = char_of (if n < 10 then 48 + n else 87 + n)"

definition htmlSafe :: "char \<Rightarrow> bool" where
  "htmlSafe c \<longleftrightarrow> 32 \<le> byte c \<and> byte c < 0x80 \<and> c \<noteq> CHR 0x22 \<and> c \<noteq> CHR 0x5C
     \<and> c \<noteq> CHR ''<'' \<and> c \<noteq> CHR ''>'' \<and> c \<noteq> CHR ''&''"

definition escape_ascii :: "char \<Rightarrow> string" where
  "escape_ascii c =
     (if c = CHR 0x22 \<or> c = CHR 0x5C then [CHR 0x5C, c]
      else if byte c = 8 then [CHR 0x5C, CHR ''b'']
      else if byte c = 12 then [CHR 0x5C, CHR ''f'']
      else if byte c = 10 then [CHR 0x5C, CHR ''n'']
      else if byte c = 13 then [CHR 0x5C, CHR ''r'']
      else if byte c = 9 then [CHR 0x5C, CHR ''t'']
      else CHR 0x5C # ''u00'' @ [hex_digit (byte c div 16), hex_digit (byte c mod 16)])"

function marshal_body :: "string \<Rightarrow> string" where
  "marshal_body [] = []"
| "marshal_body (c # cs) =
     (if byte c < 0x80 then (if htmlSafe c then [c] else escape_ascii c) @ marshal_body cs
      else let r = fst (DecodeRune (c # cs)); n = snd (DecodeRune (c # cs)) in
        if r = RuneError \<and> n = 1 then CHR 0x5C # ''ufffd'' @ marshal_body cs
        else if r = 0x2028 \<or> r = 0x2029
          then CHR 0x5C # ''u202'' @ [hex_digit (r mod 16)] @ marshal_body (drop (n - 1) cs)
        else take n (c # cs) @ marshal_body (drop (n - 1) cs))"
  by pat_completeness auto
termination
  by (relation "measure length") auto

declare marshal_body.simps(2) [simp del]

definition marshal_string :: "string \<Rightarrow> string" where
  "marshal_string s = CHR 0x22 # marshal_body s @ [CHR 0x22]"

text \<open>The bytes an encoder emits are printable: none is a control byte.\<close>

definition no_control :: "string \<Rightarrow> bool" where
  "no_control s \<longleftrightarrow> list_all (\<lambda>c. 32 \<le> byte c) s"

lemma no_control_simps [simp]:
  "no_control []"
  "no_control (c # cs) \<longleftrightarrow> 32 \<le> byte c \<and> no_control cs"
  "no_control (xs @ ys) \<longleftrightarrow> no_control xs \<and> no_control ys"
  by (simp_all add: no_control_def)

lemma no_control_hex [simp]: "n < 16 \<Longrightarrow> 32 \<le> byte (hex_digit n)"
  by (simp add: hex_digit_def)

lemma no_control_escape [simp]: "byte c < 0x80 \<Longrightarrow> no_control (escape_ascii c)"
  by (auto simp: escape_ascii_def)

text \<open>A multi-byte sequence that decodes consists of bytes above the ASCII range.\<close>

lemma accept_range_ge: "0x80 \<le> fst (accept_range b)"
  by (simp add: accept_range_def)

lemma DecodeRune_bytes:
  assumes "0x80 \<le> byte c" "d \<in> set (take (snd (DecodeRune (c # cs))) (c # cs))"
  shows "0x80 \<le> byte d"
proof -
  obtain lo hi where rg: "accept_range (byte c) = (lo, hi)" "0x80 \<le> lo"
    using accept_range_ge [of "byte c"] by (cases "accept_range (byte c)") auto
  show ?thesis
    using assms rg
    by (auto simp: DecodeRune.simps(2) Let_def cont_byte_def split: list.splits if_splits)
qed

lemma no_control_marshal_body [simp]: "no_control (marshal_body s)"
proof (induction s rule: marshal_body.induct)
  case 1
  then show ?case by simp
next
  case (2 c cs)
  show ?case
  proof (cases "byte c < 0x80")
    case True
    with 2 show ?thesis by (auto simp: marshal_body.simps(2) htmlSafe_def)
  next
    case False
    then have "no_control (take (snd (DecodeRune (c # cs))) (c # cs))"
      using DecodeRune_bytes [of c _ cs] by (fastforce simp: no_control_def list_all_iff)
    with False 2 show ?thesis
      by (auto simp: marshal_body.simps(2) Let_def)
  qed
qed

lemma no_control_marshal_string [simp]: "no_control (marshal_string s)"
  by (simp add: marshal_string_def)

lemma no_control_digits [simp]: "no_control (nat_digits n)"
  using nat_digits_digits [of _ n] by (fastforce simp: no_control_def list_all_iff is_digit_def)

lemma no_control_Itoa [simp]: "no_control (Itoa i)"
  by (simp add: Itoa_def)

end
