(* ===== verification/GoJsonText.thy ===== *)
theory GoJsonText
  imports GoJson
begin

text \<open>
  Reference texts of JSON objects and the proof that the decoder model reads them back: a
  member is a plain key and the text of a number, a string or a boolean; an object printed
  from its members is delimited exactly by the scanner and its members are recovered in order.
\<close>

section \<open>Running the scanner over a text\<close>

text \<open>The scanner after a text that neither ends the value nor fails.\<close>

fun scan_steps :: "scanner \<Rightarrow> string \<Rightarrow> scanner option" where
  "scan_steps sc [] = Some sc"
| "scan_steps sc (c # cs) =
     (let (sc', op) = scan_step sc c in
      if op = ScanError \<or> op = ScanEnd \<or> ((op = ScanEndObject \<or> op = ScanEndArray) \<and> snd sc' = [])
      then None else scan_steps sc' cs)"

lemma scan_steps_append:
  "scan_steps sc (xs @ ys) = Option.bind (scan_steps sc xs) (\<lambda>sc'. scan_steps sc' ys)"
  by (induction sc xs rule: scan_steps.induct) (auto simp: Let_def split: prod.splits)

lemma read_value_steps:
  "scan_steps sc xs = Some sc' \<Longrightarrow>
   read_value sc (xs @ ys) = map_option (\<lambda>(v, r). (xs @ v, r)) (read_value sc' ys)"
proof (induction sc xs arbitrary: sc' rule: scan_steps.induct)
  case (1 sc)
  then show ?case by (simp add: option.map_ident split_def)
next
  case (2 sc c cs)
  obtain sc1 op where step: "scan_step sc c = (sc1, op)"
    by (cases "scan_step sc c")
  with "2.prems" have go: "op \<noteq> ScanError" "op \<noteq> ScanEnd"
      "\<not> ((op = ScanEndObject \<or> op = ScanEndArray) \<and> snd sc1 = [])"
      and steps: "scan_steps sc1 cs = Some sc'"
    by (auto split: if_splits)
  then have "read_value sc1 (cs @ ys) = map_option (\<lambda>(v, r). (cs @ v, r)) (read_value sc' ys)"
    using "2.IH" step by simp
  with step go show ?case
    by (auto simp: read_value.simps(2) option.map_comp comp_def split_def)
qed

text \<open>A text the scanner reads as one complete value, whatever encloses it.\<close>

definition value_text :: "string \<Rightarrow> bool" where
  "value_text v \<longleftrightarrow> (\<forall>ps. \<exists>st. scan_steps (BeginValue, ps) v = Some (st, ps)
      \<and> scan_step (st, ps) (CHR '','') = end_value ps (CHR '','')
      \<and> scan_step (st, ps) (CHR ''}'') = end_value ps (CHR ''}''))"

lemma value_textE:
  assumes "value_text v"
  obtains st where "scan_steps (BeginValue, ps) v = Some (st, ps)"
    and "\<And>c. c = CHR '','' \<or> c = CHR ''}'' \<Longrightarrow> scan_step (st, ps) c = end_value ps c"
  using assms unfolding value_text_def by metis

lemma read_value_text:
  assumes "value_text v" and c: "c = CHR '','' \<or> c = CHR ''}''"
  shows "read_value init_scanner (v @ c # r) = Some (v, c # r)"
proof -
  from assms(1) obtain st where "scan_steps (BeginValue, []) v = Some (st, [])"
    and "scan_step (st, []) c = end_value [] c"
    using c by (auto elim: value_textE [of v "[]"])
  then show ?thesis
    by (simp add: init_scanner_def read_value_steps read_value.simps(2))
qed

section \<open>Literals\<close>

definition json_plain :: "string \<Rightarrow> bool" where
  "json_plain s \<longleftrightarrow> list_all (\<lambda>c. 32 \<le> byte c \<and> byte c < 0x80 \<and> c \<noteq> CHR 0x22 \<and> c \<noteq> CHR 0x5C) s"

definition quote_lit :: "string \<Rightarrow> string" where
  "quote_lit s = CHR 0x22 # s @ [CHR 0x22]"

lemma scan_steps_plain: "json_plain s \<Longrightarrow> scan_steps (InString, ps) s = Some (InString, ps)"
  by (induction s) (auto simp: json_plain_def)

lemma scan_steps_quote: "json_plain s \<Longrightarrow> scan_steps (BeginValue, ps) (quote_lit s) = Some (EndValue, ps)"
  by (simp add: quote_lit_def begin_value_def json_space_def scan_steps_append scan_steps_plain)

lemma value_text_quote [simp]: "json_plain s \<Longrightarrow> value_text (quote_lit s)"
  by (simp add: value_text_def scan_steps_quote)

lemma unquote_body_plain: "json_plain s \<Longrightarrow> unquote_body s = Some s"
  by (induction s) (auto simp: json_plain_def unquote_body.simps(2))

lemma unquote_quote: "json_plain s \<Longrightarrow> unquote (quote_lit s) = Some s"
  by (simp add: unquote_def quote_lit_def unquote_body_plain)

lemma value_text_bool [simp]: "value_text ''true''" "value_text ''false''"
  by (simp_all add: value_text_def begin_value_def json_space_def is_digit_def)

lemma scan_steps_digits: "list_all is_digit ds \<Longrightarrow> scan_steps (St1, ps) ds = Some (St1, ps)"
  by (induction ds) auto

lemma is_digit_not_structural:
  assumes "is_digit c"
  shows "\<not> json_space c" "c \<noteq> CHR ''{''" "c \<noteq> CHR ''[''" "c \<noteq> CHR 0x22" "c \<noteq> CHR ''-''"
    "c \<noteq> CHR ''t''" "c \<noteq> CHR ''f''" "c \<noteq> CHR ''n''"
  using assms by (auto simp: is_digit_def json_space_def)

lemma state1_delim:
  "scan_step (St1, ps) (CHR '','') = end_value ps (CHR '','')"
  "scan_step (St1, ps) (CHR ''}'') = end_value ps (CHR ''}'')"
  by (simp_all add: state0_def is_digit_def)

lemma state0_delim:
  "scan_step (St0, ps) (CHR '','') = end_value ps (CHR '','')"
  "scan_step (St0, ps) (CHR ''}'') = end_value ps (CHR ''}'')"
  by (simp_all add: state0_def)

lemma nat_digits_Cons:
  obtains d ds where "nat_digits n = d # ds" "is_digit d" "list_all is_digit ds" "d = CHR ''0'' \<longrightarrow> n = 0"
  using nat_digits_digits [of _ n] nat_digits_hd_zero [of n]
  by (cases "nat_digits n") (auto simp: list_all_iff)

lemma nat_digits_zero [simp]: "nat_digits 0 = ''0''"
  by (simp add: nat_digits.simps [of 0]) (rule char_eqI, simp)

text \<open>After the digits of a number the scanner is in \<open>state0\<close> or \<open>state1\<close>, which agree on
  every delimiter.\<close>

lemma scan_steps_nat_digits:
  assumes "st \<in> {BeginValue, Neg}"
  obtains st' where "scan_steps (st, ps) (nat_digits n) = Some (st', ps)" "st' \<in> {St0, St1}"
proof (cases "n = 0")
  case True
  with assms that [of St0] show thesis by (auto simp: begin_value_def json_space_def)
next
  case False
  then obtain d ds where "nat_digits n = d # ds" "is_digit d" "list_all is_digit ds" "d \<noteq> CHR ''0''"
    by (metis nat_digits_Cons)
  with assms that [of St1] show thesis
    by (auto simp: begin_value_def is_digit_not_structural scan_steps_digits)
qed

lemma value_text_nat_digits [simp]: "value_text (nat_digits n)"
  unfolding value_text_def
proof
  fix ps
  obtain st' where "scan_steps (BeginValue, ps) (nat_digits n) = Some (st', ps)" "st' \<in> {St0, St1}"
    using scan_steps_nat_digits [of BeginValue] by blast
  then show "\<exists>st. scan_steps (BeginValue, ps) (nat_digits n) = Some (st, ps)
      \<and> scan_step (st, ps) (CHR '','') = end_value ps (CHR '','')
      \<and> scan_step (st, ps) (CHR ''}'') = end_value ps (CHR ''}'')"
    using state0_delim state1_delim by blast
qed

lemma value_text_Itoa [simp]: "value_text (Itoa i)"
proof (cases "i < 0")
  case True
  show ?thesis
    unfolding value_text_def
  proof
    fix ps
    obtain st' where "scan_steps (Neg, ps) (nat_digits (nat (- i))) = Some (st', ps)" "st' \<in> {St0, St1}"
      using scan_steps_nat_digits [of Neg] by blast
    moreover have "scan_steps (BeginValue, ps) (Itoa i) = scan_steps (Neg, ps) (nat_digits (nat (- i)))"
      using True by (simp add: Itoa_def begin_value_def json_space_def)
    ultimately show "\<exists>st. scan_steps (BeginValue, ps) (Itoa i) = Some (st, ps)
        \<and> scan_step (st, ps) (CHR '','') = end_value ps (CHR '','')
        \<and> scan_step (st, ps) (CHR ''}'') = end_value ps (CHR ''}'')"
      using state0_delim state1_delim by auto
  qed
next
  case False
  then show ?thesis by (simp add: Itoa_def)
qed

section \<open>Objects\<close>

definition member_text :: "string \<times> string \<Rightarrow> string" where
  "member_text m = quote_lit (fst m) @ CHR '':'' # snd m"

fun members_text :: "(string \<times> string) list \<Rightarrow> string" where
  "members_text [] = []"
| "members_text [m] = member_text m"
| "members_text (m # n # ms) = member_text m @ CHR '','' # members_text (n # ms)"

definition object_text :: "(string \<times> string) list \<Rightarrow> string" where
  "object_text ms = CHR ''{'' # members_text ms @ ''}''"

definition good_member :: "string \<times> string \<Rightarrow> bool" where
  "good_member m \<longleftrightarrow> json_plain (fst m) \<and> value_text (snd m)"

lemma peek_quote [simp]: "peek (quote_lit k @ r) = quote_lit k @ r"
  by (simp add: peek_def quote_lit_def json_space_def)

lemma peek_delim [simp]:
  "peek (CHR '':'' # r) = CHR '':'' # r" "peek (CHR '','' # r) = CHR '','' # r"
  "peek (CHR ''}'' # r) = CHR ''}'' # r" "peek (CHR ''{'' # r) = CHR ''{'' # r"
  by (simp_all add: peek_def json_space_def)

lemma read_value_key:
  "json_plain k \<Longrightarrow> read_value init_scanner (quote_lit k @ CHR '':'' # r) = Some (quote_lit k, CHR '':'' # r)"
  by (simp add: init_scanner_def read_value_steps [OF scan_steps_quote] read_value.simps(2))

lemma read_member_text:
  assumes "good_member m" and c: "c = CHR '','' \<or> c = CHR ''}''"
  shows "read_member (member_text m @ c # r) = Some (m, c # r)"
  using assms
  by (auto simp: good_member_def member_text_def read_member_def read_value_key unquote_quote
        read_value_text)

lemma object_members_text:
  "ms \<noteq> [] \<Longrightarrow> list_all good_member ms \<Longrightarrow> object_members (members_text ms @ ''}'') = Some ms"
  by (induction ms rule: members_text.induct)
     (simp_all add: object_members.simps read_member_text)

lemma peek_members_text: "ms \<noteq> [] \<Longrightarrow> peek (members_text ms @ r) = CHR 0x22 # tl (members_text ms @ r)"
  by (cases ms rule: members_text.cases)
     (simp_all add: member_text_def quote_lit_def peek_def json_space_def)

lemma decode_object_text:
  "ms \<noteq> [] \<Longrightarrow> list_all good_member ms \<Longrightarrow> decode_object (object_text ms) = Some ms"
  by (simp add: decode_object_def object_text_def object_members_text peek_members_text)

text \<open>The whole object is one value: the scanner stops right after the closing brace.\<close>

lemma scan_steps_key:
  assumes "json_plain k"
  shows "scan_steps (BeginString, ParseObjectKey # ps) (quote_lit k @ '':'') =
     Some (BeginValue, ParseObjectValue # ps)"
    and "scan_steps (BeginStringOrEmpty, ParseObjectKey # ps) (quote_lit k @ '':'') =
     Some (BeginValue, ParseObjectValue # ps)"
  using assms
  by (simp_all add: quote_lit_def begin_string_def json_space_def scan_steps_append scan_steps_plain)

lemma scan_steps_member:
  assumes "good_member m" and "st0 = BeginString \<or> st0 = BeginStringOrEmpty"
  obtains st where "scan_steps (st0, ParseObjectKey # ps) (member_text m) = Some (st, ParseObjectValue # ps)"
    and "\<And>c. c = CHR '','' \<or> c = CHR ''}'' \<Longrightarrow>
       scan_step (st, ParseObjectValue # ps) c = end_value (ParseObjectValue # ps) c"
proof -
  from assms(1) have "value_text (snd m)" by (simp add: good_member_def)
  then obtain st where
    "scan_steps (BeginValue, ParseObjectValue # ps) (snd m) = Some (st, ParseObjectValue # ps)"
    and "\<forall>c. c = CHR '','' \<or> c = CHR ''}'' \<longrightarrow>
       scan_step (st, ParseObjectValue # ps) c = end_value (ParseObjectValue # ps) c"
    by (auto elim: value_textE [of "snd m" "ParseObjectValue # ps"])
  moreover have "scan_steps (st0, ParseObjectKey # ps) (member_text m) =
      scan_steps (BeginValue, ParseObjectValue # ps) (snd m)"
  proof -
    have "json_plain (fst m)" using assms(1) by (simp add: good_member_def)
    then have "scan_steps (st0, ParseObjectKey # ps) (quote_lit (fst m) @ '':'') =
        Some (BeginValue, ParseObjectValue # ps)"
      using assms(2) scan_steps_key by metis
    then show ?thesis
      using scan_steps_append [of "(st0, ParseObjectKey # ps)" "quote_lit (fst m) @ '':''" "snd m"]
      by (simp add: member_text_def)
  qed
  ultimately show thesis by (intro that [of st]) auto
qed

lemma read_value_members:
  "ms \<noteq> [] \<Longrightarrow> list_all good_member ms \<Longrightarrow> st0 = BeginString \<or> st0 = BeginStringOrEmpty \<Longrightarrow>
   read_value (st0, [ParseObjectKey]) (members_text ms @ CHR ''}'' # r) = Some (members_text ms @ ''}'', r)"
proof (induction ms arbitrary: st0 rule: members_text.induct)
  case 1
  then show ?case by simp
next
  case (2 m)
  then obtain st where "scan_steps (st0, [ParseObjectKey]) (member_text m) = Some (st, [ParseObjectValue])"
    and "scan_step (st, [ParseObjectValue]) (CHR ''}'') = end_value [ParseObjectValue] (CHR ''}'')"
    by (auto elim: scan_steps_member [of m st0 "[]"])
  then show ?case
    by (simp add: read_value_steps read_value.simps(2) json_space_def)
next
  case (3 m n ms)
  then obtain st where "scan_steps (st0, [ParseObjectKey]) (member_text m) = Some (st, [ParseObjectValue])"
    and "scan_step (st, [ParseObjectValue]) (CHR '','') = end_value [ParseObjectValue] (CHR '','')"
    by (auto elim: scan_steps_member [of m st0 "[]"])
  moreover have "read_value (BeginString, [ParseObjectKey]) (members_text (n # ms) @ CHR ''}'' # r) =
      Some (members_text (n # ms) @ ''}'', r)"
    using 3 by simp
  ultimately show ?case
    by (simp add: read_value_steps read_value.simps(2) json_space_def)
qed

lemma read_value_object:
  "ms \<noteq> [] \<Longrightarrow> list_all good_member ms \<Longrightarrow>
   read_value init_scanner (object_text ms @ r) = Some (object_text ms, r)"
  by (simp add: init_scanner_def object_text_def read_value.simps(2) begin_value_def json_space_def
        push_state_def maxNestingDepth_def read_value_members)

lemma TrimSpace_object_text [simp]: "TrimSpace (object_text ms) = object_text ms"
  by (rule TrimSpace_id) (simp_all add: object_text_def IsSpace_def)

end
