(* ===== verification/VnextOutcome.thy ===== *)
theory VnextOutcome
  imports GoJsonText
begin

text \<open>
  internal/vnext/outcome.go and the data of internal/vnext/backend.go and fake.go: window
  descriptions, the errors a backend returns, the outcome of a request and its wire form.
\<close>

section \<open>Errors\<close>

text \<open>The sentinel errors of the packages, other errors, and errors wrapped by \<open>fmt.Errorf\<close>.\<close>

datatype go_error =
    ErrRefMismatch | ErrUnavailable | ErrXCall | ErrCoordOutOfRange
  | ErrOther string | Wrapped string go_error

fun errors_Is :: "go_error \<Rightarrow> go_error \<Rightarrow> bool" where
  "errors_Is (Wrapped msg e) t = (Wrapped msg e = t \<or> errors_Is e t)"
| "errors_Is e t = (e = t)"

section \<open>Windows and outcomes\<close>

record WindowInfo =
  wXID :: go_uint32
  wClass :: string
  wPID :: go_uint32
  wName :: string
  wX :: go_int
  wY :: go_int
  wWidth :: go_int
  wHeight :: go_int
  wState :: "string list"
  wDisplayGen :: go_uint64
  wObserveGen :: go_uint64

datatype Code = Submitted | NotSubmitted | InvalidRequest | Conflict | Unavailable

record Outcome =
  Code :: Code
  Err :: "go_error option"
  Windows :: "WindowInfo list"
  ScreenWidth :: go_int
  ScreenHeight :: go_int
  RequestedActive :: go_uint32
  ObservedActive :: go_uint32

fun code_string :: "Code \<Rightarrow> string" where
  "code_string Submitted = ''Submitted''"
| "code_string NotSubmitted = ''NotSubmitted''"
| "code_string InvalidRequest = ''InvalidRequest''"
| "code_string Conflict = ''Conflict''"
| "code_string Unavailable = ''Unavailable''"

definition outcome_of :: "Code \<Rightarrow> Outcome" where
  "outcome_of c = \<lparr>Code = c, Err = None, Windows = [], ScreenWidth = 0, ScreenHeight = 0,
     RequestedActive = 0, ObservedActive = 0\<rparr>"

definition submitted :: Outcome where "submitted = outcome_of Submitted"
definition notSubmitted :: Outcome where "notSubmitted = outcome_of NotSubmitted"
definition invalidRequest :: Outcome where "invalidRequest = outcome_of InvalidRequest"
definition conflict :: Outcome where "conflict = outcome_of Conflict"

definition is_submitted :: "Outcome \<Rightarrow> bool" where
  "is_submitted o' \<longleftrightarrow> Code o' = Submitted \<and> Err o' = None"

lemma Code_outcomes [simp]:
  "Code (outcome_of c) = c" "Code submitted = Submitted" "Code notSubmitted = NotSubmitted"
  "Code invalidRequest = InvalidRequest" "Code conflict = Conflict"
  by (simp_all add: outcome_of_def submitted_def notSubmitted_def invalidRequest_def conflict_def)

section \<open>The wire form\<close>

text \<open>A struct field with \<open>omitempty\<close> is left out when its value is empty.\<close>

definition omitempty :: "bool \<Rightarrow> string \<Rightarrow> string \<Rightarrow> (string \<times> string) list" where
  "omitempty isEmpty k v = (if isEmpty then [] else [(k, v)])"

definition marshal_uint :: "'w::len word \<Rightarrow> string" where
  "marshal_uint w = nat_digits (unat w)"

fun comma_sep :: "string list \<Rightarrow> string" where
  "comma_sep [] = []"
| "comma_sep [v] = v"
| "comma_sep (v # vs) = v @ CHR '','' # comma_sep vs"

definition array_text :: "string list \<Rightarrow> string" where
  "array_text vs = CHR ''['' # comma_sep vs @ '']''"

definition window_members :: "WindowInfo \<Rightarrow> (string \<times> string) list" where
  "window_members w =
     [(''xid'', marshal_uint (wXID w))]
     @ omitempty (wClass w = []) ''class'' (marshal_string (wClass w))
     @ omitempty (wPID w = 0) ''pid'' (marshal_uint (wPID w))
     @ omitempty (wName w = []) ''name'' (marshal_string (wName w))
     @ [(''x'', Itoa (wX w)), (''y'', Itoa (wY w)),
        (''width'', Itoa (wWidth w)), (''height'', Itoa (wHeight w))]
     @ omitempty (wState w = []) ''state'' (array_text (map marshal_string (wState w)))
     @ [(''displayGen'', marshal_uint (wDisplayGen w)), (''observeGen'', marshal_uint (wObserveGen w))]"

definition outcome_members :: "Outcome \<Rightarrow> (string \<times> string) list" where
  "outcome_members o' =
     [(''code'', marshal_string (code_string (Code o')))]
     @ omitempty (Windows o' = []) ''windows''
         (array_text (map (\<lambda>w. object_text (window_members w)) (Windows o')))
     @ omitempty (ScreenWidth o' = 0) ''screenWidth'' (Itoa (ScreenWidth o'))
     @ omitempty (ScreenHeight o' = 0) ''screenHeight'' (Itoa (ScreenHeight o'))
     @ omitempty (RequestedActive o' = 0) ''requestedActive'' (marshal_uint (RequestedActive o'))
     @ omitempty (ObservedActive o' = 0) ''observedActive'' (marshal_uint (ObservedActive o'))"

text \<open>\<open>json.Marshal\<close> has no failing case for this struct, so the error component is always
  nil.\<close>

definition WireJSON :: "Outcome \<Rightarrow> string \<times> go_error option" where
  "WireJSON o' = (object_text (outcome_members o'), None)"

lemma no_control_members_text:
  "list_all (\<lambda>(k, v). no_control k \<and> no_control v) ms \<Longrightarrow> no_control (members_text ms)"
  by (induction ms rule: members_text.induct) (auto simp: member_text_def quote_lit_def)

lemma no_control_object_text:
  "list_all (\<lambda>(k, v). no_control k \<and> no_control v) ms \<Longrightarrow> no_control (object_text ms)"
  by (simp add: object_text_def no_control_members_text)

lemma no_control_array_text: "list_all no_control vs \<Longrightarrow> no_control (array_text vs)"
proof -
  have "list_all no_control vs \<Longrightarrow> no_control (comma_sep vs)"
    by (induction vs rule: comma_sep.induct) auto
  then show "list_all no_control vs \<Longrightarrow> no_control (array_text vs)"
    by (simp add: array_text_def)
qed

lemma no_control_marshal_uint [simp]: "no_control (marshal_uint w)"
  by (simp add: marshal_uint_def)

lemma no_control_window: "no_control (object_text (window_members w))"
  by (rule no_control_object_text)
     (simp add: window_members_def omitempty_def no_control_array_text list_all_iff)

lemma no_control_WireJSON: "no_control (fst (WireJSON o'))"
  unfolding WireJSON_def fst_conv
  by (rule no_control_object_text)
     (simp add: outcome_members_def omitempty_def no_control_array_text no_control_window list_all_iff)

end
