(* ===== verification/VnextRequest.thy ===== *)
theory VnextRequest
  imports VnextOutcome
begin

text \<open>
  internal/vnext/request.go: the operations, the wire struct, the pre-scan of the top-level
  keys and \<open>Decode\<close>, which turns one line into a validated request or an outcome. Also the
  canonical text of a request (docs/PROTOCOL.md) for the round trip.
\<close>

section \<open>Requests\<close>

datatype Op = OpMove | OpKey | OpButton | OpInspect | OpActivate | OpFullscreen | OpRelease | OpUnknown string

definition Op_of :: "string \<Rightarrow> Op" where
  "Op_of s =
     (if s = ''move'' then OpMove else if s = ''key'' then OpKey
      else if s = ''button'' then OpButton else if s = ''inspect'' then OpInspect
      else if s = ''activate'' then OpActivate else if s = ''fullscreen'' then OpFullscreen
      else if s = ''release'' then OpRelease else OpUnknown s)"

definition maxJSONLine :: nat where "maxJSONLine = 1048576"

record WindowRef =
  DisplayGen :: go_uint64
  ObserveGen :: go_uint64
  XID :: go_uint32
  ExpectedClass :: string
  ExpectedPID :: go_uint32

record Request =
  Op :: Op
  X :: go_int
  Y :: go_int
  Key :: string
  Press :: bool
  Button :: go_uint
  Window :: WindowRef
  AddState :: bool

definition zero_WindowRef :: WindowRef where
  "zero_WindowRef = \<lparr>DisplayGen = 0, ObserveGen = 0, XID = 0, ExpectedClass = [], ExpectedPID = 0\<rparr>"

text \<open>Go's zero \<open>Request\<close>: its \<open>Op\<close> is the empty string.\<close>

definition zero_Request :: Request where
  "zero_Request = \<lparr>Op = OpUnknown [], X = 0, Y = 0, Key = [], Press = False, Button = 0,
     Window = zero_WindowRef, AddState = False\<rparr>"

record wire =
  w_Op :: string
  w_X :: "go_int option"
  w_Y :: "go_int option"
  w_Name :: string
  w_Press :: "bool option"
  w_Button :: "go_uint option"
  w_DisplayGen :: "go_uint64 option"
  w_ObserveGen :: "go_uint64 option"
  w_XID :: "go_uint32 option"
  w_ExpectedClass :: string
  w_ExpectedPID :: go_uint32
  w_Add :: "bool option"

definition zero_wire :: wire where
  "zero_wire = \<lparr>w_Op = [], w_X = None, w_Y = None, w_Name = [], w_Press = None, w_Button = None,
     w_DisplayGen = None, w_ObserveGen = None, w_XID = None, w_ExpectedClass = [],
     w_ExpectedPID = 0, w_Add = None\<rparr>"

definition knownWireKeys :: "string list" where
  "knownWireKeys = [''op'', ''x'', ''y'', ''name'', ''press'', ''button'', ''displayGen'',
     ''observeGen'', ''xid'', ''expectedClass'', ''expectedPID'', ''add'']"

section \<open>The top-level scan\<close>

text \<open>The loop of \<open>scanTopLevelJSON\<close>: \<open>(bad, seen)\<close>, the keys seen so far in order.\<close>

function scan_loop :: "string list \<Rightarrow> decoder \<Rightarrow> bool \<times> string list" where
  "scan_loop seen d =
     (if \<not> json_More (buf d) then (False, seen)
      else case json_Token d of
        None \<Rightarrow> (True, seen)
      | Some (kt, d1) \<Rightarrow>
          (case kt of
             StringTok k \<Rightarrow>
               if k \<notin> set knownWireKeys then (True, seen)
               else if k \<in> set seen then (True, seen)
               else (case json_DecodeRaw d1 of
                       None \<Rightarrow> (True, seen @ [k])
                     | Some (skip, d2) \<Rightarrow> scan_loop (seen @ [k]) d2)
           | _ \<Rightarrow> (True, seen)))"
  by pat_completeness auto
termination
  by (relation "measure (\<lambda>(seen, d). length (buf d))")
     (auto dest!: json_Token_length json_DecodeRaw_length)

declare scan_loop.simps [simp del]

definition scanTopLevelJSON :: "string \<Rightarrow> bool \<times> string list" where
  "scanTopLevelJSON line =
     (case json_Token \<lparr>buf = line, tokenState = TokenTopValue\<rparr> of
        None \<Rightarrow> (True, [])
      | Some (tok, d) \<Rightarrow> if tok \<noteq> Delim (CHR ''{'') then (True, []) else scan_loop [] d)"

definition extraSeen :: "string list \<Rightarrow> string list \<Rightarrow> bool" where
  "extraSeen seen allowed = list_ex (\<lambda>k. k \<notin> set allowed) seen"

section \<open>Storing the members\<close>

text \<open>
  \<open>literalStore\<close> for the field types of \<open>wire\<close>. The argument is the text of the value, leading
  white space included. The outer \<open>None\<close> is an \<open>UnmarshalTypeError\<close>; arrays and objects
  are type errors for every field. JSON \<open>null\<close> resets a pointer and leaves a plain field as
  it was.
\<close>

definition is_null :: "string \<Rightarrow> bool" where
  "is_null v \<longleftrightarrow> peek v = ''null''"

definition decode_int :: "string \<Rightarrow> go_int option option" where
  "decode_int v =
     (if is_null v then Some None
      else case peek v of
        [] \<Rightarrow> None
      | c # cs \<Rightarrow>
          if c = CHR ''-'' \<or> is_digit c then
            (case ParseInt (c # cs) of (n, None) \<Rightarrow> Some (Some n) | _ \<Rightarrow> None)
          else None)"

text \<open>\<open>ParseUint(item, 10, 64)\<close> and then \<open>OverflowUint\<close> for the width of the field.\<close>

definition decode_nat :: "nat \<Rightarrow> string \<Rightarrow> nat option option" where
  "decode_nat bits v =
     (if is_null v then Some None
      else case peek v of
        [] \<Rightarrow> None
      | c # cs \<Rightarrow>
          if c = CHR ''-'' \<or> is_digit c then
            (case ParseUint 64 (c # cs) of
               (n, None) \<Rightarrow> if n < 2 ^ bits then Some (Some n) else None
             | _ \<Rightarrow> None)
          else None)"

definition decode_uint :: "string \<Rightarrow> 'w::len word option option" where
  "decode_uint v = map_option (map_option of_nat) (decode_nat LENGTH('w) v)"

definition decode_bool :: "string \<Rightarrow> bool option option" where
  "decode_bool v =
     (if is_null v then Some None
      else if peek v = ''true'' then Some (Some True)
      else if peek v = ''false'' then Some (Some False) else None)"

definition decode_string :: "string \<Rightarrow> string option option" where
  "decode_string v =
     (if is_null v then Some None
      else case peek v of
        [] \<Rightarrow> None
      | c # cs \<Rightarrow> if c = CHR 0x22 then map_option Some (unquote (c # cs)) else None)"

text \<open>
  One member into the struct. The key is matched exactly: \<open>Decode\<close> stores members only after
  \<open>scanTopLevelJSON\<close> has found every key among \<open>knownWireKeys\<close>, so neither the library's
  case-insensitive match nor its unknown-field error is reached.
\<close>

definition store_member :: "string \<times> string \<Rightarrow> wire \<Rightarrow> wire option" where
  "store_member m w =
     (let k = fst m; v = snd m in
      if k = ''op'' then map_option (\<lambda>s. case s of None \<Rightarrow> w | Some t \<Rightarrow> w\<lparr>w_Op := t\<rparr>) (decode_string v)
      else if k = ''x'' then map_option (\<lambda>n. w\<lparr>w_X := n\<rparr>) (decode_int v)
      else if k = ''y'' then map_option (\<lambda>n. w\<lparr>w_Y := n\<rparr>) (decode_int v)
      else if k = ''name'' then map_option (\<lambda>s. case s of None \<Rightarrow> w | Some t \<Rightarrow> w\<lparr>w_Name := t\<rparr>) (decode_string v)
      else if k = ''press'' then map_option (\<lambda>b. w\<lparr>w_Press := b\<rparr>) (decode_bool v)
      else if k = ''button'' then map_option (\<lambda>n. w\<lparr>w_Button := n\<rparr>) (decode_uint v)
      else if k = ''displayGen'' then map_option (\<lambda>n. w\<lparr>w_DisplayGen := n\<rparr>) (decode_uint v)
      else if k = ''observeGen'' then map_option (\<lambda>n. w\<lparr>w_ObserveGen := n\<rparr>) (decode_uint v)
      else if k = ''xid'' then map_option (\<lambda>n. w\<lparr>w_XID := n\<rparr>) (decode_uint v)
      else if k = ''expectedClass'' then
        map_option (\<lambda>s. case s of None \<Rightarrow> w | Some t \<Rightarrow> w\<lparr>w_ExpectedClass := t\<rparr>) (decode_string v)
      else if k = ''expectedPID'' then
        map_option (\<lambda>n. case n of None \<Rightarrow> w | Some p \<Rightarrow> w\<lparr>w_ExpectedPID := p\<rparr>) (decode_uint v)
      else if k = ''add'' then map_option (\<lambda>b. w\<lparr>w_Add := b\<rparr>) (decode_bool v)
      else None)"

fun store_members :: "(string \<times> string) list \<Rightarrow> wire \<Rightarrow> wire option" where
  "store_members [] w = Some w"
| "store_members (m # ms) w = Option.bind (store_member m w) (store_members ms)"

text \<open>\<open>dec.Decode(&w)\<close>: the struct and the bytes the decoder has not consumed.\<close>

definition decode_wire :: "string \<Rightarrow> (wire \<times> string) option" where
  "decode_wire line =
     (case read_value init_scanner line of
        None \<Rightarrow> None
      | Some (raw, rest) \<Rightarrow>
          (case decode_object raw of
             None \<Rightarrow> None
           | Some ms \<Rightarrow> map_option (\<lambda>w. (w, rest)) (store_members ms zero_wire)))"

section \<open>Decode\<close>

definition windowFromWire :: "wire \<Rightarrow> WindowRef option" where
  "windowFromWire w =
     (case (w_DisplayGen w, w_ObserveGen w, w_XID w) of
        (Some dg, Some og, Some xid) \<Rightarrow>
          if xid = 0 then None
          else Some \<lparr>DisplayGen = dg, ObserveGen = og, XID = xid,
                     ExpectedClass = w_ExpectedClass w, ExpectedPID = w_ExpectedPID w\<rparr>
      | _ \<Rightarrow> None)"

abbreviation reject :: "Request \<times> Outcome" where
  "reject \<equiv> (zero_Request, invalidRequest)"

definition windowKeys :: "string list" where
  "windowKeys = [''op'', ''displayGen'', ''observeGen'', ''xid'', ''expectedClass'', ''expectedPID'']"

text \<open>The switch of \<open>Decode\<close> on the operation.\<close>

definition validate :: "string list \<Rightarrow> wire \<Rightarrow> Request \<times> Outcome" where
  "validate seen w =
     (case Op_of (w_Op w) of
        OpMove \<Rightarrow>
          (case (w_X w, w_Y w) of
             (Some x, Some y) \<Rightarrow>
               if extraSeen seen [''op'', ''x'', ''y''] then reject
               else (zero_Request\<lparr>Op := OpMove, X := x, Y := y\<rparr>, submitted)
           | _ \<Rightarrow> reject)
      | OpKey \<Rightarrow>
          (case w_Press w of
             Some p \<Rightarrow>
               if extraSeen seen [''op'', ''name'', ''press''] \<or> w_Name w = []
                  \<or> ContainsAny (w_Name w) [CHR 0x00] then reject
               else (zero_Request\<lparr>Op := OpKey, Key := w_Name w, Press := p\<rparr>, submitted)
           | None \<Rightarrow> reject)
      | OpButton \<Rightarrow>
          (case (w_Button w, w_Press w) of
             (Some b, Some p) \<Rightarrow>
               if extraSeen seen [''op'', ''button'', ''press''] \<or> b < 1 \<or> b > 3 then reject
               else (zero_Request\<lparr>Op := OpButton, Button := b, Press := p\<rparr>, submitted)
           | _ \<Rightarrow> reject)
      | OpInspect \<Rightarrow>
          if extraSeen seen [''op''] then reject else (zero_Request\<lparr>Op := OpInspect\<rparr>, submitted)
      | OpActivate \<Rightarrow>
          (case windowFromWire w of
             Some ref \<Rightarrow>
               if extraSeen seen windowKeys then reject
               else (zero_Request\<lparr>Op := OpActivate, Window := ref\<rparr>, submitted)
           | None \<Rightarrow> reject)
      | OpFullscreen \<Rightarrow>
          (case (windowFromWire w, w_Add w) of
             (Some ref, Some add) \<Rightarrow>
               if extraSeen seen (windowKeys @ [''add'']) then reject
               else (zero_Request\<lparr>Op := OpFullscreen, Window := ref, AddState := add\<rparr>, submitted)
           | _ \<Rightarrow> reject)
      | OpRelease \<Rightarrow>
          if extraSeen seen [''op''] then reject else (zero_Request\<lparr>Op := OpRelease\<rparr>, submitted)
      | OpUnknown s \<Rightarrow> (zero_Request, notSubmitted))"

text \<open>
  \<open>InputOffset\<close> after the value is where \<open>More\<close> stopped skipping white space, so the bytes
  from the offset on are \<open>peek rest\<close>.
\<close>

definition Decode :: "string \<Rightarrow> Request \<times> Outcome" where
  "Decode line0 =
     (let line = TrimSpace line0 in
      if line = [] \<or> length line > maxJSONLine then reject
      else let (bad, seen) = scanTopLevelJSON line in
        if bad then reject
        else case decode_wire line of
          None \<Rightarrow> reject
        | Some (w, rest) \<Rightarrow>
            if json_More rest then reject
            else if peek rest \<noteq> [] \<and> TrimSpace (peek rest) \<noteq> [] then reject
            else validate seen w)"

end
