(* ===== verification/DecodeSpec.thy ===== *)
theory DecodeSpec
  imports VnextRequest
begin

text \<open>
  Correctness of \<open>Decode\<close> (internal/vnext/request.go): a submitted line carries a complete,
  valid request and nothing else; the accepted text is one JSON object with distinct, allowed
  keys; every valid request has a text that decodes to it.
\<close>

section \<open>Validity of decoded requests\<close>

text \<open>What \<open>Dispatch\<close> may rely on: exactly the fields of the operation are set, and they satisfy
  its validation rules.\<close>

fun valid_request :: "Request \<Rightarrow> bool" where
  "valid_request r =
     (case Op r of
        OpMove \<Rightarrow> int64_range (X r) \<and> int64_range (Y r)
          \<and> r = zero_Request\<lparr>Op := OpMove, X := X r, Y := Y r\<rparr>
      | OpKey \<Rightarrow> Key r \<noteq> [] \<and> CHR 0x00 \<notin> set (Key r)
          \<and> r = zero_Request\<lparr>Op := OpKey, Key := Key r, Press := Press r\<rparr>
      | OpButton \<Rightarrow> Button r \<in> {1, 2, 3}
          \<and> r = zero_Request\<lparr>Op := OpButton, Button := Button r, Press := Press r\<rparr>
      | OpInspect \<Rightarrow> r = zero_Request\<lparr>Op := OpInspect\<rparr>
      | OpActivate \<Rightarrow> XID (Window r) \<noteq> 0
          \<and> r = zero_Request\<lparr>Op := OpActivate, Window := Window r\<rparr>
      | OpFullscreen \<Rightarrow> XID (Window r) \<noteq> 0
          \<and> r = zero_Request\<lparr>Op := OpFullscreen, Window := Window r, AddState := AddState r\<rparr>
      | OpRelease \<Rightarrow> r = zero_Request\<lparr>Op := OpRelease\<rparr>
      | OpUnknown s \<Rightarrow> False)"

declare valid_request.simps [simp del]

definition wire_ok :: "wire \<Rightarrow> bool" where
  "wire_ok w \<longleftrightarrow> (\<forall>x. w_X w = Some x \<longrightarrow> int64_range x) \<and> (\<forall>y. w_Y w = Some y \<longrightarrow> int64_range y)"

lemma ParseInt_rangeD: "ParseInt s = (n, e) \<Longrightarrow> int64_range n"
  using ParseInt_range [of s] by simp

lemma decode_int_range: "decode_int v = Some (Some n) \<Longrightarrow> int64_range n"
  by (auto simp: decode_int_def dest: ParseInt_rangeD split: if_splits list.splits prod.splits option.splits)

lemma store_member_ok: "store_member m w = Some w' \<Longrightarrow> wire_ok w \<Longrightarrow> wire_ok w'"
  by (auto simp: store_member_def wire_ok_def Let_def dest: decode_int_range
        split: if_splits option.splits)

lemma store_members_ok: "store_members ms w = Some w' \<Longrightarrow> wire_ok w \<Longrightarrow> wire_ok w'"
  by (induction ms w rule: store_members.induct) (auto simp: bind_eq_Some_conv dest: store_member_ok)

lemma decode_wire_ok: "decode_wire line = Some (w, rest) \<Longrightarrow> wire_ok w"
  using store_members_ok [of _ zero_wire]
  by (fastforce simp: decode_wire_def wire_ok_def zero_wire_def split: option.splits)

lemma button_word_cases: "\<not> (b < 1 \<or> b > 3) \<Longrightarrow> b \<in> {1, 2, 3}" for b :: go_uint
proof -
  assume "\<not> (b < 1 \<or> b > 3)"
  then have "unat b \<in> {1, 2, 3}" by (auto simp: word_less_nat_alt)
  then show ?thesis unfolding insert_iff word_unat_eq_iff by auto
qed

lemma validate_cases:
  assumes "validate seen w = (r, out)" "wire_ok w"
  shows "(out = submitted \<and> valid_request r) \<or>
         (r = zero_Request \<and> (out = invalidRequest \<or> out = notSubmitted))"
proof (cases "Op_of (w_Op w)")
  case OpButton
  with assms show ?thesis
    using button_word_cases
    by (auto simp: validate_def valid_request.simps split: option.splits if_splits)
next
  case OpKey
  with assms show ?thesis
    by (auto simp: validate_def valid_request.simps ContainsAny_def list_ex_iff split: option.splits if_splits)
qed (use assms in \<open>auto simp: validate_def valid_request.simps wire_ok_def windowFromWire_def
       split: option.splits if_splits\<close>)

lemma Decode_cases:
  assumes "Decode line = (r, out)"
  shows "(out = submitted \<and> valid_request r) \<or>
         (r = zero_Request \<and> (out = invalidRequest \<or> out = notSubmitted))"
  using assms validate_cases decode_wire_ok
  by (fastforce simp: Decode_def Let_def split: if_splits prod.splits option.splits)

text \<open>(C6) What \<open>Decode\<close> accepts is well formed: either the line is submitted and the request is
  valid for its operation (coordinates in range, a key name without NUL, a button from 1 to 3, a
  window reference with a window, every field of another operation zero), or the request is zero and
  the outcome is InvalidRequest or NotSubmitted.\<close>

theorem Decode_sound:
  assumes "Decode line = (r, out)"
  shows "(out = submitted \<and> valid_request r) \<or>
         (r = zero_Request \<and> (out = invalidRequest \<or> out = notSubmitted))"
  by (rule Decode_cases [OF assms])

section \<open>Strictness\<close>

text \<open>The keys each operation accepts (docs/PROTOCOL.md).\<close>

fun allowed_keys :: "Op \<Rightarrow> string list" where
  "allowed_keys OpMove = [''op'', ''x'', ''y'']"
| "allowed_keys OpKey = [''op'', ''name'', ''press'']"
| "allowed_keys OpButton = [''op'', ''button'', ''press'']"
| "allowed_keys OpActivate = windowKeys"
| "allowed_keys OpFullscreen = windowKeys @ [''add'']"
| "allowed_keys _ = [''op'']"

text \<open>The decoder stands before the members \<open>s\<close>: right after the brace, or before a comma.\<close>

definition member_pos :: "decoder \<Rightarrow> string \<Rightarrow> bool" where
  "member_pos d s \<longleftrightarrow> (tokenState d = TokenObjectStart \<and> buf d = s)
     \<or> (tokenState d = TokenObjectComma \<and> peek (buf d) = CHR '','' # s)"

lemma member_pos_token:
  assumes "read_member s = Some ((k, v), r)" "member_pos d s"
  obtains d1 r3 where "json_More (buf d)" and "json_Token d = Some (StringTok k, d1)"
    and "json_DecodeRaw d1 = Some (v, \<lparr>buf = r3, tokenState = TokenObjectComma\<rparr>)" and "r = peek r3"
proof (cases "tokenState d = TokenObjectStart")
  case True
  with assms(2) have "buf d = s" by (simp add: member_pos_def)
  moreover obtain cs where "peek s = CHR 0x22 # cs" using read_member_peek [OF assms(1)] by blast
  moreover obtain d1 r3 where "token_at TokenObjectStart s = Some (StringTok k, d1)"
    "json_DecodeRaw d1 = Some (v, \<lparr>buf = r3, tokenState = TokenObjectComma\<rparr>)" "r = peek r3"
    using read_member_token [OF assms(1)] by blast
  ultimately show thesis
    using that True by (simp add: json_More_def json_Token_def token_at_peek)
next
  case False
  with assms(2) have "tokenState d = TokenObjectComma" "peek (buf d) = CHR '','' # s"
    by (auto simp: member_pos_def)
  moreover obtain d1 r3 where "token_at TokenObjectKey s = Some (StringTok k, d1)"
    "json_DecodeRaw d1 = Some (v, \<lparr>buf = r3, tokenState = TokenObjectComma\<rparr>)" "r = peek r3"
    using read_member_token [OF assms(1)] by blast
  ultimately show thesis
    using that by (simp add: json_More_def json_Token_def)
qed

definition fresh_keys :: "string list \<Rightarrow> string list \<Rightarrow> bool" where
  "fresh_keys seen ks \<longleftrightarrow> set ks \<subseteq> set knownWireKeys \<and> distinct ks \<and> set ks \<inter> set seen = {}"

lemma fresh_keys_Cons:
  "fresh_keys seen (k # ks) \<longleftrightarrow> k \<in> set knownWireKeys \<and> k \<notin> set seen \<and> fresh_keys (seen @ [k]) ks"
  by (auto simp: fresh_keys_def)

lemma scan_loop_end:
  "peek (buf d) = CHR ''}'' # cs \<Longrightarrow> scan_loop seen d = (False, seen)"
  by (simp add: scan_loop.simps json_More_def)

lemma scan_loop_members:
  assumes "object_members s = Some ms" "member_pos d s"
  shows "if fresh_keys seen (map fst ms) then scan_loop seen d = (False, seen @ map fst ms)
         else fst (scan_loop seen d)"
  using assms
proof (induction s arbitrary: ms d seen rule: object_members.induct)
  case (1 s)
  then obtain k v r where rm: "read_member s = Some ((k, v), r)"
    by (auto simp: object_members.simps [of s] split: option.splits)
  obtain d1 r3 where tok: "json_More (buf d)" "json_Token d = Some (StringTok k, d1)"
    and raw: "json_DecodeRaw d1 = Some (v, \<lparr>buf = r3, tokenState = TokenObjectComma\<rparr>)" and r: "r = peek r3"
    using member_pos_token [OF rm "1.prems"(2)] by metis
  let ?d2 = "\<lparr>buf = r3, tokenState = TokenObjectComma\<rparr>"
  have loop: "scan_loop seen d =
      (if k \<in> set knownWireKeys \<and> k \<notin> set seen then scan_loop (seen @ [k]) ?d2 else (True, seen))"
    using tok raw by (simp add: scan_loop.simps [of seen d])
  from "1.prems"(1) rm consider
      (more) cs ms' where "r = CHR '','' # cs" "object_members cs = Some ms'" "ms = (k, v) # ms'"
    | (last) cs where "r = CHR ''}'' # cs" "ms = [(k, v)]"
    by (auto simp: object_members.simps [of s] split: list.splits if_splits)
  then show ?case
  proof cases
    case more
    then have "member_pos ?d2 cs" using r by (simp add: member_pos_def)
    with 1(1) [OF rm refl more(1)] more(2)
    have "if fresh_keys (seen @ [k]) (map fst ms')
          then scan_loop (seen @ [k]) ?d2 = (False, (seen @ [k]) @ map fst ms')
          else fst (scan_loop (seen @ [k]) ?d2)"
      by simp
    with loop more(3) show ?thesis by (auto simp: fresh_keys_Cons split: if_splits)
  next
    case last
    then have "scan_loop (seen @ [k]) ?d2 = (False, seen @ [k])" using r by (simp add: scan_loop_end)
    with loop last(2) show ?thesis by (auto simp: fresh_keys_Cons fresh_keys_def)
  qed
qed

lemma scanTopLevelJSON_object:
  assumes "peek line = CHR ''{'' # cs" "decode_object line = Some ms"
  shows "if fresh_keys [] (map fst ms) then scanTopLevelJSON line = (False, map fst ms)
         else fst (scanTopLevelJSON line)"
proof -
  let ?d = "\<lparr>buf = cs, tokenState = TokenObjectStart\<rparr>"
  have top: "scanTopLevelJSON line = scan_loop [] ?d"
    using assms(1) by (simp add: scanTopLevelJSON_def json_Token_def token_at_def peek_def json_space_def)
  show ?thesis
  proof (cases "ms = []")
    case True
    with assms have "\<exists>cs'. peek cs = CHR ''}'' # cs'"
      by (auto simp: decode_object_def object_members.simps [of cs]
            split: list.splits if_splits option.splits)
    then show ?thesis using top True by (auto simp: scan_loop_end fresh_keys_def)
  next
    case False
    with assms have "object_members cs = Some ms"
      by (auto simp: decode_object_def split: list.splits if_splits)
    from scan_loop_members [OF this, of ?d "[]"] top show ?thesis
      by (simp add: member_pos_def)
  qed
qed

lemma extraSeen_iff: "extraSeen seen al \<longleftrightarrow> \<not> set seen \<subseteq> set al"
  by (auto simp: extraSeen_def list_ex_iff)

lemma validate_submitted_keys:
  "validate seen w = (r, out) \<Longrightarrow> Code out = Submitted \<Longrightarrow> set seen \<subseteq> set (allowed_keys (Op r))"
  by (cases "Op_of (w_Op w)")
     (force simp: validate_def extraSeen_iff simp del: set_simps split: option.splits if_splits)+

text \<open>(C8) Decoding is strict: a submitted line is, up to surrounding white space, exactly one JSON
  object with nothing behind it and no longer than a line may be, no key occurs twice and every key
  is one its operation documents.\<close>

theorem Decode_strict:
  assumes "Decode line = (r, out)" "Code out = Submitted"
  shows "\<exists>ms. read_value init_scanner (TrimSpace line) = Some (TrimSpace line, [])
      \<and> decode_object (TrimSpace line) = Some ms
      \<and> distinct (map fst ms) \<and> set (map fst ms) \<subseteq> set (allowed_keys (Op r))
      \<and> length (TrimSpace line) \<le> maxJSONLine"
proof -
  let ?l = "TrimSpace line"
  obtain bad seen where scan: "scanTopLevelJSON ?l = (bad, seen)" by force
  from assms scan obtain w rest where
    len: "length ?l \<le> maxJSONLine" and bad: "\<not> bad" and dw: "decode_wire ?l = Some (w, rest)"
    and more: "\<not> json_More rest" "\<not> (peek rest \<noteq> [] \<and> TrimSpace (peek rest) \<noteq> [])"
    and val: "validate seen w = (r, out)"
    by (auto simp: Decode_def Let_def split: if_splits option.splits prod.splits)
  from dw obtain raw ms where rv: "read_value init_scanner ?l = Some (raw, rest)"
    and dobj: "decode_object raw = Some ms"
    by (auto simp: decode_wire_def split: option.splits)
  have "peek rest = []"
  proof (rule ccontr)
    assume ne: "peek rest \<noteq> []"
    with more(1) have "hd (peek rest) = CHR '']'' \<or> hd (peek rest) = CHR ''}''"
      by (auto simp: json_More_def split: list.splits)
    then have "TrimSpace (peek rest) \<noteq> []"
      using TrimSpace_nonempty [OF ne] by (auto simp: IsSpace_def)
    with ne more(2) show False by simp
  qed
  with read_value_split [OF rv] have "rest = []" "raw = ?l"
    using TrimSpace_no_tail by auto
  moreover obtain cs where "peek ?l = CHR ''{'' # cs"
    using dobj \<open>raw = ?l\<close> by (auto simp: decode_object_def split: list.splits if_splits)
  ultimately have "fresh_keys [] (map fst ms)" "seen = map fst ms"
    using scanTopLevelJSON_object [of ?l cs ms] dobj scan bad by (auto split: if_splits)
  with rv dobj len \<open>rest = []\<close> \<open>raw = ?l\<close> validate_submitted_keys [OF val assms(2)]
  show ?thesis by (auto simp: fresh_keys_def)
qed

section \<open>Round trip\<close>

definition bool_text :: "bool \<Rightarrow> string" where
  "bool_text b = (if b then ''true'' else ''false'')"

definition window_ref_members :: "WindowRef \<Rightarrow> (string \<times> string) list" where
  "window_ref_members w =
     [(''displayGen'', marshal_uint (DisplayGen w)), (''observeGen'', marshal_uint (ObserveGen w)),
      (''xid'', marshal_uint (XID w)), (''expectedClass'', quote_lit (ExpectedClass w)),
      (''expectedPID'', marshal_uint (ExpectedPID w))]"

text \<open>The canonical text of a request, as docs/PROTOCOL.md writes it.\<close>

fun request_members :: "Request \<Rightarrow> (string \<times> string) list" where
  "request_members r =
     (case Op r of
        OpMove \<Rightarrow> [(''op'', quote_lit ''move''), (''x'', Itoa (X r)), (''y'', Itoa (Y r))]
      | OpKey \<Rightarrow> [(''op'', quote_lit ''key''), (''name'', quote_lit (Key r)), (''press'', bool_text (Press r))]
      | OpButton \<Rightarrow>
          [(''op'', quote_lit ''button''), (''button'', marshal_uint (Button r)), (''press'', bool_text (Press r))]
      | OpInspect \<Rightarrow> [(''op'', quote_lit ''inspect'')]
      | OpActivate \<Rightarrow> (''op'', quote_lit ''activate'') # window_ref_members (Window r)
      | OpFullscreen \<Rightarrow>
          (''op'', quote_lit ''fullscreen'') # window_ref_members (Window r) @ [(''add'', bool_text (AddState r))]
      | OpRelease \<Rightarrow> [(''op'', quote_lit ''release'')]
      | OpUnknown s \<Rightarrow> [(''op'', quote_lit s)])"

definition request_text :: "Request \<Rightarrow> string" where
  "request_text r = object_text (request_members r)"

lemma peek_quote_lit [simp]: "peek (quote_lit s) = quote_lit s"
  using peek_quote [of s "[]"] by simp

lemma decode_string_quote [simp]: "json_plain s \<Longrightarrow> decode_string (quote_lit s) = Some (Some s)"
  using unquote_quote [of s] by (simp add: decode_string_def is_null_def) (simp add: quote_lit_def)

lemma decode_bool_text [simp]: "decode_bool (bool_text b) = Some (Some b)"
  by (simp add: decode_bool_def bool_text_def is_null_def peek_def json_space_def)

lemma nat_digits_hd: "is_digit (hd (nat_digits n))"
  using nat_digits_digits [of "hd (nat_digits n)" n] by simp

lemma peek_nat_digits [simp]: "peek (nat_digits n) = nat_digits n"
  using nat_digits_hd [of n] is_digit_not_structural(1)
  by (cases "nat_digits n") (auto simp: peek_def)

lemma peek_Itoa [simp]: "peek (Itoa i) = Itoa i"
  by (simp add: Itoa_def) (simp add: peek_def json_space_def)

lemma not_null_digits [simp]: "nat_digits n \<noteq> ''null''" "Itoa i \<noteq> ''null''"
  using nat_digits_hd [of n] nat_digits_hd [of "nat i"]
  by (auto simp: Itoa_def is_digit_def dest: arg_cong [where f = hd])

lemma decode_int_Itoa [simp]: "int64_range i \<Longrightarrow> decode_int (Itoa i) = Some (Some i)"
proof -
  assume r: "int64_range i"
  have "Itoa i \<noteq> []" "hd (Itoa i) = CHR ''-'' \<or> is_digit (hd (Itoa i))"
    using nat_digits_hd [of "nat i"] by (auto simp: Itoa_def)
  then obtain c cs where "Itoa i = c # cs" "c = CHR ''-'' \<or> is_digit c"
    by (cases "Itoa i") auto
  with ParseInt_Itoa [OF r] peek_Itoa [of i] not_null_digits(2) [of i] show ?thesis
    by (auto simp: decode_int_def is_null_def)
qed

lemma decode_uint_marshal [simp]:
  fixes w :: "'w::len word"
  assumes "LENGTH('w) \<le> 64"
  shows "decode_uint (marshal_uint w) = Some (Some w)"
proof -
  have lt: "unat w < 2 ^ LENGTH('w)" by simp
  also have "(2::nat) ^ LENGTH('w) \<le> 2 ^ 64" using assms by (intro power_increasing) simp_all
  finally have "ParseUint 64 (nat_digits (unat w)) = (unat w, None)" by (rule ParseUint_nat_digits)
  with lt nat_digits_hd [of "unat w"] show ?thesis
    by (auto simp: decode_uint_def decode_nat_def marshal_uint_def is_null_def split: list.splits)
qed

lemma value_text_bool_text [simp]: "value_text (bool_text b)"
  by (simp add: bool_text_def)

lemma value_text_marshal_uint [simp]: "value_text (marshal_uint w)"
  by (simp add: marshal_uint_def)

lemma json_plain_simps [simp]:
  "json_plain []"
  "json_plain (c # cs) \<longleftrightarrow> 32 \<le> byte c \<and> byte c < 0x80 \<and> c \<noteq> CHR 0x22 \<and> c \<noteq> CHR 0x5C \<and> json_plain cs"
  by (auto simp: json_plain_def)

text \<open>An object of good members with known, distinct keys is decoded by storing its members.\<close>

lemma Decode_object_text:
  assumes "ms \<noteq> []" "list_all good_member ms" "fresh_keys [] (map fst ms)"
    and "length (object_text ms) \<le> maxJSONLine" and "store_members ms zero_wire = Some w"
  shows "Decode (object_text ms) = validate (map fst ms) w"
proof -
  have "peek (object_text ms) = CHR ''{'' # (members_text ms @ ''}'')"
    by (simp add: object_text_def)
  then have "scanTopLevelJSON (object_text ms) = (False, map fst ms)"
    using scanTopLevelJSON_object [OF _ decode_object_text [OF assms(1,2)]] assms(3) by simp
  moreover have "decode_wire (object_text ms) = Some (w, [])"
    using read_value_object [of ms "[]"] decode_object_text assms by (simp add: decode_wire_def)
  moreover have "object_text ms \<noteq> []" by (simp add: object_text_def)
  ultimately show ?thesis
    using assms(4) by (simp add: Decode_def json_More_def peek_def)
qed

lemma WindowRef_eta [simp]:
  "\<lparr>DisplayGen = DisplayGen w, ObserveGen = ObserveGen w, XID = XID w,
    ExpectedClass = ExpectedClass w, ExpectedPID = ExpectedPID w\<rparr> = w"
  by (cases w) simp

lemma good_request_members:
  assumes "json_plain (Key r)" "json_plain (ExpectedClass (Window r))" "valid_request r"
  shows "list_all good_member (request_members r)" "request_members r \<noteq> []"
    "fresh_keys [] (map fst (request_members r))"
  using assms
  by (auto simp: good_member_def window_ref_members_def fresh_keys_def knownWireKeys_def
        valid_request.simps split: Op.splits)

lemma Decode_text:
  assumes "valid_request r" "json_plain (Key r)" "json_plain (ExpectedClass (Window r))"
    and "length (request_text r) \<le> maxJSONLine"
  shows "Decode (request_text r) = (r, submitted)"
proof -
  have "\<exists>w. store_members (request_members r) zero_wire = Some w
      \<and> validate (map fst (request_members r)) w = (r, submitted)"
  proof (cases "Op r")
    case OpMove
    with assms(1) show ?thesis
      by (auto simp: valid_request.simps store_member_def zero_wire_def validate_def Op_of_def extraSeen_def)
  qed (use assms in \<open>auto simp: valid_request.simps store_member_def zero_wire_def validate_def Op_of_def
       extraSeen_def window_ref_members_def windowFromWire_def windowKeys_def ContainsAny_def list_ex_iff\<close>)
  then show ?thesis
    using Decode_object_text good_request_members assms by (metis request_text_def)
qed


text \<open>Two request lines, for use on concrete inputs.\<close>

definition inspect_line :: string where "inspect_line = request_text (zero_Request\<lparr>Op := OpInspect\<rparr>)"

definition button_down :: Request where
  "button_down = zero_Request\<lparr>Op := OpButton, Button := 1, Press := True\<rparr>"

definition button_line :: string where "button_line = request_text button_down"

lemma request_line_length:
  "length inspect_line \<le> maxJSONLine" "length button_line \<le> maxJSONLine"
  by (simp_all add: inspect_line_def button_line_def button_down_def zero_Request_def request_text_def
      object_text_def member_text_def quote_lit_def bool_text_def marshal_uint_def nat_digits.simps maxJSONLine_def)

lemma valid_lines:
  "valid_request (zero_Request\<lparr>Op := OpInspect\<rparr>)" "valid_request button_down"
  by (simp_all add: valid_request.simps button_down_def zero_Request_def)

lemma Decode_lines:
  "Decode inspect_line = (zero_Request\<lparr>Op := OpInspect\<rparr>, submitted)"
  "Decode button_line = (button_down, submitted)"
  unfolding inspect_line_def button_line_def
  by (rule Decode_text; use request_line_length valid_lines in
      \<open>simp add: inspect_line_def button_line_def button_down_def zero_Request_def zero_WindowRef_def\<close>)+


theorem Decode_sound_witness:
  "Decode inspect_line = (zero_Request\<lparr>Op := OpInspect\<rparr>, submitted) \<and> valid_request (zero_Request\<lparr>Op := OpInspect\<rparr>)"
  using Decode_sound [OF Decode_lines(1)] Decode_lines(1)
  by (auto simp: submitted_def invalidRequest_def notSubmitted_def outcome_of_def)

theorem Decode_strict_witness:
  "\<exists>ms. decode_object (TrimSpace button_line) = Some ms \<and> set (map fst ms) \<subseteq> {''op'', ''button'', ''press''}"
  using Decode_strict [OF Decode_lines(2)] by (auto simp: button_down_def)

end
