(* ===== verification/Backend.thy ===== *)
theory Backend
  imports DecodeSpec
begin

text \<open>
  internal/vnext/backend.go and ewmh.go: the interface of the X-facing actuator as a record of
  operations on a backend state, the protocol constants, and the contract the request path
  relies on, as a locale over the input events a backend submits.
\<close>

section \<open>The interface\<close>

record 's Backend =
  KeycodeFor :: "string \<Rightarrow> 's \<Rightarrow> go_uint \<times> 's"
  WarpMouse :: "go_int \<Rightarrow> go_int \<Rightarrow> 's \<Rightarrow> go_error option \<times> 's"
  SendKey :: "go_uint \<Rightarrow> bool \<Rightarrow> 's \<Rightarrow> go_error option \<times> 's"
  SendButton :: "go_uint \<Rightarrow> bool \<Rightarrow> 's \<Rightarrow> go_error option \<times> 's"
  ScreenGeometry :: "'s \<Rightarrow> (go_error + go_int \<times> go_int) \<times> 's"
  ManagedClients :: "'s \<Rightarrow> (go_error + WindowInfo list) \<times> 's"
  Revalidate :: "WindowRef \<Rightarrow> 's \<Rightarrow> go_error option \<times> 's"
  ActivateAlwaysBoth :: "WindowRef \<Rightarrow> 's \<Rightarrow> go_error option \<times> 's"
  SetFullscreen :: "WindowRef \<Rightarrow> bool \<Rightarrow> 's \<Rightarrow> go_error option \<times> 's"
  ActiveWindow :: "'s \<Rightarrow> (go_error + go_uint32) \<times> 's"

section \<open>EWMH constants\<close>

definition SubstructureNotifyMask :: int where "SubstructureNotifyMask = 2 ^ 19"
definition SubstructureRedirectMask :: int where "SubstructureRedirectMask = 2 ^ 20"
definition ActivateEventMask :: int where
  "ActivateEventMask = or SubstructureRedirectMask SubstructureNotifyMask"
definition NetActiveWindowSource :: int where "NetActiveWindowSource = 2"
definition RevertToParent :: int where "RevertToParent = 2"
definition NetActiveWindowAtom :: string where "NetActiveWindowAtom = ''_NET_ACTIVE_WINDOW''"
definition NetWMStateAtom :: string where "NetWMStateAtom = ''_NET_WM_STATE''"
definition NetWMStateFullscreenAtom :: string where
  "NetWMStateFullscreenAtom = ''_NET_WM_STATE_FULLSCREEN''"
definition NetClientListAtom :: string where "NetClientListAtom = ''_NET_CLIENT_LIST''"
definition NetSupportedAtom :: string where "NetSupportedAtom = ''_NET_SUPPORTED''"
definition NetWMNameAtom :: string where "NetWMNameAtom = ''_NET_WM_NAME''"
definition NetWMPIDAtom :: string where "NetWMPIDAtom = ''_NET_WM_PID''"
definition NetWMStateAdd :: int where "NetWMStateAdd = 1"
definition NetWMStateRemove :: int where "NetWMStateRemove = 0"

section \<open>The contract\<close>

text \<open>The input a backend can submit to the display.\<close>

datatype input_event =
    EvWarp go_int go_int
  | EvKey go_uint bool
  | EvButton go_uint bool
  | EvActivate go_uint32
  | EvFocus go_uint32
  | EvFullscreen go_uint32 bool

text \<open>
  \<open>emits s es s'\<close> says that between the states \<open>s\<close> and \<open>s'\<close> exactly the events \<open>es\<close> were
  submitted. Queries submit nothing; an input operation submits its event when it reports
  success and nothing when it reports an error, except that activation, which sends two
  requests, may fail between them; and only \<open>Revalidate\<close> reports a reference mismatch.
\<close>

locale backend_contract =
  fixes b :: "'s Backend"
    and emits :: "'s \<Rightarrow> input_event list \<Rightarrow> 's \<Rightarrow> bool"
  assumes emits_refl [emit_intros]: "emits s [] s"
    and emits_trans: "emits s es s' \<Longrightarrow> emits s' fs s'' \<Longrightarrow> emits s (es @ fs) s''"
    and KeycodeFor_emits: "KeycodeFor b n s = (kc, s') \<Longrightarrow> emits s [] s'"
    and WarpMouse_emits:
      "WarpMouse b x y s = (r, s') \<Longrightarrow> emits s (if r = None then [EvWarp x y] else []) s'"
    and SendKey_emits:
      "SendKey b kc p s = (r, s') \<Longrightarrow> emits s (if r = None then [EvKey kc p] else []) s'"
    and SendButton_emits:
      "SendButton b btn p s = (r, s') \<Longrightarrow> emits s (if r = None then [EvButton btn p] else []) s'"
    and ScreenGeometry_emits: "ScreenGeometry b s = (g, s') \<Longrightarrow> emits s [] s'"
    and ManagedClients_emits: "ManagedClients b s = (l, s') \<Longrightarrow> emits s [] s'"
    and Revalidate_emits: "Revalidate b ref s = (r, s') \<Longrightarrow> emits s [] s'"
    and ActivateAlwaysBoth_emits:
      "ActivateAlwaysBoth b ref s = (None, s') \<Longrightarrow> emits s [EvActivate (XID ref), EvFocus (XID ref)] s'"
    and ActivateAlwaysBoth_fails:
      "ActivateAlwaysBoth b ref s = (Some e, s') \<Longrightarrow> emits s [] s' \<or> emits s [EvActivate (XID ref)] s'"
    and SetFullscreen_emits:
      "SetFullscreen b ref a s = (r, s') \<Longrightarrow> emits s (if r = None then [EvFullscreen (XID ref) a] else []) s'"
    and ActiveWindow_emits: "ActiveWindow b s = (aw, s') \<Longrightarrow> emits s [] s'"
    and WarpMouse_error: "WarpMouse b x y s = (Some e, s') \<Longrightarrow> \<not> errors_Is e ErrRefMismatch"
    and SendKey_error: "SendKey b kc p s = (Some e, s') \<Longrightarrow> \<not> errors_Is e ErrRefMismatch"
    and SendButton_error: "SendButton b btn p s = (Some e, s') \<Longrightarrow> \<not> errors_Is e ErrRefMismatch"
    and ScreenGeometry_error: "ScreenGeometry b s = (Inl e, s') \<Longrightarrow> \<not> errors_Is e ErrRefMismatch"
    and ManagedClients_error: "ManagedClients b s = (Inl e, s') \<Longrightarrow> \<not> errors_Is e ErrRefMismatch"
    and ActivateAlwaysBoth_error:
      "ActivateAlwaysBoth b ref s = (Some e, s') \<Longrightarrow> \<not> errors_Is e ErrRefMismatch"
    and SetFullscreen_error: "SetFullscreen b ref a s = (Some e, s') \<Longrightarrow> \<not> errors_Is e ErrRefMismatch"
    and ActiveWindow_error: "ActiveWindow b s = (Inl e, s') \<Longrightarrow> \<not> errors_Is e ErrRefMismatch"
begin

lemma emits_left: "emits s [] s' \<Longrightarrow> emits s' fs s'' \<Longrightarrow> emits s fs s''"
  using emits_trans [of s "[]"] by simp

lemma emits_right: "emits s es s' \<Longrightarrow> emits s' [] s'' \<Longrightarrow> emits s es s''"
  using emits_trans [of s es s' "[]"] by simp

lemmas query_emits = KeycodeFor_emits ScreenGeometry_emits ManagedClients_emits Revalidate_emits
  ActiveWindow_emits

lemmas not_mismatch = WarpMouse_error SendKey_error SendButton_error ScreenGeometry_error
  ManagedClients_error ActivateAlwaysBoth_error SetFullscreen_error ActiveWindow_error

end

section \<open>Holds\<close>

text \<open>The keys and buttons a client holds down, and how an event changes them.\<close>

record holds =
  down_keys :: "go_uint set"
  down_buttons :: "go_uint set"

definition no_holds :: holds where "no_holds = \<lparr>down_keys = {}, down_buttons = {}\<rparr>"

fun apply_event :: "input_event \<Rightarrow> holds \<Rightarrow> holds" where
  "apply_event (EvKey kc p) h =
     h\<lparr>down_keys := (if p then insert kc (down_keys h) else down_keys h - {kc})\<rparr>"
| "apply_event (EvButton btn p) h =
     h\<lparr>down_buttons := (if p then insert btn (down_buttons h) else down_buttons h - {btn})\<rparr>"
| "apply_event _ h = h"

definition apply_events :: "input_event list \<Rightarrow> holds \<Rightarrow> holds" where
  "apply_events es h = fold apply_event es h"

lemma apply_events_simps [simp]:
  "apply_events [] h = h"
  "apply_events (e # es) h = apply_events es (apply_event e h)"
  "apply_events (es @ fs) h = apply_events fs (apply_events es h)"
  by (simp_all add: apply_events_def)

end
