(* ===== verification/VnextSession.thy ===== *)
theory VnextSession
  imports Backend
begin

text \<open>
  internal/vnext/session.go: the keys and buttons one destination client holds, and their
  release. The Go maps are association lists; \<open>Release\<close> ranges over them in the orders given
  by its first argument. A session is used by one goroutine, so its mutex has no counterpart.
\<close>

section \<open>State and operations\<close>

record Session =
  keys :: "(go_uint \<times> bool) list"
  buttons :: "(go_uint \<times> bool) list"

definition NewSession :: Session where
  "NewSession = \<lparr>keys = [], buttons = []\<rparr>"

definition noteKey :: "go_uint \<Rightarrow> bool \<Rightarrow> Session \<Rightarrow> Session" where
  "noteKey kc press s =
     (if press then s\<lparr>keys := AList.update kc True (keys s)\<rparr>
      else s\<lparr>keys := AList.delete kc (keys s)\<rparr>)"

definition noteButton :: "go_uint \<Rightarrow> bool \<Rightarrow> Session \<Rightarrow> Session" where
  "noteButton btn press s =
     (if press then s\<lparr>buttons := AList.update btn True (buttons s)\<rparr>
      else s\<lparr>buttons := AList.delete btn (buttons s)\<rparr>)"

text \<open>Reading a missing map key yields \<open>false\<close>.\<close>

definition KeyDown :: "Session \<Rightarrow> go_uint \<Rightarrow> bool" where
  "KeyDown s kc = (map_of (keys s) kc = Some True)"

definition ButtonDown :: "Session \<Rightarrow> go_uint \<Rightarrow> bool" where
  "ButtonDown s btn = (map_of (buttons s) btn = Some True)"

definition mapBackendError :: "go_error option \<Rightarrow> Outcome" where
  "mapBackendError err =
     (case err of
        None \<Rightarrow> outcome_of Unavailable
      | Some e \<Rightarrow> if errors_Is e ErrRefMismatch then conflict
                  else (outcome_of Unavailable)\<lparr>Err := Some e\<rparr>)"

text \<open>The two release loops; \<open>first\<close> is the first error.\<close>

fun release_keys :: "'s Backend \<Rightarrow> go_uint list \<Rightarrow> go_error option \<Rightarrow> Session \<Rightarrow> 's
    \<Rightarrow> go_error option \<times> Session \<times> 's" where
  "release_keys b [] first ss s = (first, ss, s)"
| "release_keys b (kc # kcs) first ss s =
     (case SendKey b kc False s of
        (Some e, s') \<Rightarrow> release_keys b kcs (if first = None then Some e else first) ss s'
      | (None, s') \<Rightarrow> release_keys b kcs first (ss\<lparr>keys := AList.delete kc (keys ss)\<rparr>) s')"

fun release_buttons :: "'s Backend \<Rightarrow> go_uint list \<Rightarrow> go_error option \<Rightarrow> Session \<Rightarrow> 's
    \<Rightarrow> go_error option \<times> Session \<times> 's" where
  "release_buttons b [] first ss s = (first, ss, s)"
| "release_buttons b (btn # btns) first ss s =
     (case SendButton b btn False s of
        (Some e, s') \<Rightarrow> release_buttons b btns (if first = None then Some e else first) ss s'
      | (None, s') \<Rightarrow>
          release_buttons b btns first (ss\<lparr>buttons := AList.delete btn (buttons ss)\<rparr>) s')"

type_synonym orders = "map_order \<times> map_order"

abbreviation go_orders :: "orders \<Rightarrow> bool" where
  "go_orders ords \<equiv> go_order (fst ords) \<and> go_order (snd ords)"

definition held :: "(go_uint \<times> bool) list \<Rightarrow> go_uint list" where
  "held m = map fst (filter snd m)"

text \<open>A nil session is \<open>None\<close>, a nil backend is \<open>None\<close>.\<close>

definition Release :: "orders \<Rightarrow> Session option \<Rightarrow> 's Backend option \<Rightarrow> 's
    \<Rightarrow> Outcome \<times> Session option \<times> 's" where
  "Release ords sess bo s =
     (case sess of
        None \<Rightarrow> (invalidRequest, None, s)
      | Some ss \<Rightarrow>
          (case bo of
             None \<Rightarrow> (outcome_of Unavailable, Some ss, s)
           | Some b \<Rightarrow>
               let ks = fst ords (held (keys ss));
                   bs = snd ords (held (buttons ss));
                   (first1, ss1, s1) = release_keys b ks None ss s;
                   (first2, ss2, s2) = release_buttons b bs first1 ss1 s1
               in (if first2 \<noteq> None then mapBackendError first2 else submitted, Some ss2, s2)))"

section \<open>Invariant and abstraction\<close>

text \<open>Map keys are distinct, and only \<open>true\<close> is ever stored.\<close>

definition session_inv :: "Session \<Rightarrow> bool" where
  "session_inv ss \<longleftrightarrow> distinct (map fst (keys ss)) \<and> distinct (map fst (buttons ss))
     \<and> (\<forall>v \<in> snd ` set (keys ss). v) \<and> (\<forall>v \<in> snd ` set (buttons ss). v)"

definition holds_of :: "Session \<Rightarrow> holds" where
  "holds_of ss = \<lparr>down_keys = {kc. KeyDown ss kc}, down_buttons = {btn. ButtonDown ss btn}\<rparr>"

lemma session_inv_New [simp]: "session_inv NewSession"
  by (simp add: session_inv_def NewSession_def)

lemma holds_New [simp]: "holds_of NewSession = no_holds"
  by (simp add: holds_of_def no_holds_def NewSession_def KeyDown_def ButtonDown_def)

lemma AList_update_vals: "snd ` set (AList.update k v m) \<subseteq> insert v (snd ` set m)"
  by (induction m) auto

lemma AList_delete_vals: "snd ` set (AList.delete k m) \<subseteq> snd ` set m"
  by (induction m) auto

lemma session_inv_noteKey [simp]: "session_inv ss \<Longrightarrow> session_inv (noteKey kc p ss)"
  using AList_update_vals [of kc True "keys ss"] AList_delete_vals [of kc "keys ss"]
  by (auto simp: session_inv_def noteKey_def distinct_update distinct_delete subset_iff)

lemma session_inv_noteButton [simp]: "session_inv ss \<Longrightarrow> session_inv (noteButton btn p ss)"
  using AList_update_vals [of btn True "buttons ss"] AList_delete_vals [of btn "buttons ss"]
  by (auto simp: session_inv_def noteButton_def distinct_update distinct_delete subset_iff)

lemma holds_noteKey [simp]: "holds_of (noteKey kc p ss) = apply_event (EvKey kc p) (holds_of ss)"
  by (auto simp: noteKey_def holds_of_def KeyDown_def ButtonDown_def update_conv' delete_conv')

lemma holds_noteButton [simp]:
  "holds_of (noteButton btn p ss) = apply_event (EvButton btn p) (holds_of ss)"
  by (auto simp: noteButton_def holds_of_def KeyDown_def ButtonDown_def update_conv' delete_conv')

lemma delete_key_note: "ss\<lparr>keys := AList.delete kc (keys ss)\<rparr> = noteKey kc False ss"
  by (simp add: noteKey_def)

lemma delete_button_note: "ss\<lparr>buttons := AList.delete btn (buttons ss)\<rparr> = noteButton btn False ss"
  by (simp add: noteButton_def)

lemma held_distinct: "distinct (map fst m) \<Longrightarrow> distinct (held m)"
  unfolding held_def by (metis distinct_map_filter)

lemma set_held: "distinct (map fst m) \<Longrightarrow> set (held m) = {k. map_of m k = Some True}"
  by (auto simp: held_def image_iff)

lemma set_held_keys: "session_inv ss \<Longrightarrow> set (held (keys ss)) = down_keys (holds_of ss)"
  by (simp add: set_held session_inv_def holds_of_def KeyDown_def)

lemma set_held_buttons: "session_inv ss \<Longrightarrow> set (held (buttons ss)) = down_buttons (holds_of ss)"
  by (simp add: set_held session_inv_def holds_of_def ButtonDown_def)

section \<open>Release against a backend that keeps the contract\<close>

definition key_ups :: "go_uint list \<Rightarrow> input_event list" where
  "key_ups ks = map (\<lambda>kc. EvKey kc False) ks"

definition button_ups :: "go_uint list \<Rightarrow> input_event list" where
  "button_ups bs = map (\<lambda>btn. EvButton btn False) bs"

lemma ups_simps [simp]:
  "key_ups [] = []" "key_ups (kc # ks) = EvKey kc False # key_ups ks"
  "button_ups [] = []" "button_ups (btn # bs) = EvButton btn False # button_ups bs"
  by (simp_all add: key_ups_def button_ups_def)

lemma apply_key_ups: "apply_events (key_ups ks) h = h\<lparr>down_keys := down_keys h - set ks\<rparr>"
  by (induction ks arbitrary: h) (simp_all add: Diff_insert2 [of _ _ "set _"])

lemma apply_button_ups: "apply_events (button_ups bs) h = h\<lparr>down_buttons := down_buttons h - set bs\<rparr>"
  by (induction bs arbitrary: h) (simp_all add: Diff_insert2 [of _ _ "set _"])

definition no_mismatch :: "go_error option \<Rightarrow> bool" where
  "no_mismatch err \<longleftrightarrow> (\<forall>e. err = Some e \<longrightarrow> \<not> errors_Is e ErrRefMismatch)"

lemma Code_mapBackendError: "no_mismatch err \<Longrightarrow> Code (mapBackendError err) = Unavailable"
  by (auto simp: mapBackendError_def no_mismatch_def split: option.splits)

context backend_contract
begin

text \<open>Each loop submits an up for the keys it reports as released, and forgets exactly those.\<close>

lemma release_keys_spec:
  assumes "release_keys b ks first ss s = (first', ss', s')" "session_inv ss" "no_mismatch first"
    and "distinct ks"
  shows "\<exists>ups. set ups \<subseteq> set ks \<and> distinct ups \<and> emits s (key_ups ups) s' \<and> session_inv ss'
      \<and> no_mismatch first' \<and> holds_of ss' = apply_events (key_ups ups) (holds_of ss)
      \<and> (first' = None \<longrightarrow> first = None \<and> ups = ks)"
  using assms
proof (induction ks arbitrary: first ss s)
  case Nil
  then show ?case using emits_refl by (intro exI [of _ "[]"]) simp
next
  case (Cons kc kcs)
  obtain r s1 where send: "SendKey b kc False s = (r, s1)" by (cases "SendKey b kc False s")
  show ?case
  proof (cases r)
    case None
    with send have "emits s [EvKey kc False] s1" using SendKey_emits by fastforce
    moreover from Cons.prems None send have
      "release_keys b kcs first (noteKey kc False ss) s1 = (first', ss', s')" by (simp add: delete_key_note)
    then obtain ups where "set ups \<subseteq> set kcs" "distinct ups" "emits s1 (key_ups ups) s'" "session_inv ss'"
      "no_mismatch first'" "holds_of ss' = apply_events (key_ups ups) (holds_of (noteKey kc False ss))"
      "first' = None \<longrightarrow> first = None \<and> ups = kcs"
      using Cons.IH [of first "noteKey kc False ss" s1] Cons.prems by auto
    ultimately show ?thesis
      using Cons.prems(4) emits_trans [of s "[EvKey kc False]" s1 "key_ups ups" s']
      by (intro exI [of _ "kc # ups"]) auto
  next
    case (Some e)
    with send have "emits s [] s1" "\<not> errors_Is e ErrRefMismatch"
      using SendKey_emits SendKey_error by fastforce+
    moreover from this have nm: "no_mismatch (if first = None then Some e else first)"
      using Cons.prems(3) by (simp add: no_mismatch_def)
    moreover from Cons.prems(1) Some send have
      "release_keys b kcs (if first = None then Some e else first) ss s1 = (first', ss', s')" by simp
    then obtain ups where "set ups \<subseteq> set kcs" "distinct ups" "emits s1 (key_ups ups) s'" "session_inv ss'"
      "no_mismatch first'" "holds_of ss' = apply_events (key_ups ups) (holds_of ss)" "first' \<noteq> None"
      using Cons.IH [OF _ Cons.prems(2) nm] Cons.prems(4) by (auto split: if_splits)
    ultimately show ?thesis using emits_left by (intro exI [of _ ups]) auto
  qed
qed

lemma release_buttons_spec:
  assumes "release_buttons b ks first ss s = (first', ss', s')" "session_inv ss" "no_mismatch first"
    and "distinct ks"
  shows "\<exists>ups. set ups \<subseteq> set ks \<and> distinct ups \<and> emits s (button_ups ups) s' \<and> session_inv ss'
      \<and> no_mismatch first' \<and> holds_of ss' = apply_events (button_ups ups) (holds_of ss)
      \<and> (first' = None \<longrightarrow> first = None \<and> ups = ks)"
  using assms
proof (induction ks arbitrary: first ss s)
  case Nil
  then show ?case using emits_refl by (intro exI [of _ "[]"]) simp
next
  case (Cons btn btns)
  obtain r s1 where send: "SendButton b btn False s = (r, s1)" by (cases "SendButton b btn False s")
  show ?case
  proof (cases r)
    case None
    with send have "emits s [EvButton btn False] s1" using SendButton_emits by fastforce
    moreover from Cons.prems None send have
      "release_buttons b btns first (noteButton btn False ss) s1 = (first', ss', s')" by (simp add: delete_button_note)
    then obtain ups where "set ups \<subseteq> set btns" "distinct ups" "emits s1 (button_ups ups) s'" "session_inv ss'"
      "no_mismatch first'" "holds_of ss' = apply_events (button_ups ups) (holds_of (noteButton btn False ss))"
      "first' = None \<longrightarrow> first = None \<and> ups = btns"
      using Cons.IH [of first "noteButton btn False ss" s1] Cons.prems by auto
    ultimately show ?thesis
      using Cons.prems(4) emits_trans [of s "[EvButton btn False]" s1 "button_ups ups" s']
      by (intro exI [of _ "btn # ups"]) auto
  next
    case (Some e)
    with send have "emits s [] s1" "\<not> errors_Is e ErrRefMismatch"
      using SendButton_emits SendButton_error by fastforce+
    moreover from this have nm: "no_mismatch (if first = None then Some e else first)"
      using Cons.prems(3) by (simp add: no_mismatch_def)
    moreover from Cons.prems(1) Some send have
      "release_buttons b btns (if first = None then Some e else first) ss s1 = (first', ss', s')" by simp
    then obtain ups where "set ups \<subseteq> set btns" "distinct ups" "emits s1 (button_ups ups) s'" "session_inv ss'"
      "no_mismatch first'" "holds_of ss' = apply_events (button_ups ups) (holds_of ss)" "first' \<noteq> None"
      using Cons.IH [OF _ Cons.prems(2) nm] Cons.prems(4) by (auto split: if_splits)
    ultimately show ?thesis using emits_left by (intro exI [of _ ups]) auto
  qed
qed

lemma Release_spec:
  assumes "Release ords (Some ss) (Some b) s = (out, sess', s')" "go_orders ords" "session_inv ss"
  shows "\<exists>ss' ks bs. sess' = Some ss' \<and> session_inv ss' \<and> distinct ks \<and> distinct bs
      \<and> set ks \<subseteq> down_keys (holds_of ss) \<and> set bs \<subseteq> down_buttons (holds_of ss)
      \<and> emits s (key_ups ks @ button_ups bs) s'
      \<and> holds_of ss' = apply_events (key_ups ks @ button_ups bs) (holds_of ss)
      \<and> (Code out = Submitted \<and> holds_of ss' = no_holds \<or> Code out = Unavailable)"
proof -
  let ?ks = "fst ords (held (keys ss))" and ?bs = "snd ords (held (buttons ss))"
  obtain f1 ss1 s1 where r1: "release_keys b ?ks None ss s = (f1, ss1, s1)" by (metis prod_cases3)
  obtain f2 ss2 s2 where r2: "release_buttons b ?bs f1 ss1 s1 = (f2, ss2, s2)" by (metis prod_cases3)
  have out: "out = (if f2 \<noteq> None then mapBackendError f2 else submitted)" "sess' = Some ss2" "s' = s2"
    using assms(1) r1 r2 by (auto simp: Release_def)
  have sets: "set ?ks = down_keys (holds_of ss)" "set ?bs = down_buttons (holds_of ss)"
    using assms(2,3) by (simp_all add: go_order_set set_held_keys set_held_buttons)
  have dis: "distinct ?ks" "distinct ?bs"
    using assms(2,3) by (simp_all add: go_order_distinct held_distinct session_inv_def)
  from release_keys_spec [OF r1 assms(3) _ dis(1)] obtain ks where
    ks: "set ks \<subseteq> set ?ks" "distinct ks" "emits s (key_ups ks) s1" "session_inv ss1" "no_mismatch f1"
    "holds_of ss1 = apply_events (key_ups ks) (holds_of ss)" "f1 = None \<longrightarrow> ks = ?ks"
    by (auto simp: no_mismatch_def)
  from release_buttons_spec [OF r2 ks(4,5) dis(2)] obtain bs where
    bs: "set bs \<subseteq> set ?bs" "distinct bs" "emits s1 (button_ups bs) s2" "session_inv ss2" "no_mismatch f2"
    "holds_of ss2 = apply_events (button_ups bs) (holds_of ss1)" "f2 = None \<longrightarrow> f1 = None \<and> bs = ?bs"
    by auto
  have "f2 = None \<Longrightarrow> holds_of ss2 = no_holds"
    using ks bs sets by (auto simp: apply_key_ups apply_button_ups no_holds_def)
  moreover have "f2 \<noteq> None \<Longrightarrow> Code out = Unavailable"
    using out(1) bs(5) by (auto simp: Code_mapBackendError)
  ultimately show ?thesis
    using ks bs sets out emits_trans [OF ks(3) bs(3)]
    by (intro exI [of _ ss2] exI [of _ ks] exI [of _ bs]) auto
qed

end

end
