(* ===== verification/VnextDispatch.thy ===== *)
theory VnextDispatch
  imports VnextSession
begin

text \<open>
  internal/vnext/dispatch.go: \<open>Dispatch\<close> runs a validated request against the backend and the
  client's session, \<open>HandleLine\<close> decodes a line first. The lemmas of the locale say, for any
  backend that keeps its contract, which events each request submits on each outcome and that
  the session holds exactly what those events leave pressed.
\<close>

section \<open>Operations\<close>

definition Dispatch :: "orders \<Rightarrow> Request \<Rightarrow> Session option \<Rightarrow> 's Backend option \<Rightarrow> 's
    \<Rightarrow> Outcome \<times> Session option \<times> 's" where
  "Dispatch ords req sess bo s =
     (case bo of
        None \<Rightarrow> (outcome_of Unavailable, sess, s)
      | Some b \<Rightarrow>
          (case Op req of
             OpMove \<Rightarrow>
               (case WarpMouse b (X req) (Y req) s of
                  (Some e, s') \<Rightarrow> (mapBackendError (Some e), sess, s')
                | (None, s') \<Rightarrow> (submitted, sess, s'))
           | OpKey \<Rightarrow>
               (case KeycodeFor b (Key req) s of
                  (kc, s1) \<Rightarrow>
                    if kc = 0 then (invalidRequest, sess, s1)
                    else (case SendKey b kc (Press req) s1 of
                            (Some e, s') \<Rightarrow> (mapBackendError (Some e), sess, s')
                          | (None, s') \<Rightarrow> (submitted, map_option (noteKey kc (Press req)) sess, s')))
           | OpButton \<Rightarrow>
               (case SendButton b (Button req) (Press req) s of
                  (Some e, s') \<Rightarrow> (mapBackendError (Some e), sess, s')
                | (None, s') \<Rightarrow>
                    (submitted, map_option (noteButton (Button req) (Press req)) sess, s'))
           | OpInspect \<Rightarrow>
               (case ScreenGeometry b s of
                  (Inl e, s1) \<Rightarrow> (mapBackendError (Some e), sess, s1)
                | (Inr (width, height), s1) \<Rightarrow>
                    (case ManagedClients b s1 of
                       (Inl e, s') \<Rightarrow> (mapBackendError (Some e), sess, s')
                     | (Inr ws, s') \<Rightarrow>
                         (submitted\<lparr>Windows := ws, ScreenWidth := width, ScreenHeight := height\<rparr>,
                          sess, s')))
           | OpActivate \<Rightarrow>
               (case Revalidate b (Window req) s of
                  (Some e, s1) \<Rightarrow> (mapBackendError (Some e), sess, s1)
                | (None, s1) \<Rightarrow>
                    (case ActivateAlwaysBoth b (Window req) s1 of
                       (Some e, s2) \<Rightarrow> (mapBackendError (Some e), sess, s2)
                     | (None, s2) \<Rightarrow>
                         (case ActiveWindow b s2 of
                            (Inl e, s') \<Rightarrow> (mapBackendError (Some e), sess, s')
                          | (Inr obs, s') \<Rightarrow>
                              (submitted\<lparr>RequestedActive := XID (Window req), ObservedActive := obs\<rparr>,
                               sess, s'))))
           | OpFullscreen \<Rightarrow>
               (case Revalidate b (Window req) s of
                  (Some e, s1) \<Rightarrow> (mapBackendError (Some e), sess, s1)
                | (None, s1) \<Rightarrow>
                    (case SetFullscreen b (Window req) (AddState req) s1 of
                       (Some e, s') \<Rightarrow> (mapBackendError (Some e), sess, s')
                     | (None, s') \<Rightarrow> (submitted, sess, s')))
           | OpRelease \<Rightarrow>
               (case sess of
                  None \<Rightarrow> (invalidRequest, None, s)
                | Some ss \<Rightarrow> Release ords (Some ss) (Some b) s)
           | OpUnknown op \<Rightarrow> (notSubmitted, sess, s)))"

definition HandleLine :: "orders \<Rightarrow> string \<Rightarrow> Session option \<Rightarrow> 's Backend option \<Rightarrow> 's
    \<Rightarrow> Outcome \<times> Session option \<times> 's" where
  "HandleLine ords line sess bo s =
     (let (req, out) = Decode line in
      if Code out \<noteq> Submitted then (out, sess, s) else Dispatch ords req sess bo s)"

section \<open>What a request may submit\<close>

text \<open>The events of one request, by its operation and its outcome; \<open>h\<close> is what the client
  held before.\<close>

definition dispatch_events :: "Request \<Rightarrow> holds \<Rightarrow> Code \<Rightarrow> input_event list \<Rightarrow> bool" where
  "dispatch_events req h code es =
     (case Op req of
        OpMove \<Rightarrow> (code = Submitted \<and> es = [EvWarp (X req) (Y req)]) \<or> (code = Unavailable \<and> es = [])
      | OpKey \<Rightarrow> (code = Submitted \<and> (\<exists>kc. kc \<noteq> 0 \<and> es = [EvKey kc (Press req)]))
          \<or> ((code = InvalidRequest \<or> code = Unavailable) \<and> es = [])
      | OpButton \<Rightarrow> (code = Submitted \<and> es = [EvButton (Button req) (Press req)])
          \<or> (code = Unavailable \<and> es = [])
      | OpInspect \<Rightarrow> (code = Submitted \<or> code = Unavailable) \<and> es = []
      | OpActivate \<Rightarrow>
          (let x = XID (Window req) in
           (code = Submitted \<and> es = [EvActivate x, EvFocus x]) \<or> (code = Conflict \<and> es = [])
           \<or> (code = Unavailable \<and> es \<in> {[], [EvActivate x], [EvActivate x, EvFocus x]}))
      | OpFullscreen \<Rightarrow> (code = Submitted \<and> es = [EvFullscreen (XID (Window req)) (AddState req)])
          \<or> ((code = Conflict \<or> code = Unavailable) \<and> es = [])
      | OpRelease \<Rightarrow>
          (\<exists>ks bs. es = key_ups ks @ button_ups bs \<and> distinct ks \<and> distinct bs
             \<and> set ks \<subseteq> down_keys h \<and> set bs \<subseteq> down_buttons h
             \<and> (code = Submitted \<and> set ks = down_keys h \<and> set bs = down_buttons h \<or> code = Unavailable))
      | OpUnknown op \<Rightarrow> code = NotSubmitted \<and> es = [])"

lemma dispatch_events_rejected:
  "dispatch_events req h code es \<Longrightarrow> code \<in> {Conflict, InvalidRequest, NotSubmitted} \<Longrightarrow> es = []"
  by (auto simp: dispatch_events_def Let_def split: Op.splits)

lemma Code_update [simp]:
  "Code (o'\<lparr>Windows := ws\<rparr>) = Code o'" "Code (o'\<lparr>ScreenWidth := w\<rparr>) = Code o'"
  "Code (o'\<lparr>ScreenHeight := w\<rparr>) = Code o'" "Code (o'\<lparr>RequestedActive := x\<rparr>) = Code o'"
  "Code (o'\<lparr>ObservedActive := x\<rparr>) = Code o'"
  by simp_all

lemma holds_update_eq:
  "h\<lparr>down_keys := A, down_buttons := B\<rparr> = \<lparr>down_keys = C, down_buttons = D\<rparr> \<longleftrightarrow> A = C \<and> B = D"
  by (cases h) simp

lemma Code_mapBackendError_cases:
  "Code (mapBackendError (Some e)) = (if errors_Is e ErrRefMismatch then Conflict else Unavailable)"
  by (simp add: mapBackendError_def)

section \<open>Dispatch against a backend that keeps the contract\<close>

context backend_contract
begin

text \<open>What every request guarantees: the events submitted are those its outcome allows, and the
  session's holds are the old ones changed by those events.\<close>

definition dispatch_ok :: "Request \<Rightarrow> Session \<Rightarrow> 's \<Rightarrow> Outcome \<times> Session option \<times> 's \<Rightarrow> bool" where
  "dispatch_ok req ss s res \<longleftrightarrow>
     (\<exists>out ss' s' es. res = (out, Some ss', s') \<and> session_inv ss' \<and> emits s es s'
        \<and> holds_of ss' = apply_events es (holds_of ss) \<and> dispatch_events req (holds_of ss) (Code out) es)"

lemma dispatch_okI:
  "session_inv ss' \<Longrightarrow> emits s es s' \<Longrightarrow> holds_of ss' = apply_events es (holds_of ss) \<Longrightarrow>
   dispatch_events req (holds_of ss) (Code out) es \<Longrightarrow> dispatch_ok req ss s (out, Some ss', s')"
  unfolding dispatch_ok_def by blast

lemma dispatch_ok_quiet:
  "session_inv ss \<Longrightarrow> emits s [] s' \<Longrightarrow> dispatch_events req (holds_of ss) (Code out) [] \<Longrightarrow>
   dispatch_ok req ss s (out, Some ss, s')"
  by (rule dispatch_okI) simp_all

lemma Dispatch_move:
  assumes "Op req = OpMove" "session_inv ss"
  shows "dispatch_ok req ss s (Dispatch ords req (Some ss) (Some b) s)"
proof -
  obtain r s' where op: "WarpMouse b (X req) (Y req) s = (r, s')" by (cases "WarpMouse b (X req) (Y req) s")
  show ?thesis
    using WarpMouse_emits [OF op] WarpMouse_error [of "X req" "Y req" s _ s'] assms op
    by (cases r) (auto simp: Dispatch_def dispatch_events_def Code_mapBackendError_cases
        intro!: dispatch_okI)
qed

lemma Dispatch_key:
  assumes "Op req = OpKey" "session_inv ss"
  shows "dispatch_ok req ss s (Dispatch ords req (Some ss) (Some b) s)"
proof -
  obtain kc s1 where kc: "KeycodeFor b (Key req) s = (kc, s1)" by (cases "KeycodeFor b (Key req) s")
  obtain r s' where op: "SendKey b kc (Press req) s1 = (r, s')" by (cases "SendKey b kc (Press req) s1")
  show ?thesis
    using emits_left [OF KeycodeFor_emits [OF kc] SendKey_emits [OF op]] KeycodeFor_emits [OF kc]
      SendKey_error [of kc "Press req" s1 _ s'] assms kc op
    by (cases r) (auto simp: Dispatch_def dispatch_events_def Code_mapBackendError_cases
        intro!: dispatch_okI)
qed

lemma Dispatch_button:
  assumes "Op req = OpButton" "session_inv ss"
  shows "dispatch_ok req ss s (Dispatch ords req (Some ss) (Some b) s)"
proof -
  obtain r s' where op: "SendButton b (Button req) (Press req) s = (r, s')"
    by (cases "SendButton b (Button req) (Press req) s")
  show ?thesis
    using SendButton_emits [OF op] SendButton_error [of "Button req" "Press req" s _ s'] assms op
    by (cases r) (auto simp: Dispatch_def dispatch_events_def Code_mapBackendError_cases
        intro!: dispatch_okI)
qed

lemma Dispatch_inspect:
  assumes "Op req = OpInspect" "session_inv ss"
  shows "dispatch_ok req ss s (Dispatch ords req (Some ss) (Some b) s)"
proof -
  obtain g s1 where geo: "ScreenGeometry b s = (g, s1)" by (cases "ScreenGeometry b s")
  obtain l s2 where cl: "ManagedClients b s1 = (l, s2)" by (cases "ManagedClients b s1")
  show ?thesis
    using emits_left [OF ScreenGeometry_emits [OF geo] ManagedClients_emits [OF cl]]
      ScreenGeometry_emits [OF geo] ScreenGeometry_error [of s _ s1] ManagedClients_error [of s1 _ s2]
      assms geo cl
    by (cases g; cases l)
       (auto simp: Dispatch_def dispatch_events_def Code_mapBackendError_cases intro!: dispatch_ok_quiet)
qed

lemma Dispatch_fullscreen:
  assumes "Op req = OpFullscreen" "session_inv ss"
  shows "dispatch_ok req ss s (Dispatch ords req (Some ss) (Some b) s)"
proof -
  obtain v s1 where rv: "Revalidate b (Window req) s = (v, s1)" by (cases "Revalidate b (Window req) s")
  obtain r s2 where op: "SetFullscreen b (Window req) (AddState req) s1 = (r, s2)"
    by (cases "SetFullscreen b (Window req) (AddState req) s1")
  show ?thesis
    using emits_left [OF Revalidate_emits [OF rv] SetFullscreen_emits [OF op]] Revalidate_emits [OF rv]
      SetFullscreen_error [of "Window req" "AddState req" s1 _ s2] assms rv op
    by (cases v; cases r)
       (auto simp: Dispatch_def dispatch_events_def Code_mapBackendError_cases intro!: dispatch_okI)
qed

lemma Dispatch_activate:
  assumes "Op req = OpActivate" "session_inv ss"
  shows "dispatch_ok req ss s (Dispatch ords req (Some ss) (Some b) s)"
proof -
  let ?x = "XID (Window req)"
  obtain v s1 where rv: "Revalidate b (Window req) s = (v, s1)" by (cases "Revalidate b (Window req) s")
  obtain r s2 where act: "ActivateAlwaysBoth b (Window req) s1 = (r, s2)"
    by (cases "ActivateAlwaysBoth b (Window req) s1")
  obtain aw s3 where obs: "ActiveWindow b s2 = (aw, s3)" by (cases "ActiveWindow b s2")
  note rve = Revalidate_emits [OF rv]
  show ?thesis
  proof (cases v)
    case (Some e)
    with rve assms rv show ?thesis
      by (auto simp: Dispatch_def dispatch_events_def Code_mapBackendError_cases intro!: dispatch_ok_quiet)
  next
    case v: None
    show ?thesis
    proof (cases r)
      case None
      then have "emits s [EvActivate ?x, EvFocus ?x] s3"
        using emits_left [OF rve] emits_right [OF ActivateAlwaysBoth_emits ActiveWindow_emits [OF obs]] act
        by blast
      with v None rv act obs assms ActiveWindow_error [of s2 _ s3] show ?thesis
        by (cases aw) (auto simp: Dispatch_def dispatch_events_def Code_mapBackendError_cases
            intro!: dispatch_okI)
    next
      case (Some e)
      then have "emits s [] s2 \<or> emits s [EvActivate ?x] s2"
        using emits_left [OF rve] ActivateAlwaysBoth_fails act by metis
      moreover have "\<not> errors_Is e ErrRefMismatch"
        using Some act ActivateAlwaysBoth_error by blast
      ultimately show ?thesis
        using v Some rv act assms
        by (auto simp: Dispatch_def dispatch_events_def Code_mapBackendError_cases intro!: dispatch_okI)
    qed
  qed
qed

lemma Dispatch_release:
  assumes "Op req = OpRelease" "session_inv ss" "go_orders ords"
  shows "dispatch_ok req ss s (Dispatch ords req (Some ss) (Some b) s)"
proof -
  obtain out sess' s' where rel: "Release ords (Some ss) (Some b) s = (out, sess', s')"
    by (metis prod_cases3)
  from Release_spec [OF rel assms(3,2)] obtain ss' ks bs where
    r: "sess' = Some ss'" "session_inv ss'" "distinct ks" "distinct bs"
    "set ks \<subseteq> down_keys (holds_of ss)" "set bs \<subseteq> down_buttons (holds_of ss)"
    "emits s (key_ups ks @ button_ups bs) s'"
    "holds_of ss' = apply_events (key_ups ks @ button_ups bs) (holds_of ss)"
    "Code out = Submitted \<and> holds_of ss' = no_holds \<or> Code out = Unavailable"
    by blast
  then have "Code out = Submitted \<Longrightarrow> set ks = down_keys (holds_of ss) \<and> set bs = down_buttons (holds_of ss)"
    by (auto simp: apply_key_ups apply_button_ups no_holds_def holds_update_eq)
  with r have "dispatch_events req (holds_of ss) (Code out) (key_ups ks @ button_ups bs)"
    using assms(1) by (auto simp: dispatch_events_def)
  then show ?thesis
    using r rel assms(1) dispatch_okI by (simp add: Dispatch_def)
qed

lemma Dispatch_unknown:
  assumes "Op req = OpUnknown op" "session_inv ss"
  shows "dispatch_ok req ss s (Dispatch ords req (Some ss) (Some b) s)"
  using assms emits_refl
  by (auto simp: Dispatch_def dispatch_events_def intro!: dispatch_ok_quiet)

lemma Dispatch_ok:
  assumes "session_inv ss" "go_orders ords"
  shows "dispatch_ok req ss s (Dispatch ords req (Some ss) (Some b) s)"
  using assms Dispatch_move Dispatch_key Dispatch_button Dispatch_inspect Dispatch_activate
    Dispatch_fullscreen Dispatch_release Dispatch_unknown
  by (cases "Op req") blast+

text \<open>The same for a line: a line that does not decode submits nothing and changes nothing.\<close>

lemma HandleLine_ok:
  assumes "HandleLine ords line (Some ss) (Some b) s = (out, sess', s')" "session_inv ss" "go_orders ords"
  shows "\<exists>ss' es. sess' = Some ss' \<and> session_inv ss' \<and> emits s es s'
      \<and> holds_of ss' = apply_events es (holds_of ss)
      \<and> (if Code (snd (Decode line)) = Submitted
         then dispatch_events (fst (Decode line)) (holds_of ss) (Code out) es
         else es = [] \<and> out = snd (Decode line))"
proof (cases "Code (snd (Decode line)) = Submitted")
  case True
  with assms(1) have "Dispatch ords (fst (Decode line)) (Some ss) (Some b) s = (out, sess', s')"
    by (simp add: HandleLine_def split_def)
  with Dispatch_ok [OF assms(2,3), of "fst (Decode line)" s] True show ?thesis
    by (auto simp: dispatch_ok_def)
next
  case False
  with assms emits_refl show ?thesis
    by (intro exI [of _ ss] exI [of _ "[]"]) (auto simp: HandleLine_def split_def)
qed

lemma HandleLine_rejected:
  assumes "HandleLine ords line (Some ss) (Some b) s = (out, sess', s')" "session_inv ss" "go_orders ords"
    and "Code out \<in> {Conflict, InvalidRequest, NotSubmitted}"
  shows "emits s [] s' \<and> map_option holds_of sess' = Some (holds_of ss)"
  using HandleLine_ok [OF assms(1-3)] dispatch_events_rejected assms(4)
  by (fastforce split: if_splits)

end

end
