(* ===== verification/GoBufio.thy ===== *)
theory GoBufio
  imports GoStrings
begin

text \<open>
  Go's \<open>bufio.Scanner\<close> with \<open>ScanLines\<close> and the buffer limit the daemon sets with
  \<open>sc.Buffer\<close>, on the whole input of a connection. A line is delivered when its line feed lies
  within the first \<open>limit\<close> bytes of the buffer; a buffer that fills up without a line feed
  stops the scanner with \<open>ErrTooLong\<close>; at the end of the input, or at a read error, the bytes
  left over are delivered as a last line.
\<close>

definition LF :: char where "LF = CHR 0x0A"

definition drop_cr :: "string \<Rightarrow> string" where
  "drop_cr s = (if s \<noteq> [] \<and> last s = CHR 0x0D then butlast s else s)"

datatype scan_error = ErrTooLong | ReadError string

text \<open>The text of the error.\<close>

definition scan_message :: "scan_error \<Rightarrow> string" where
  "scan_message e = (case e of ErrTooLong \<Rightarrow> ''bufio.Scanner: token too long'' | ReadError m \<Rightarrow> m)"

definition line_of :: "string \<Rightarrow> string" where
  "line_of s = takeWhile (\<lambda>c. c \<noteq> LF) s"

text \<open>The tokens and \<open>sc.Err()\<close>; \<open>rerr\<close> is the error that ends the input (\<open>None\<close> for EOF).\<close>

function scan_lines :: "nat \<Rightarrow> scan_error option \<Rightarrow> string \<Rightarrow> string list \<times> scan_error option" where
  "scan_lines limit rerr s =
     (let l = line_of s in
      if s = [] then ([], rerr)
      else if length l \<ge> limit then ([], Some ErrTooLong)
      else if length l = length s then ([drop_cr l], rerr)
      else let (ls, e) = scan_lines limit rerr (drop (Suc (length l)) s) in (drop_cr l # ls, e))"
  by pat_completeness auto
termination
  by (relation "measure (\<lambda>(limit, rerr, s). length s)") auto

declare scan_lines.simps [simp del]

definition scanBufferMax :: nat where "scanBufferMax = 1048576"

lemma line_of_append: "LF \<notin> set l \<Longrightarrow> line_of (l @ LF # s) = l"
  by (induction l) (auto simp: line_of_def)

lemma scan_lines_Nil [simp]: "scan_lines limit rerr [] = ([], rerr)"
  by (simp add: scan_lines.simps)

text \<open>A terminated line that fits the buffer is delivered, and scanning goes on after it.\<close>

lemma scan_lines_line:
  assumes "LF \<notin> set l" "length l < limit"
  shows "scan_lines limit rerr (l @ LF # s) =
     (drop_cr l # fst (scan_lines limit rerr s), snd (scan_lines limit rerr s))"
  using assms by (subst scan_lines.simps) (simp add: line_of_append Let_def split_def)

lemma scan_lines_too_long:
  assumes "LF \<notin> set l" "limit \<le> length l" "l \<noteq> []"
  shows "scan_lines limit rerr (l @ s) = ([], Some ErrTooLong)"
proof -
  have "takeWhile (\<lambda>c. c \<noteq> LF) (l @ s) = l @ takeWhile (\<lambda>c. c \<noteq> LF) s"
    using assms(1) by (intro takeWhile_append2) auto
  with assms show ?thesis by (subst scan_lines.simps) (simp add: line_of_def Let_def)
qed

lemma scan_lines_concat:
  assumes "\<forall>l \<in> set ls. LF \<notin> set l \<and> length l < limit"
  shows "scan_lines limit rerr (concat (map (\<lambda>l. l @ [LF]) ls)) = (map drop_cr ls, rerr)"
  using assms by (induction ls) (auto simp: scan_lines_line)

text \<open>No token contains a line feed or is longer than the buffer.\<close>

lemma set_drop_cr: "set (drop_cr l) \<subseteq> set l"
  by (auto simp: drop_cr_def dest: in_set_butlastD)

lemma length_drop_cr: "length (drop_cr l) \<le> length l"
  by (simp add: drop_cr_def)

lemma line_of_no_LF: "LF \<notin> set (line_of s)"
  by (auto simp: line_of_def dest: set_takeWhileD)

lemma scan_lines_tokens:
  "t \<in> set (fst (scan_lines limit rerr s)) \<Longrightarrow> LF \<notin> set t \<and> length t < limit"
proof (induction limit rerr s rule: scan_lines.induct)
  case (1 limit rerr s)
  let ?l = "line_of s" and ?r = "drop (Suc (length (line_of s))) s"
  have l: "LF \<notin> set (drop_cr ?l)" "length (drop_cr ?l) \<le> length ?l"
    using line_of_no_LF [of s] set_drop_cr [of ?l] length_drop_cr by auto
  show ?case
  proof (cases "s = [] \<or> length ?l \<ge> limit \<or> length ?l = length s")
    case True
    with "1.prems" l show ?thesis
      by (auto simp: scan_lines.simps [of limit rerr s] Let_def split: if_splits)
  next
    case False
    with "1.prems" consider "t = drop_cr ?l" | "t \<in> set (fst (scan_lines limit rerr ?r))"
      by (auto simp: scan_lines.simps [of limit rerr s] Let_def split_def)
    then show ?thesis
    proof cases
      case 1
      with l False show ?thesis by auto
    next
      case 2
      with "1.IH" False show ?thesis by simp
    qed
  qed
qed

end
