(* ===== verification/DestConn.thy ===== *)
theory DestConn
  imports VnextDispatch GoBufio
begin

text \<open>
  \<open>serveVNextConn\<close> of cmd/xtest-server/dest.go: one destination connection from its first byte to
  the deferred release of its session. The peer's bytes and the error that ends them come from
  the environment, as does the success of each reply write.
\<close>

section \<open>The connection loop\<close>

record conn_env =
  input :: string
  read_error :: "scan_error option"
  write_ok :: "nat \<Rightarrow> bool"
  range_order :: "nat \<Rightarrow> orders"

definition fallback_json :: "Outcome \<Rightarrow> string" where
  "fallback_json o' = object_text [(''code'', marshal_string (code_string (Code o')))]"

definition reply :: "Outcome \<Rightarrow> string" where
  "reply o' = (case WireJSON o' of (raw, None) \<Rightarrow> raw | (raw, Some e) \<Rightarrow> fallback_json o') @ [LF]"

text \<open>The loop over the scanned lines from the \<open>n\<close>-th on: the replies written, and whether the loop
  ended at a failed write.\<close>

fun serve_loop :: "'s Backend \<Rightarrow> conn_env \<Rightarrow> nat \<Rightarrow> string list \<Rightarrow> Session option \<Rightarrow> 's
    \<Rightarrow> string list \<times> Session option \<times> 's" where
  "serve_loop b env n [] sess s = ([], sess, s)"
| "serve_loop b env n (line # lines) sess s =
     (let (out, sess1, s1) = HandleLine (range_order env n) line sess (Some b) s in
      if \<not> write_ok env n then ([], sess1, s1)
      else let (rs, sess2, s2) = serve_loop b env (Suc n) lines sess1 s1
           in (reply out # rs, sess2, s2))"

definition serveVNextConn :: "'s Backend \<Rightarrow> conn_env \<Rightarrow> 's \<Rightarrow> string list \<times> Outcome \<times> 's" where
  "serveVNextConn b env s =
     (let lines = fst (scan_lines scanBufferMax (read_error env) (input env));
          (rs, sess, s1) = serve_loop b env 0 lines (Some NewSession) s;
          (out, sess', s') = Release (range_order env (length lines)) sess (Some b) s1
      in (rs, out, s'))"

text \<open>What the connection writes to stderr after its loop. The scanner knows the error of its input from the
  moment it delivers the unterminated last line; a loop that ended earlier, at a failed write, finds no
  error.\<close>

definition error_seen :: "conn_env \<Rightarrow> scan_error \<Rightarrow> nat \<Rightarrow> nat \<Rightarrow> bool" where
  "error_seen env e n lines \<longleftrightarrow> e \<noteq> ErrTooLong \<and> Suc n = lines \<and> last (input env) \<noteq> LF"

definition dest_scanner_log :: "conn_env \<Rightarrow> string list" where
  "dest_scanner_log env =
     (let (lines, err) = scan_lines scanBufferMax (read_error env) (input env);
          failed = find (\<lambda>n. \<not> write_ok env n) [0..<length lines]
      in case err of
           None \<Rightarrow> []
         | Some e \<Rightarrow>
             (case failed of
                Some n \<Rightarrow> if error_seen env e n (length lines)
                          then [''xtest-server: dest scanner: '' @ scan_message e @ [LF]] else []
              | None \<Rightarrow> [''xtest-server: dest scanner: '' @ scan_message e @ [LF]]))"

text \<open>The first failed write is where the loop ends.\<close>

lemma serve_loop_written:
  "length (fst (serve_loop b env n lines sess s)) =
     (case find (\<lambda>k. \<not> write_ok env k) [n..<n + length lines] of Some k \<Rightarrow> k - n | None \<Rightarrow> length lines)"
proof (induction lines arbitrary: n sess s)
  case (Cons line lines)
  let ?rest = "find (\<lambda>k. \<not> write_ok env k) [Suc n..<Suc (n + length lines)]"
  have upt: "[n..<n + length (line # lines)] = n # [Suc n..<Suc (n + length lines)]" by (simp add: upt_rec)
  have later: "Suc n \<le> k" if "?rest = Some k" for k
    using that by (auto simp: find_Some_iff simp del: upt_Suc)
  obtain out sess1 s1 where "HandleLine (range_order env n) line sess (Some b) s = (out, sess1, s1)"
    by (metis prod_cases3)
  moreover obtain rs sess2 s2 where rec: "serve_loop b env (Suc n) lines sess1 s1 = (rs, sess2, s2)"
    by (metis prod_cases3)
  moreover have "length rs = (case ?rest of Some k \<Rightarrow> k - Suc n | None \<Rightarrow> length lines)"
    using Cons.IH [of "Suc n" sess1 s1] rec by (simp del: upt_Suc)
  ultimately show ?case
    unfolding upt by (cases ?rest) (auto simp: Suc_diff_Suc Suc_le_eq dest!: later simp del: upt_Suc)
qed simp

lemma reply_WireJSON: "reply o' = fst (WireJSON o') @ [LF]"
  by (simp add: reply_def WireJSON_def)

section \<open>Connections against a backend that keeps the contract\<close>

context backend_contract
begin

lemma serve_loop_ok:
  assumes "serve_loop b env n lines (Some ss) s = (rs, sess', s')" "session_inv ss"
    and "\<forall>n. go_orders (range_order env n)"
  shows "\<exists>ss' es. sess' = Some ss' \<and> session_inv ss' \<and> emits s es s'
      \<and> holds_of ss' = apply_events es (holds_of ss)"
  using assms
proof (induction lines arbitrary: n ss s rs)
  case Nil
  then show ?case using emits_refl by (intro exI [of _ ss] exI [of _ "[]"]) simp
next
  case (Cons line lines)
  obtain out sess1 s1 where h: "HandleLine (range_order env n) line (Some ss) (Some b) s = (out, sess1, s1)"
    by (metis prod_cases3)
  from HandleLine_ok [OF h Cons.prems(2)] Cons.prems(3) obtain ss1 es where
    one: "sess1 = Some ss1" "session_inv ss1" "emits s es s1" "holds_of ss1 = apply_events es (holds_of ss)"
    by blast
  show ?case
  proof (cases "write_ok env n")
    case False
    with Cons.prems(1) h one show ?thesis by auto
  next
    case True
    with Cons.prems(1) h one(1) obtain rs' where
      "serve_loop b env (Suc n) lines (Some ss1) s1 = (rs', sess', s')"
      by (auto split: prod.splits)
    from Cons.IH [OF this one(2) Cons.prems(3)] obtain ss' fs where
      "sess' = Some ss'" "session_inv ss'" "emits s1 fs s'" "holds_of ss' = apply_events fs (holds_of ss1)"
      by blast
    with one emits_trans [of s es s1 fs s'] show ?thesis
      by (intro exI [of _ ss'] exI [of _ "es @ fs"]) simp
  qed
qed

text \<open>Whatever the client sends and however the connection ends, the events of the connection
  leave nothing pressed when the final release reports success.\<close>

lemma serveVNextConn_ok:
  assumes "serveVNextConn b env s = (rs, out, s')" "\<forall>n. go_orders (range_order env n)"
  shows "\<exists>es h. emits s es s' \<and> apply_events es no_holds = h
      \<and> (Code out = Submitted \<and> h = no_holds \<or> Code out = Unavailable)"
proof -
  let ?lines = "fst (scan_lines scanBufferMax (read_error env) (input env))"
  obtain rs1 sess1 s1 where loop: "serve_loop b env 0 ?lines (Some NewSession) s = (rs1, sess1, s1)"
    by (metis prod_cases3)
  from serve_loop_ok [OF loop] assms(2) obtain ss1 es where
    one: "sess1 = Some ss1" "session_inv ss1" "emits s es s1" "holds_of ss1 = apply_events es no_holds"
    by auto
  obtain out1 sess2 s2 where rel:
    "Release (range_order env (length ?lines)) (Some ss1) (Some b) s1 = (out1, sess2, s2)"
    by (metis prod_cases3)
  from Release_spec [OF rel] assms(2) one(2) obtain ss2 fs where
    two: "emits s1 fs s2" "holds_of ss2 = apply_events fs (holds_of ss1)"
    "Code out1 = Submitted \<and> holds_of ss2 = no_holds \<or> Code out1 = Unavailable"
    by blast
  have "out = out1" "s' = s2"
    using assms(1) loop one(1) rel by (simp_all add: serveVNextConn_def Let_def)
  with one two emits_trans [OF one(3) two(1)] show ?thesis
    by (intro exI [of _ "es @ fs"]) simp
qed

end

section \<open>Framing\<close>

lemma no_LF: "no_control s \<Longrightarrow> LF \<notin> set s"
  by (auto simp: no_control_def list_all_iff LF_def)

lemma no_CR: "no_control s \<Longrightarrow> drop_cr s = s"
proof -
  assume "no_control s"
  then have "\<forall>c \<in> set s. c \<noteq> CHR 0x0D" by (auto simp: no_control_def list_all_iff)
  then have "s \<noteq> [] \<Longrightarrow> last s \<noteq> CHR 0x0D" by (metis last_in_set)
  then show ?thesis by (auto simp: drop_cr_def)
qed

lemma serve_loop_replies:
  "serve_loop b env n lines sess s = (rs, sess', s') \<Longrightarrow>
   \<exists>outs. rs = map reply outs \<and> length outs \<le> length lines
     \<and> ((\<forall>k. write_ok env k) \<longrightarrow> length outs = length lines)"
proof (induction lines arbitrary: n sess s rs sess' s')
  case (Cons line lines)
  obtain out sess1 s1 where h: "HandleLine (range_order env n) line sess (Some b) s = (out, sess1, s1)"
    by (metis prod_cases3)
  obtain rs1 sess2 s2 where l: "serve_loop b env (Suc n) lines sess1 s1 = (rs1, sess2, s2)" by (metis prod_cases3)
  from Cons.IH [OF l] obtain outs where o: "rs1 = map reply outs" "length outs \<le> length lines"
    "(\<forall>k. write_ok env k) \<longrightarrow> length outs = length lines" by blast
  show ?case
  proof (cases "write_ok env n")
    case True
    with Cons.prems h l o show ?thesis by (intro exI [of _ "out # outs"]) auto
  next
    case False
    with Cons.prems h show ?thesis by (intro exI [of _ "[]"]) auto
  qed
qed simp

text \<open>(C18) One reply line per request line: the replies of a connection are the wire forms of outcomes,
  at most one per scanned line and exactly one when every write succeeds, and a client that scans
  them line by line, with any buffer that holds the longest one, gets back exactly these JSON texts,
  because no wire form contains a line end.\<close>

theorem replies_framed:
  assumes "serveVNextConn b env s = (rs, out, s')" "\<forall>r \<in> set rs. length r \<le> limit"
  shows "\<exists>outs. scan_lines limit None (concat rs) = (map (\<lambda>o'. fst (WireJSON o')) outs, None)
     \<and> rs = map reply outs
     \<and> length outs \<le> length (fst (scan_lines scanBufferMax (read_error env) (input env)))
     \<and> ((\<forall>k. write_ok env k) \<longrightarrow> length outs = length (fst (scan_lines scanBufferMax (read_error env) (input env))))"
proof -
  let ?lines = "fst (scan_lines scanBufferMax (read_error env) (input env))"
  obtain sess1 s1 where "serve_loop b env 0 ?lines (Some NewSession) s = (rs, sess1, s1)"
    using assms(1) by (auto simp: serveVNextConn_def Let_def split: prod.splits)
  from serve_loop_replies [OF this] obtain outs where o: "rs = map reply outs" "length outs \<le> length ?lines"
    "(\<forall>k. write_ok env k) \<longrightarrow> length outs = length ?lines" by blast
  let ?js = "map (\<lambda>o'. fst (WireJSON o')) outs"
  have "concat rs = concat (map (\<lambda>l. l @ [LF]) ?js)" by (simp add: o(1) comp_def flip: reply_WireJSON)
  moreover have "\<forall>l \<in> set ?js. LF \<notin> set l \<and> length l < limit"
    using assms(2) by (auto simp: o(1) reply_WireJSON no_LF no_control_WireJSON)
  moreover have "map drop_cr ?js = ?js" by (simp add: no_CR no_control_WireJSON)
  ultimately have "scan_lines limit None (concat rs) = (?js, None)" by (metis scan_lines_concat)
  with o show ?thesis by blast
qed

end
