(* ===== verification/VnextFake.thy ===== *)
theory VnextFake
  imports VnextDispatch
begin

text \<open>
  internal/vnext/fake.go and panic_backend.go: the recording backend the package ships for
  tests and the backend that panics on any call, both as instances of the backend interface.
  The recording backend keeps the contract: the mutating calls it has recorded are exactly the
  rendered events.
\<close>

section \<open>The recording backend\<close>

record Fake =
  fkeys :: "(string \<times> go_uint) list option"
  Calls :: "string list"
  Managed :: "WindowInfo list"
  Display :: go_uint64
  Observe :: go_uint64
  QueryTree :: int
  Supported :: "string list option"
  ScreenW :: go_int
  ScreenH :: go_int
  active :: go_uint32

definition NewFake :: Fake where
  "NewFake = \<lparr>fkeys = Some [(''F1'', 67), (''Shift_L'', 50)], Calls = [], Managed = [],
     Display = 1, Observe = 1, QueryTree = 0, Supported = None, ScreenW = 1280, ScreenH = 720,
     active = 0\<rparr>"

definition fake_ScreenGeometry :: "Fake \<Rightarrow> (go_error + go_int \<times> go_int) \<times> Fake" where
  "fake_ScreenGeometry f =
     (if ScreenW f \<le> 0 \<or> ScreenH f \<le> 0 then (Inl ErrUnavailable, f)
      else (Inr (ScreenW f, ScreenH f), f))"

definition record_call :: "string \<Rightarrow> Fake \<Rightarrow> Fake" where
  "record_call c f = f\<lparr>Calls := Calls f @ [c]\<rparr>"

definition Snapshot :: "Fake \<Rightarrow> string list" where
  "Snapshot f = Calls f"

definition fake_KeycodeFor :: "string \<Rightarrow> Fake \<Rightarrow> go_uint \<times> Fake" where
  "fake_KeycodeFor name f =
     (case fkeys f of
        None \<Rightarrow> (0, f)
      | Some m \<Rightarrow> (case map_of m name of None \<Rightarrow> 0 | Some kc \<Rightarrow> kc, f))"

definition call_warp :: "go_int \<Rightarrow> go_int \<Rightarrow> string" where
  "call_warp x y = ''warp:'' @ Itoa x @ '','' @ Itoa y"

definition direction :: "bool \<Rightarrow> string" where
  "direction press = (if press then ''down'' else ''up'')"

definition call_key :: "go_uint \<Rightarrow> bool \<Rightarrow> string" where
  "call_key kc press = ''key:'' @ marshal_uint kc @ '':'' @ direction press"

definition call_button :: "go_uint \<Rightarrow> bool \<Rightarrow> string" where
  "call_button btn press = ''button:'' @ marshal_uint btn @ '':'' @ direction press"

definition fake_WarpMouse :: "go_int \<Rightarrow> go_int \<Rightarrow> Fake \<Rightarrow> go_error option \<times> Fake" where
  "fake_WarpMouse x y f = (None, record_call (call_warp x y) f)"

definition fake_SendKey :: "go_uint \<Rightarrow> bool \<Rightarrow> Fake \<Rightarrow> go_error option \<times> Fake" where
  "fake_SendKey kc press f = (None, record_call (call_key kc press) f)"

definition fake_SendButton :: "go_uint \<Rightarrow> bool \<Rightarrow> Fake \<Rightarrow> go_error option \<times> Fake" where
  "fake_SendButton btn press f = (None, record_call (call_button btn press) f)"

definition atomOK :: "string \<Rightarrow> Fake \<Rightarrow> bool" where
  "atomOK atom f = (case Supported f of None \<Rightarrow> True | Some as \<Rightarrow> list_ex (\<lambda>a. a = atom) as)"

definition fill_gens :: "go_uint64 \<Rightarrow> go_uint64 \<Rightarrow> WindowInfo \<Rightarrow> WindowInfo" where
  "fill_gens display observe w =
     w\<lparr>wDisplayGen := (if wDisplayGen w = 0 then display else wDisplayGen w),
       wObserveGen := (if wObserveGen w = 0 then observe else wObserveGen w)\<rparr>"

definition fake_ManagedClients :: "Fake \<Rightarrow> (go_error + WindowInfo list) \<times> Fake" where
  "fake_ManagedClients f =
     (if \<not> atomOK NetClientListAtom f then (Inl ErrUnavailable, f)
      else let f' = record_call (''inspect:'' @ NetClientListAtom) f
           in (Inr (map (fill_gens (Display f') (Observe f')) (Managed f')), f'))"

text \<open>The loop over the managed windows: the first window with the XID decides.\<close>

fun revalidate_managed :: "WindowRef \<Rightarrow> WindowInfo list \<Rightarrow> go_error option" where
  "revalidate_managed ref [] = Some ErrRefMismatch"
| "revalidate_managed ref (w # ws) =
     (if wXID w \<noteq> XID ref then revalidate_managed ref ws
      else if ExpectedClass ref \<noteq> [] \<and> wClass w \<noteq> ExpectedClass ref then Some ErrRefMismatch
      else if ExpectedPID ref \<noteq> 0 \<and> wPID w \<noteq> ExpectedPID ref then Some ErrRefMismatch
      else None)"

definition fake_Revalidate :: "WindowRef \<Rightarrow> Fake \<Rightarrow> go_error option \<times> Fake" where
  "fake_Revalidate ref f =
     (if \<not> atomOK NetClientListAtom f then (Some ErrUnavailable, f)
      else if XID ref = 0 then (Some ErrRefMismatch, f)
      else if DisplayGen ref \<noteq> Display f \<or> ObserveGen ref \<noteq> Observe f then (Some ErrRefMismatch, f)
      else (revalidate_managed ref (Managed f), f))"

definition call_activate :: "go_uint32 \<Rightarrow> string" where
  "call_activate xid = ''clientmessage:'' @ NetActiveWindowAtom @ '':source='' @ Itoa NetActiveWindowSource
     @ '':mask='' @ Itoa ActivateEventMask @ '':xid='' @ marshal_uint xid"

definition call_focus :: "go_uint32 \<Rightarrow> string" where
  "call_focus xid = ''setinputfocus:revert='' @ Itoa RevertToParent @ '':xid='' @ marshal_uint xid"

definition fake_ActivateAlwaysBoth :: "WindowRef \<Rightarrow> Fake \<Rightarrow> go_error option \<times> Fake" where
  "fake_ActivateAlwaysBoth ref f =
     (if \<not> atomOK NetActiveWindowAtom f then (Some ErrUnavailable, f)
      else let f1 = record_call (call_activate (XID ref)) f;
               f2 = record_call (call_focus (XID ref)) f1
           in (None, f2\<lparr>active := XID ref\<rparr>))"

definition fake_ActiveWindow :: "Fake \<Rightarrow> (go_error + go_uint32) \<times> Fake" where
  "fake_ActiveWindow f = (Inr (active f), f)"

definition call_fullscreen :: "go_uint32 \<Rightarrow> bool \<Rightarrow> string" where
  "call_fullscreen xid add = ''clientmessage:'' @ NetWMStateAtom @ '':'' @ NetWMStateFullscreenAtom @ '':''
     @ (if add then ''add'' else ''remove'') @ '':mask='' @ Itoa ActivateEventMask
     @ '':xid='' @ marshal_uint xid"

definition fake_SetFullscreen :: "WindowRef \<Rightarrow> bool \<Rightarrow> Fake \<Rightarrow> go_error option \<times> Fake" where
  "fake_SetFullscreen ref add f =
     (if \<not> atomOK NetWMStateAtom f \<or> \<not> atomOK NetWMStateFullscreenAtom f then (Some ErrUnavailable, f)
      else (None, record_call (call_fullscreen (XID ref) add) f))"

definition WalkQueryTree :: "Fake \<Rightarrow> Fake" where
  "WalkQueryTree f = f\<lparr>QueryTree := QueryTree f + 1\<rparr>"

definition fake_backend :: "Fake Backend" where
  "fake_backend = \<lparr>KeycodeFor = fake_KeycodeFor, WarpMouse = fake_WarpMouse, SendKey = fake_SendKey,
     SendButton = fake_SendButton, ScreenGeometry = fake_ScreenGeometry,
     ManagedClients = fake_ManagedClients, Revalidate = fake_Revalidate,
     ActivateAlwaysBoth = fake_ActivateAlwaysBoth, SetFullscreen = fake_SetFullscreen,
     ActiveWindow = fake_ActiveWindow\<rparr>"

section \<open>The contract\<close>

fun render :: "input_event \<Rightarrow> string" where
  "render (EvWarp x y) = call_warp x y"
| "render (EvKey kc p) = call_key kc p"
| "render (EvButton btn p) = call_button btn p"
| "render (EvActivate x) = call_activate x"
| "render (EvFocus x) = call_focus x"
| "render (EvFullscreen x add) = call_fullscreen x add"

text \<open>The recorded mutations: every call but the inspection records.\<close>

definition mutations :: "Fake \<Rightarrow> string list" where
  "mutations f = filter (\<lambda>c. \<not> HasPrefix c ''inspect:'') (Calls f)"

definition fake_emits :: "Fake \<Rightarrow> input_event list \<Rightarrow> Fake \<Rightarrow> bool" where
  "fake_emits f es f' \<longleftrightarrow> mutations f' = mutations f @ map render es"

lemmas fake_defs = fake_backend_def fake_KeycodeFor_def fake_WarpMouse_def fake_SendKey_def
  fake_SendButton_def fake_ScreenGeometry_def fake_ManagedClients_def fake_Revalidate_def
  fake_ActivateAlwaysBoth_def fake_SetFullscreen_def fake_ActiveWindow_def record_call_def

lemma render_not_inspect [simp]: "\<not> HasPrefix (render e) ''inspect:''"
  by (cases e) (simp_all add: call_warp_def call_key_def call_button_def call_activate_def
      call_focus_def call_fullscreen_def)

lemma call_not_inspect [simp]:
  "\<not> HasPrefix (call_warp x y) ''inspect:''" "\<not> HasPrefix (call_key kc p) ''inspect:''"
  "\<not> HasPrefix (call_button kc p) ''inspect:''" "\<not> HasPrefix (call_activate xid) ''inspect:''"
  "\<not> HasPrefix (call_focus xid) ''inspect:''" "\<not> HasPrefix (call_fullscreen xid add) ''inspect:''"
  using render_not_inspect [of "EvWarp x y"] render_not_inspect [of "EvKey kc p"]
    render_not_inspect [of "EvButton kc p"] render_not_inspect [of "EvActivate xid"]
    render_not_inspect [of "EvFocus xid"] render_not_inspect [of "EvFullscreen xid add"]
  by simp_all

lemma fake_emits_refl: "fake_emits f [] f"
  by (simp add: fake_emits_def)

lemma revalidate_managed_error: "revalidate_managed ref ws = Some e \<Longrightarrow> e = ErrRefMismatch"
  by (induction ref ws rule: revalidate_managed.induct) (auto split: if_splits)

interpretation fake: backend_contract fake_backend fake_emits
proof (unfold_locales, goal_cases)
  case 1
  show ?case by (rule fake_emits_refl)
qed (auto simp: fake_defs fake_emits_def mutations_def Let_def split: if_splits option.splits)

section \<open>Properties on the recording backend\<close>

text \<open>Every line, on every branch, against the recording backend: the mutating calls recorded are
  the rendered events of the request, as its operation and outcome allow them (all of them when it
  is submitted, none when the line is rejected), and the session holds exactly what those events
  leave pressed.\<close>

lemma fake_HandleLine:
  assumes "HandleLine ords line (Some ss) (Some fake_backend) f = (out, sess', f')"
    and "session_inv ss" "go_orders ords"
  shows "\<exists>ss' es. sess' = Some ss' \<and> session_inv ss' \<and> mutations f' = mutations f @ map render es
      \<and> holds_of ss' = apply_events es (holds_of ss)
      \<and> (if Code (snd (Decode line)) = Submitted
         then dispatch_events (fst (Decode line)) (holds_of ss) (Code out) es
         else es = [] \<and> out = snd (Decode line))"
  using fake.HandleLine_ok [OF assms] by (simp add: fake_emits_def)

text \<open>\<open>Release\<close> on the recording backend: with any iteration orders of the two maps it succeeds,
  submits one key-up for each key the client holds and then one button-up for each button it holds,
  and leaves the session empty.\<close>

lemma fake_Release:
  assumes "session_inv ss" "go_orders ords"
  shows "\<exists>ks bs ss' f'. Release ords (Some ss) (Some fake_backend) f = (submitted, Some ss', f')
     \<and> distinct ks \<and> set ks = {kc. KeyDown ss kc} \<and> distinct bs \<and> set bs = {btn. ButtonDown ss btn}
     \<and> mutations f' = mutations f @ map render (key_ups ks @ button_ups bs)
     \<and> (\<forall>k. \<not> KeyDown ss' k \<and> \<not> ButtonDown ss' k)"
proof -
  obtain out sess' f' where rel: "Release ords (Some ss) (Some fake_backend) f = (out, sess', f')"
    by (metis prod_cases3)
  have "release_keys fake_backend ks e ss f = (e', x) \<Longrightarrow> e' = e"
    "release_buttons fake_backend ks e ss f = (e', x) \<Longrightarrow> e' = e" for ks e e' ss f x
    by (induction ks arbitrary: ss f) (simp_all add: fake_defs)
  then have out: "out = submitted"
    using rel by (fastforce simp: Release_def Let_def split: prod.splits)
  from fake.Release_spec [OF rel assms(2,1)] obtain ss' ks bs where
    r: "sess' = Some ss'" "distinct ks" "distinct bs" "fake_emits f (key_ups ks @ button_ups bs) f'"
    "set ks \<subseteq> down_keys (holds_of ss)" "set bs \<subseteq> down_buttons (holds_of ss)"
    "holds_of ss' = apply_events (key_ups ks @ button_ups bs) (holds_of ss)"
    "Code out = Submitted \<and> holds_of ss' = no_holds \<or> Code out = Unavailable" by blast
  with out have e: "holds_of ss' = no_holds" by simp
  with r(7) have "apply_events (key_ups ks @ button_ups bs) (holds_of ss) = no_holds" by simp
  with r(5,6) have "set ks = down_keys (holds_of ss)" "set bs = down_buttons (holds_of ss)"
    by (auto simp: apply_key_ups apply_button_ups no_holds_def holds_update_eq)
  with r rel out e show ?thesis
    by (intro exI [of _ ks] exI [of _ bs] exI [of _ ss'] exI [of _ f'])
       (auto simp: fake_emits_def holds_of_def no_holds_def)
qed

lemma revalidate_managed_None:
  "revalidate_managed ref ws = None \<Longrightarrow> \<exists>w. List.find (\<lambda>w. wXID w = XID ref) ws = Some w
     \<and> (ExpectedClass ref = [] \<or> wClass w = ExpectedClass ref) \<and> (ExpectedPID ref = 0 \<or> wPID w = ExpectedPID ref)"
  by (induction ref ws rule: revalidate_managed.induct) (auto split: if_splits)

lemma fake_Revalidate_None:
  "fake_Revalidate ref f = (None, f') \<Longrightarrow> f' = f \<and> DisplayGen ref = Display f \<and> ObserveGen ref = Observe f
     \<and> revalidate_managed ref (Managed f) = None"
  by (auto simp: fake_Revalidate_def split: if_splits)

text \<open>Activation goes to the window the client meant: when \<open>Dispatch\<close> reports an activation or a
  fullscreen change as submitted on the recording backend, the reference carries the current
  generations, the first managed window with its XID has the expected class and PID where those are
  given, and for an activation that window is the active one afterwards.\<close>

lemma fake_window_identity:
  assumes "Dispatch ords req sess (Some fake_backend) f = (out, sess', f')"
    and "Op req = OpActivate \<or> Op req = OpFullscreen" "Code out = Submitted"
  shows "DisplayGen (Window req) = Display f \<and> ObserveGen (Window req) = Observe f
     \<and> (\<exists>w. List.find (\<lambda>w. wXID w = XID (Window req)) (Managed f) = Some w
          \<and> (ExpectedClass (Window req) = [] \<or> wClass w = ExpectedClass (Window req))
          \<and> (ExpectedPID (Window req) = 0 \<or> wPID w = ExpectedPID (Window req)))
     \<and> (Op req = OpActivate \<longrightarrow> active f' = XID (Window req) \<and> ObservedActive out = XID (Window req))"
proof -
  obtain e f1 where rv: "fake_Revalidate (Window req) f = (e, f1)" by force
  have "e = None"
    using assms rv by (auto simp: Dispatch_def fake_backend_def mapBackendError_def split: option.splits prod.splits if_splits)
  with rv fake_Revalidate_None have 1: "f1 = f" "DisplayGen (Window req) = Display f"
    "ObserveGen (Window req) = Observe f" "revalidate_managed (Window req) (Managed f) = None" by blast+
  moreover have "Op req = OpActivate \<Longrightarrow> active f' = XID (Window req) \<and> ObservedActive out = XID (Window req)"
    using assms rv \<open>e = None\<close> 1(1)
    by (auto simp: Dispatch_def fake_backend_def fake_ActivateAlwaysBoth_def fake_ActiveWindow_def Let_def
        record_call_def mapBackendError_def split: if_splits)
  ultimately show ?thesis using revalidate_managed_None by blast
qed

section \<open>The panicking backend\<close>

text \<open>A panic unwinds the call; its first message is what the state keeps.\<close>

datatype panic_state = Running | Panicked string

fun go_panic :: "string \<Rightarrow> panic_state \<Rightarrow> panic_state" where
  "go_panic msg Running = Panicked msg"
| "go_panic msg (Panicked m) = Panicked m"

definition panic_backend :: "panic_state Backend" where
  "panic_backend = \<lparr>
     KeycodeFor = (\<lambda>n s. (0, go_panic ''vnext: backend KeycodeFor'' s)),
     WarpMouse = (\<lambda>x y s. (None, go_panic ''vnext: backend WarpMouse'' s)),
     SendKey = (\<lambda>kc p s. (None, go_panic ''vnext: backend SendKey'' s)),
     SendButton = (\<lambda>btn p s. (None, go_panic ''vnext: backend SendButton'' s)),
     ScreenGeometry = (\<lambda>s. (Inl ErrUnavailable, go_panic ''vnext: backend ScreenGeometry'' s)),
     ManagedClients = (\<lambda>s. (Inl ErrUnavailable, go_panic ''vnext: backend ManagedClients'' s)),
     Revalidate = (\<lambda>ref s. (None, go_panic ''vnext: backend Revalidate'' s)),
     ActivateAlwaysBoth = (\<lambda>ref s. (None, go_panic ''vnext: backend ActivateAlwaysBoth'' s)),
     SetFullscreen = (\<lambda>ref a s. (None, go_panic ''vnext: backend SetFullscreen'' s)),
     ActiveWindow = (\<lambda>s. (Inl ErrUnavailable, go_panic ''vnext: backend ActiveWindow'' s))\<rparr>"

lemma go_panic_not_running [simp]: "go_panic m s \<noteq> Running"
  by (cases s) simp_all



end
