(* ===== verification/X11.thy ===== *)
theory X11
  imports Backend
begin

text \<open>
  cmd/xtest-server/x11.go: the C functions of the cgo preamble and their Go wrappers, over the
  C globals as a record and the sequence of Xlib requests issued so far. Xlib and the X server
  are not part of the repository: they are the parameter \<open>xlib\<close>, a record of the answers they
  give, each a function of the requests issued before it, so that an answer may change between
  two identical queries. The last section is x11_nocgo.go.
\<close>

section \<open>Requests, replies and the C globals\<close>

type_synonym xid = go_uint32

record client_message =
  cm_window :: xid
  cm_type :: nat
  cm_data :: "int list"
  cm_mask :: int

text \<open>Requests the C code issues. Read-only requests are recorded by name, because the answers
  of the server may depend on how often it has been asked.\<close>

datatype xreq =
    XTestFakeKeyEvent "32 word" bool
  | XTestFakeButtonEvent "32 word" bool
  | XTestFakeMotionEvent int int
  | XWarpPointer int int
  | XSendEvent client_message
  | XSetInputFocus xid
  | XAutoRepeatOff
  | XCloseDisplay
  | XSync
  | XQuery string

record xstate =
  dpy :: bool
  dest_atoms_ready :: bool
  screen_w :: int
  screen_h :: int
  xlog :: "xreq list"

record property_reply =
  ptype :: nat
  pformat :: nat
  pitems :: "nat list"

record xlib =
  XInitThreads :: bool
  XOpenDisplay :: "nat \<Rightarrow> bool"
  has_XWAYLAND :: bool
  DisplayWidth :: int
  DisplayHeight :: int
  XStringToKeysym :: "string \<Rightarrow> nat"
  XKeysymToKeycode :: "xreq list \<Rightarrow> nat \<Rightarrow> 8 word"
  XQueryKeymap :: "xreq list \<Rightarrow> 8 word list"
  XInternAtom :: "string \<Rightarrow> nat"
  root_property :: "xreq list \<Rightarrow> nat \<Rightarrow> property_reply option"
  window_property :: "xreq list \<Rightarrow> xid \<Rightarrow> nat \<Rightarrow> property_reply option"
  XGetGeometry :: "xreq list \<Rightarrow> xid \<Rightarrow> (int \<times> int) option"
  XTranslateCoordinates :: "xreq list \<Rightarrow> xid \<Rightarrow> int \<times> int"
  XGetClassHint :: "xreq list \<Rightarrow> xid \<Rightarrow> string option option"
  XFetchName :: "xreq list \<Rightarrow> xid \<Rightarrow> string option"
  XSendEvent_ok :: "xreq list \<Rightarrow> bool"
  XQueryPointer :: "xreq list \<Rightarrow> (int \<times> int) option"
  polls_before_deadline :: "xreq list \<Rightarrow> nat"

definition init_xstate :: xstate where
  "init_xstate = \<lparr>dpy = False, dest_atoms_ready = False, screen_w = 1280, screen_h = 720, xlog = []\<rparr>"

definition issue :: "xreq \<Rightarrow> xstate \<Rightarrow> xstate" where
  "issue r st = st\<lparr>xlog := xlog st @ [r]\<rparr>"

definition display_width :: "xstate \<Rightarrow> int" where "display_width st = screen_w st"
definition display_height :: "xstate \<Rightarrow> int" where "display_height st = screen_h st"

section \<open>Opening the display\<close>

definition clear_modifier_lock :: "8 word \<Rightarrow> xstate \<Rightarrow> xstate" where
  "clear_modifier_lock kc st =
     (if kc = 0 then st
      else issue (XTestFakeKeyEvent (ucast kc) False)
            (issue (XTestFakeKeyEvent (ucast kc) True)
              (issue (XTestFakeKeyEvent (ucast kc) False)
                (issue (XTestFakeKeyEvent (ucast kc) True) st))))"

text \<open>The keysyms of X11/keysymdef.h.\<close>

definition XK_Caps_Lock :: nat where "XK_Caps_Lock = 0xFFE5"
definition XK_Num_Lock :: nat where "XK_Num_Lock = 0xFF7F"
definition XK_Scroll_Lock :: nat where "XK_Scroll_Lock = 0xFF14"

definition clear_lock_of :: "xlib \<Rightarrow> nat \<Rightarrow> xstate \<Rightarrow> xstate" where
  "clear_lock_of xl ks st = clear_modifier_lock (XKeysymToKeycode xl (xlog st) ks) st"

text \<open>The handlers that \<open>init_display\<close> installs: what Xlib has them print, and whether they return. The text
  of an error is what \<open>XGetErrorText\<close> leaves in the buffer. They do not touch the display, and Xlib
  decides when it calls them.\<close>

datatype handler_result = HandlerReturns int | HandlerExits int

definition x_io_error_handler :: "string \<times> handler_result" where
  "x_io_error_handler = (''xtest-server: fatal X I/O error'' @ [CHR 0x0A], HandlerExits 1)"

definition x_error_handler :: "string \<Rightarrow> 8 word \<Rightarrow> 8 word \<Rightarrow> string \<times> handler_result" where
  "x_error_handler txt request_code minor_code =
     (''xtest-server: X error: '' @ txt @ '' (request '' @ Itoa (uint request_code) @ ''.''
        @ Itoa (uint minor_code) @ '')'' @ [CHR 0x0A], HandlerReturns 0)"

text \<open>\<open>XOpenDisplay\<close> is tried at most fifteen times.\<close>

definition init_display :: "xlib \<Rightarrow> xstate \<Rightarrow> int \<times> xstate" where
  "init_display xl st =
     (if \<not> XInitThreads xl then (-1, st)
      else let st1 = st\<lparr>dpy := dpy st \<or> list_ex (XOpenDisplay xl) [0..<15]\<rparr> in
        if \<not> dpy st1 then (-1, st1)
        else if has_XWAYLAND xl then (-2, (issue XCloseDisplay st1)\<lparr>dpy := False\<rparr>)
        else let st2 = st1\<lparr>screen_w := DisplayWidth xl, screen_h := DisplayHeight xl\<rparr>;
                 st3 = issue XAutoRepeatOff st2;
                 st4 = clear_lock_of xl XK_Caps_Lock st3;
                 st5 = clear_lock_of xl XK_Num_Lock st4;
                 st6 = clear_lock_of xl XK_Scroll_Lock st5
             in (0, issue XSync st6))"

definition close_display :: "xstate \<Rightarrow> xstate" where
  "close_display st =
     (if \<not> dpy st then st
      else (issue XCloseDisplay st)\<lparr>dpy := False, dest_atoms_ready := False\<rparr>)"

section \<open>Input\<close>

text \<open>The test \<open>keys[kc >> 3] & (1 << (kc & 7))\<close> on the 32 bytes of the key map.\<close>

definition key_bit :: "8 word list \<Rightarrow> nat \<Rightarrow> bool" where
  "key_bit ks kc = bit (ks ! (kc div 8)) (kc mod 8)"

definition key_ups_of :: "8 word list \<Rightarrow> xreq list" where
  "key_ups_of ks = map (\<lambda>kc. XTestFakeKeyEvent (of_nat kc) False) (filter (key_bit ks) [0..<256])"

definition release_all :: "xlib \<Rightarrow> xstate \<Rightarrow> int \<times> xstate" where
  "release_all xl st =
     (if \<not> dpy st then (-1, st)
      else let ks = XQueryKeymap xl (xlog st);
               st1 = issue (XQuery ''XQueryKeymap'') st
           in (0, st1\<lparr>xlog := xlog st1 @ key_ups_of ks
                 @ [XTestFakeButtonEvent 1 False, XTestFakeButtonEvent 2 False,
                    XTestFakeButtonEvent 3 False, XSync]\<rparr>))"

definition send_key :: "32 word \<Rightarrow> bool \<Rightarrow> xstate \<Rightarrow> int \<times> xstate" where
  "send_key keycode is_press st =
     (if \<not> dpy st then (-1, st)
      else (0, issue XSync (issue (XTestFakeKeyEvent keycode is_press) st)))"

text \<open>The four clamping statements of \<open>move_mouse\<close>, for one coordinate.\<close>

definition clamp_coord :: "int \<Rightarrow> int \<Rightarrow> int" where
  "clamp_coord extent x0 =
     (let x = (if x0 < 0 then 0 else x0) in if x \<ge> extent then extent - 1 else x)"

definition move_mouse :: "int \<Rightarrow> int \<Rightarrow> xstate \<Rightarrow> int \<times> xstate" where
  "move_mouse x y st =
     (if \<not> dpy st then (-1, st)
      else (0, issue XSync (issue (XWarpPointer (clamp_coord (screen_w st) x) (clamp_coord (screen_h st) y)) st)))"

definition move_mouse_fake :: "int \<Rightarrow> int \<Rightarrow> xstate \<Rightarrow> int \<times> xstate" where
  "move_mouse_fake x y st =
     (if \<not> dpy st then (-1, st)
      else (0, issue XSync
             (issue (XTestFakeMotionEvent (clamp_coord (screen_w st) x) (clamp_coord (screen_h st) y)) st)))"

definition send_button :: "32 word \<Rightarrow> bool \<Rightarrow> xstate \<Rightarrow> int \<times> xstate" where
  "send_button button is_press st =
     (if \<not> dpy st then (-1, st)
      else (0, issue XSync (issue (XTestFakeButtonEvent button is_press) st)))"

text \<open>\<open>sscanf(s, "0x%lx", &hex) == 1\<close>: after the literal prefix, white space, a sign and a
  second prefix are accepted; the value wraps like \<open>strtoul\<close>.\<close>

definition c_space :: "char \<Rightarrow> bool" where
  "c_space c \<longleftrightarrow> c = CHR '' '' \<or> (9 \<le> byte c \<and> byte c \<le> 13)"

definition c_hex :: "char \<Rightarrow> bool" where
  "c_hex c \<longleftrightarrow> is_digit c \<or> (97 \<le> byte c \<and> byte c \<le> 102) \<or> (65 \<le> byte c \<and> byte c \<le> 70)"

definition c_hex_val :: "char \<Rightarrow> nat" where
  "c_hex_val c = (if is_digit c then byte c - 48 else if 97 \<le> byte c then byte c - 87 else byte c - 55)"

definition scan_0x_lx :: "string \<Rightarrow> nat option" where
  "scan_0x_lx s =
     (if \<not> HasPrefix s ''0x'' then None
      else let s1 = dropWhile c_space (drop 2 s);
               neg = HasPrefix s1 ''-'';
               s2 = (if neg \<or> HasPrefix s1 ''+'' then tl s1 else s1);
               s3 = (if (HasPrefix s2 ''0x'' \<or> HasPrefix s2 ''0X'') \<and> length s2 > 2 \<and> c_hex (s2 ! 2)
                     then drop 2 s2 else s2);
               ds = takeWhile c_hex s3;
               v = fold (\<lambda>c acc. acc * 16 + c_hex_val c) ds 0
           in if ds = [] then None
              else if v \<ge> 2 ^ 64 then Some (2 ^ 64 - 1)
              else Some (if neg then (2 ^ 64 - v) mod 2 ^ 64 else v))"

text \<open>\<open>C.CString\<close> copies the bytes and appends a NUL, so C sees the name up to its first NUL.\<close>

definition c_string :: "string \<Rightarrow> string" where
  "c_string s = takeWhile (\<lambda>c. c \<noteq> CHR 0x00) s"

definition keysym_to_keycode :: "xlib \<Rightarrow> string \<Rightarrow> xstate \<Rightarrow> 32 word \<times> xstate" where
  "keysym_to_keycode xl keysym_str st =
     (if \<not> dpy st then (0, st)
      else let ks0 = XStringToKeysym xl keysym_str;
               ks = (if ks0 = 0 then (case scan_0x_lx keysym_str of None \<Rightarrow> 0 | Some h \<Rightarrow> h) else ks0)
           in if ks = 0 then (0, st)
              else (ucast (XKeysymToKeycode xl (xlog st) ks), issue (XQuery ''XKeysymToKeycode'') st))"

definition query_pointer :: "xlib \<Rightarrow> xstate \<Rightarrow> (int \<times> int) option \<times> xstate" where
  "query_pointer xl st =
     (if \<not> dpy st then (None, st)
      else (XQueryPointer xl (xlog st), issue (XQuery ''XQueryPointer'') st))"

section \<open>Window properties\<close>

definition intern_dest_atoms :: "xstate \<Rightarrow> int \<times> xstate" where
  "intern_dest_atoms st =
     (if \<not> dpy st then (-1, st)
      else (0, (issue (XQuery ''XInternAtom'') st)\<lparr>dest_atoms_ready := True\<rparr>))"

text \<open>The check of a property reply in \<open>get_atom_list\<close> and \<open>refresh_client_list\<close>: the right type
  and 32-bit items, at most \<open>maxn\<close> of them.\<close>

definition list_reply :: "nat \<Rightarrow> nat \<Rightarrow> property_reply option \<Rightarrow> nat list option" where
  "list_reply want_type maxn rep =
     (case rep of
        None \<Rightarrow> None
      | Some p \<Rightarrow> if ptype p \<noteq> want_type \<or> pformat p \<noteq> 32 then None else Some (take maxn (pitems p)))"

text \<open>The predefined atoms of X11/Xatom.h.\<close>

definition XA_ATOM :: nat where "XA_ATOM = 4"
definition XA_CARDINAL :: nat where "XA_CARDINAL = 6"
definition XA_WINDOW :: nat where "XA_WINDOW = 33"

definition net_supported_has :: "xlib \<Rightarrow> string \<Rightarrow> xstate \<Rightarrow> int \<times> xstate" where
  "net_supported_has xl name st =
     (if \<not> dpy st \<or> \<not> dest_atoms_ready st then (-1, st)
      else let st1 = issue (XQuery ''_NET_SUPPORTED'') st in
        case list_reply XA_ATOM 256 (root_property xl (xlog st) (XInternAtom xl NetSupportedAtom)) of
          None \<Rightarrow> (0, st1)
        | Some atoms \<Rightarrow> (if XInternAtom xl name \<in> set atoms then 1 else 0, st1))"

definition refresh_client_list :: "xlib \<Rightarrow> xstate \<Rightarrow> xid list option \<times> xstate" where
  "refresh_client_list xl st =
     (if \<not> dpy st \<or> \<not> dest_atoms_ready st then (None, st)
      else (map_option (map of_nat)
              (list_reply XA_WINDOW 256 (root_property xl (xlog st) (XInternAtom xl NetClientListAtom))),
            issue (XQuery NetClientListAtom) st))"

definition window_geometry :: "xlib \<Rightarrow> xid \<Rightarrow> xstate \<Rightarrow> (int \<times> int \<times> int \<times> int) option \<times> xstate" where
  "window_geometry xl w st =
     (if \<not> dpy st \<or> w = 0 then (None, st)
      else let st1 = issue (XQuery ''XGetGeometry'') st in
        case XGetGeometry xl (xlog st) w of
          None \<Rightarrow> (None, st1)
        | Some (wr, hr) \<Rightarrow>
            let (rx, ry) = XTranslateCoordinates xl (xlog st1) w
            in (Some (rx, ry, wr, hr), issue (XQuery ''XTranslateCoordinates'') st1))"

definition window_pid :: "xlib \<Rightarrow> xid \<Rightarrow> xstate \<Rightarrow> 32 word \<times> xstate" where
  "window_pid xl w st =
     (if \<not> dpy st \<or> \<not> dest_atoms_ready st \<or> w = 0 then (0, st)
      else (case window_property xl (xlog st) w (XInternAtom xl NetWMPIDAtom) of
              None \<Rightarrow> 0
            | Some p \<Rightarrow>
                if ptype p = XA_CARDINAL \<and> pformat p = 32 \<and> pitems p \<noteq> [] then of_nat (hd (pitems p)) else 0,
            issue (XQuery NetWMPIDAtom) st))"

definition window_class :: "xlib \<Rightarrow> xid \<Rightarrow> xstate \<Rightarrow> string \<times> xstate" where
  "window_class xl w st =
     (if \<not> dpy st \<or> w = 0 then ([], st)
      else (case XGetClassHint xl (xlog st) w of
              None \<Rightarrow> []
            | Some None \<Rightarrow> []
            | Some (Some cls) \<Rightarrow> take 255 (c_string cls),
            issue (XQuery ''XGetClassHint'') st))"

definition window_name :: "xlib \<Rightarrow> xid \<Rightarrow> xstate \<Rightarrow> string \<times> xstate" where
  "window_name xl w st =
     (if \<not> dpy st \<or> w = 0 then ([], st)
      else let st1 = issue (XQuery NetWMNameAtom) st in
        case window_property xl (xlog st) w (XInternAtom xl NetWMNameAtom) of
          Some p \<Rightarrow>
            if ptype p = XInternAtom xl ''UTF8_STRING'' \<and> pformat p = 8 \<and> pitems p \<noteq> []
            then (c_string (take 255 (map char_of (pitems p))), st1)
            else (case XFetchName xl (xlog st1) w of None \<Rightarrow> [] | Some nm \<Rightarrow> take 255 (c_string nm),
                  issue (XQuery ''XFetchName'') st1)
        | None \<Rightarrow>
            (case XFetchName xl (xlog st1) w of None \<Rightarrow> [] | Some nm \<Rightarrow> take 255 (c_string nm),
             issue (XQuery ''XFetchName'') st1))"

definition window_has_fullscreen :: "xlib \<Rightarrow> xid \<Rightarrow> xstate \<Rightarrow> bool \<times> xstate" where
  "window_has_fullscreen xl w st =
     (if \<not> dpy st \<or> \<not> dest_atoms_ready st \<or> w = 0 then (False, st)
      else (case list_reply XA_ATOM 32 (window_property xl (xlog st) w (XInternAtom xl NetWMStateAtom)) of
              None \<Rightarrow> False
            | Some atoms \<Rightarrow> XInternAtom xl NetWMStateFullscreenAtom \<in> set atoms,
            issue (XQuery NetWMStateAtom) st))"

definition get_active_xid :: "xlib \<Rightarrow> xstate \<Rightarrow> xid \<times> xstate" where
  "get_active_xid xl st =
     (if \<not> dpy st \<or> \<not> dest_atoms_ready st then (0, st)
      else (case root_property xl (xlog st) (XInternAtom xl NetActiveWindowAtom) of
              None \<Rightarrow> 0
            | Some p \<Rightarrow>
                if ptype p = XA_WINDOW \<and> pformat p = 32 \<and> pitems p \<noteq> [] then of_nat (hd (pitems p)) else 0,
            issue (XQuery NetActiveWindowAtom) st))"

section \<open>Window messages\<close>

text \<open>\<open>XSendEvent\<close> returns zero when the event could not be converted; nothing is sent then.\<close>

definition send_client_message :: "xlib \<Rightarrow> client_message \<Rightarrow> xstate \<Rightarrow> int \<times> xstate" where
  "send_client_message xl cm st =
     (if XSendEvent_ok xl (xlog st) then (0, issue XSync (issue (XSendEvent cm) st))
      else (-1, issue XSync st))"

definition send_net_active :: "xlib \<Rightarrow> xid \<Rightarrow> xstate \<Rightarrow> int \<times> xstate" where
  "send_net_active xl w st =
     (if \<not> dpy st \<or> \<not> dest_atoms_ready st \<or> w = 0 then (-1, st)
      else let (cur, st1) = get_active_xid xl st in
        send_client_message xl \<lparr>cm_window = w, cm_type = XInternAtom xl NetActiveWindowAtom,
          cm_data = [2, 0, uint cur, 0, 0], cm_mask = ActivateEventMask\<rparr> st1)"

definition send_net_wm_state_fs :: "xlib \<Rightarrow> xid \<Rightarrow> bool \<Rightarrow> xstate \<Rightarrow> int \<times> xstate" where
  "send_net_wm_state_fs xl w add st =
     (if \<not> dpy st \<or> \<not> dest_atoms_ready st \<or> w = 0 then (-1, st)
      else send_client_message xl \<lparr>cm_window = w, cm_type = XInternAtom xl NetWMStateAtom,
          cm_data = [if add then 1 else 0, int (XInternAtom xl NetWMStateFullscreenAtom), 0, 2, 0],
          cm_mask = ActivateEventMask\<rparr> st)"

definition set_input_focus :: "xid \<Rightarrow> xstate \<Rightarrow> int \<times> xstate" where
  "set_input_focus w st =
     (if \<not> dpy st \<or> w = 0 then (-1, st) else (0, issue XSync (issue (XSetInputFocus w) st)))"

section \<open>The Go wrappers\<close>

text \<open>\<open>C.uint\<close> truncates to 32 bits, \<open>C.int\<close> wraps into the signed 32-bit range.\<close>

definition C_int :: "go_int \<Rightarrow> int" where
  "C_int x = signed_take_bit 31 x"

definition initDisplay :: "xlib \<Rightarrow> xstate \<Rightarrow> int \<times> xstate" where
  "initDisplay xl st = init_display xl st"

definition closeDisplay :: "xstate \<Rightarrow> xstate" where
  "closeDisplay st = close_display st"

definition releaseAll :: "xlib \<Rightarrow> xstate \<Rightarrow> int \<times> xstate" where
  "releaseAll xl st = release_all xl st"

definition sendKey :: "go_uint \<Rightarrow> bool \<Rightarrow> xstate \<Rightarrow> int \<times> xstate" where
  "sendKey keycode press st = send_key (ucast keycode) press st"

definition moveMouse :: "go_int \<Rightarrow> go_int \<Rightarrow> xstate \<Rightarrow> int \<times> xstate" where
  "moveMouse x y st = move_mouse (C_int x) (C_int y) st"

definition moveMouseFake :: "go_int \<Rightarrow> go_int \<Rightarrow> xstate \<Rightarrow> int \<times> xstate" where
  "moveMouseFake x y st = move_mouse_fake (C_int x) (C_int y) st"

definition sendButton :: "go_uint \<Rightarrow> bool \<Rightarrow> xstate \<Rightarrow> int \<times> xstate" where
  "sendButton button press st = send_button (ucast button) press st"

definition keysymToKeycode :: "xlib \<Rightarrow> string \<Rightarrow> xstate \<Rightarrow> go_uint \<times> xstate" where
  "keysymToKeycode xl name st = apfst ucast (keysym_to_keycode xl (c_string name) st)"

definition internDestAtoms :: "xstate \<Rightarrow> int \<times> xstate" where
  "internDestAtoms st = intern_dest_atoms st"

definition netSupportedHas :: "xlib \<Rightarrow> string \<Rightarrow> xstate \<Rightarrow> int \<times> xstate" where
  "netSupportedHas xl name st = net_supported_has xl (c_string name) st"

text \<open>\<open>(nil, -1)\<close> is \<open>None\<close>; a list and \<open>0\<close> is \<open>Some\<close>.\<close>

definition refreshClientList :: "xlib \<Rightarrow> xstate \<Rightarrow> xid list option \<times> xstate" where
  "refreshClientList xl st = refresh_client_list xl st"

definition windowGeometry :: "xlib \<Rightarrow> xid \<Rightarrow> xstate \<Rightarrow> (int \<times> int \<times> int \<times> int) option \<times> xstate" where
  "windowGeometry xl w st = window_geometry xl w st"

definition displayGeometry :: "xstate \<Rightarrow> go_int \<times> go_int" where
  "displayGeometry st = (display_width st, display_height st)"

definition windowPID :: "xlib \<Rightarrow> xid \<Rightarrow> xstate \<Rightarrow> go_uint32 \<times> xstate" where
  "windowPID xl w st = window_pid xl w st"

definition windowClass :: "xlib \<Rightarrow> xid \<Rightarrow> xstate \<Rightarrow> string \<times> xstate" where
  "windowClass xl w st = window_class xl w st"

definition windowName :: "xlib \<Rightarrow> xid \<Rightarrow> xstate \<Rightarrow> string \<times> xstate" where
  "windowName xl w st = window_name xl w st"

definition windowHasFullscreen :: "xlib \<Rightarrow> xid \<Rightarrow> xstate \<Rightarrow> bool \<times> xstate" where
  "windowHasFullscreen xl w st = window_has_fullscreen xl w st"

definition sendNetActive :: "xlib \<Rightarrow> xid \<Rightarrow> xstate \<Rightarrow> int \<times> xstate" where
  "sendNetActive xl w st = send_net_active xl w st"

definition sendNetWMStateFS :: "xlib \<Rightarrow> xid \<Rightarrow> bool \<Rightarrow> xstate \<Rightarrow> int \<times> xstate" where
  "sendNetWMStateFS xl w add st = send_net_wm_state_fs xl w add st"

definition setInputFocus :: "xid \<Rightarrow> xstate \<Rightarrow> int \<times> xstate" where
  "setInputFocus w st = set_input_focus w st"

definition getActiveXID :: "xlib \<Rightarrow> xstate \<Rightarrow> xid \<times> xstate" where
  "getActiveXID xl st = get_active_xid xl st"

definition queryPointer :: "xlib \<Rightarrow> xstate \<Rightarrow> (int \<times> int) option \<times> xstate" where
  "queryPointer xl st = query_pointer xl st"

section \<open>Requests that are input\<close>

text \<open>Every request but synchronisation and queries changes what the display does.\<close>

fun is_input :: "xreq \<Rightarrow> bool" where
  "is_input XSync = False"
| "is_input (XQuery q) = False"
| "is_input _ = True"

definition inputs :: "xstate \<Rightarrow> xreq list" where
  "inputs st = filter is_input (xlog st)"

abbreviation screen :: "xstate \<Rightarrow> int \<times> int" where
  "screen st \<equiv> (screen_w st, screen_h st)"

text \<open>Queries: nothing is submitted and the display stays as it is.\<close>

definition quiet :: "xstate \<Rightarrow> xstate \<Rightarrow> bool" where
  "quiet st st' \<longleftrightarrow> inputs st' = inputs st \<and> screen st' = screen st \<and> dpy st' = dpy st
     \<and> (dest_atoms_ready st \<longrightarrow> dest_atoms_ready st')"

named_theorems quiet_intros "functions that only query the server"

lemma quiet_refl [simp, quiet_intros]: "quiet st st"
  by (simp add: quiet_def)

lemma quiet_trans: "quiet st st' \<Longrightarrow> quiet st' st'' \<Longrightarrow> quiet st st''"
  by (simp add: quiet_def)

lemma quiet_issue [simp]: "\<not> is_input r \<Longrightarrow> quiet st (issue r st)"
  by (simp add: quiet_def issue_def inputs_def)

lemma quiet_keysym [quiet_intros]: "keysymToKeycode xl name st = (kc, st') \<Longrightarrow> quiet st st'"
  by (auto simp: keysymToKeycode_def keysym_to_keycode_def Let_def split: if_splits)

lemma quiet_pointer [quiet_intros]: "queryPointer xl st = (p, st') \<Longrightarrow> quiet st st'"
  by (auto simp: queryPointer_def query_pointer_def split: if_splits)

lemma quiet_atoms [quiet_intros]: "internDestAtoms st = (n, st') \<Longrightarrow> quiet st st'"
  by (auto simp: internDestAtoms_def intern_dest_atoms_def quiet_def issue_def inputs_def split: if_splits)

lemma quiet_supported [quiet_intros]: "netSupportedHas xl a st = (n, st') \<Longrightarrow> quiet st st'"
  by (auto simp: netSupportedHas_def net_supported_has_def Let_def split: if_splits option.splits)

lemma quiet_client_list [quiet_intros]: "refreshClientList xl st = (l, st') \<Longrightarrow> quiet st st'"
  by (auto simp: refreshClientList_def refresh_client_list_def split: if_splits)

lemma quiet_geometry [quiet_intros]: "windowGeometry xl w st = (g, st') \<Longrightarrow> quiet st st'"
  by (auto simp: windowGeometry_def window_geometry_def Let_def split: if_splits option.splits prod.splits
      intro: quiet_trans [OF quiet_issue quiet_issue])

lemma quiet_pid [quiet_intros]: "windowPID xl w st = (p, st') \<Longrightarrow> quiet st st'"
  by (auto simp: windowPID_def window_pid_def split: if_splits)

lemma quiet_class [quiet_intros]: "windowClass xl w st = (c, st') \<Longrightarrow> quiet st st'"
  by (auto simp: windowClass_def window_class_def split: if_splits)

lemma quiet_name [quiet_intros]: "windowName xl w st = (n, st') \<Longrightarrow> quiet st st'"
  by (auto simp: windowName_def window_name_def Let_def split: if_splits option.splits
      intro: quiet_trans [OF quiet_issue quiet_issue])

lemma quiet_fullscreen [quiet_intros]: "windowHasFullscreen xl w st = (b, st') \<Longrightarrow> quiet st st'"
  by (auto simp: windowHasFullscreen_def window_has_fullscreen_def split: if_splits)

lemma quiet_active [quiet_intros]: "getActiveXID xl st = (w, st') \<Longrightarrow> quiet st st'"
  by (auto simp: getActiveXID_def get_active_xid_def split: if_splits)

section \<open>Keys, buttons and locks on the display\<close>

text \<open>What the fake events of a log leave pressed.\<close>

fun x_down :: "xreq list \<Rightarrow> 32 word set \<times> 32 word set \<Rightarrow> 32 word set \<times> 32 word set" where
  "x_down [] h = h"
| "x_down (XTestFakeKeyEvent kc p # rs) (ks, bs) = x_down rs (if p then insert kc ks else ks - {kc}, bs)"
| "x_down (XTestFakeButtonEvent b p # rs) (ks, bs) = x_down rs (ks, if p then insert b bs else bs - {b})"
| "x_down (r # rs) h = x_down rs h"

definition keys_down :: "xreq list \<Rightarrow> 32 word set" where "keys_down lg = fst (x_down lg ({}, {}))"
definition buttons_down :: "xreq list \<Rightarrow> 32 word set" where "buttons_down lg = snd (x_down lg ({}, {}))"

lemma x_down_append: "x_down (rs @ rs') h = x_down rs' (x_down rs h)"
  by (induction rs h rule: x_down.induct) simp_all

lemma x_down_key_ups: "x_down (map (\<lambda>kc. XTestFakeKeyEvent (f kc) False) kcs) (ks, bs) = (ks - f ` set kcs, bs)"
  by (induction kcs arbitrary: ks) auto

lemma down_append_other [simp]:
  "keys_down (lg @ [XQuery q]) = keys_down lg" "buttons_down (lg @ [XQuery q]) = buttons_down lg"
  by (cases "x_down lg ({}, {})"; simp add: keys_down_def buttons_down_def x_down_append)+

section \<open>A sample display\<close>

text \<open>Two managed windows and a window manager that supports what the daemon asks for; the key map
  reports the keys whose last fake event was a press.\<close>

definition keymap_bytes :: "(nat \<Rightarrow> bool) \<Rightarrow> 8 word list" where
  "keymap_bytes P = map (\<lambda>i. horner_sum of_bool 2 (map (\<lambda>j. P (8 * i + j)) [0..<8])) [0..<32]"

lemma key_bit_keymap_bytes: "kc < 256 \<Longrightarrow> key_bit (keymap_bytes P) kc = P kc"
  by (simp add: key_bit_def keymap_bytes_def bit_horner_sum_bit_word_iff nth_append less_mult_imp_div_less)

definition sample_keymap :: "xreq list \<Rightarrow> 8 word list" where
  "sample_keymap lg = keymap_bytes (\<lambda>kc. of_nat kc \<in> keys_down lg)"

definition sample_xlib :: xlib where
  "sample_xlib = \<lparr>XInitThreads = True, XOpenDisplay = (\<lambda>i. i = 0), has_XWAYLAND = False,
     DisplayWidth = 1280, DisplayHeight = 720,
     XStringToKeysym = (\<lambda>s. if s = ''F1'' then 65470 else 0),
     XKeysymToKeycode = (\<lambda>lg ks. if ks = 65470 then 67 else 0),
     XQueryKeymap = sample_keymap,
     XInternAtom = (\<lambda>s. 100 + length s),
     root_property = (\<lambda>lg a. if a = 114 then Some \<lparr>ptype = 4, pformat = 32, pitems = [116, 118, 113, 124]\<rparr>
        else if a = 116 then Some \<lparr>ptype = 33, pformat = 32, pitems = [4194307, 4194309]\<rparr>
        else if a = 118 then Some \<lparr>ptype = 33, pformat = 32, pitems = [4194307]\<rparr> else None),
     window_property = (\<lambda>lg w a. if a = 111 then Some \<lparr>ptype = 6, pformat = 32, pitems = [1234]\<rparr> else None),
     XGetGeometry = (\<lambda>lg w. Some (640, 480)), XTranslateCoordinates = (\<lambda>lg w. (10, 20)),
     XGetClassHint = (\<lambda>lg w. Some (Some ''Game'')), XFetchName = (\<lambda>lg w. Some ''Game''),
     XSendEvent_ok = (\<lambda>lg. True), XQueryPointer = (\<lambda>lg. Some (0, 0)),
     polls_before_deadline = (\<lambda>lg. 3)\<rparr>"

definition sample_xstate :: xstate where
  "sample_xstate = \<lparr>dpy = True, dest_atoms_ready = True, screen_w = 1280, screen_h = 720, xlog = []\<rparr>"

section \<open>Release, locks and motion\<close>

lemma release_all_down:
  assumes "dpy st" "keys_down (xlog st) \<subseteq> of_nat ` {kc. kc < 256 \<and> key_bit (XQueryKeymap xl (xlog st)) kc}"
  shows "fst (release_all xl st) = 0 \<and> keys_down (xlog (snd (release_all xl st))) = {}
     \<and> buttons_down (xlog (snd (release_all xl st))) = buttons_down (xlog st) - {1, 2, 3}"
proof -
  let ?ks = "XQueryKeymap xl (xlog st)"
  obtain K B where KB: "x_down (xlog st) ({}, {}) = (K, B)" by force
  have "x_down (xlog (snd (release_all xl st))) ({}, {})
      = (K - of_nat ` {kc. kc < 256 \<and> key_bit ?ks kc}, B - {1} - {2} - {3})"
    using assms(1) KB by (simp add: release_all_def issue_def x_down_append key_ups_of_def x_down_key_ups
        atLeast0LessThan lessThan_def Collect_conj_eq Int_commute)
  with assms KB show ?thesis
    by (auto simp: keys_down_def buttons_down_def release_all_def Let_def)
qed



text \<open>A lock such as Caps Lock changes at each press of its key.\<close>

definition lock_on :: "32 word \<Rightarrow> bool \<Rightarrow> xreq list \<Rightarrow> bool" where
  "lock_on kc start lg \<longleftrightarrow> start \<noteq> odd (length (filter (\<lambda>r. r = XTestFakeKeyEvent kc True) lg))"


text \<open>(C32) Pointer motion stays on the screen: on an open display with a positive extent every
  \<open>move_mouse\<close> and \<open>move_mouse_fake\<close>, whatever the coordinates, submits one motion to a point of the
  screen, and to the requested point when that is on the screen.\<close>

theorem move_mouse_on_screen:
  assumes "dpy st" "0 < screen_w st" "0 < screen_h st"
  shows "\<exists>px py. 0 \<le> px \<and> px < screen_w st \<and> 0 \<le> py \<and> py < screen_h st
     \<and> inputs (snd (moveMouse x y st)) = inputs st @ [XWarpPointer px py]
     \<and> inputs (snd (moveMouseFake x y st)) = inputs st @ [XTestFakeMotionEvent px py]
     \<and> (0 \<le> C_int x \<and> C_int x < screen_w st \<longrightarrow> px = C_int x)
     \<and> (0 \<le> C_int y \<and> C_int y < screen_h st \<longrightarrow> py = C_int y)"
  using assms
  by (intro exI [of _ "clamp_coord (screen_w st) (C_int x)"] exI [of _ "clamp_coord (screen_h st) (C_int y)"])
     (auto simp: moveMouse_def move_mouse_def moveMouseFake_def move_mouse_fake_def issue_def inputs_def
      clamp_coord_def Let_def)

theorem move_mouse_on_screen_witness:
  "\<exists>px py. inputs (snd (moveMouse 5000 (-3) sample_xstate)) = [XWarpPointer px py] \<and> 0 \<le> px \<and> px < 1280
     \<and> 0 \<le> py \<and> py < 720"
  using move_mouse_on_screen [of sample_xstate 5000 "-3"]
  by (auto simp: sample_xstate_def inputs_def)

section \<open>The display without cgo\<close>

text \<open>x11_nocgo.go: the same wrappers without Xlib. Each is the constant its body returns.\<close>

definition nocgo_initDisplay :: int where "nocgo_initDisplay = -1"
definition nocgo_closeDisplay :: "xstate \<Rightarrow> xstate" where "nocgo_closeDisplay st = st"
definition nocgo_releaseAll :: int where "nocgo_releaseAll = -1"
definition nocgo_sendKey :: "go_uint \<Rightarrow> bool \<Rightarrow> int" where "nocgo_sendKey keycode press = -1"
definition nocgo_moveMouse :: "go_int \<Rightarrow> go_int \<Rightarrow> int" where "nocgo_moveMouse x y = -1"
definition nocgo_sendButton :: "go_uint \<Rightarrow> bool \<Rightarrow> int" where "nocgo_sendButton button press = -1"
definition nocgo_keysymToKeycode :: "string \<Rightarrow> go_uint" where "nocgo_keysymToKeycode name = 0"
definition nocgo_internDestAtoms :: int where "nocgo_internDestAtoms = -1"
definition nocgo_netSupportedHas :: "string \<Rightarrow> int" where "nocgo_netSupportedHas name = -1"
definition nocgo_refreshClientList :: "xid list option" where "nocgo_refreshClientList = None"
definition nocgo_windowGeometry :: "xid \<Rightarrow> (int \<times> int \<times> int \<times> int) option" where
  "nocgo_windowGeometry w = None"
definition nocgo_displayGeometry :: "go_int \<times> go_int" where "nocgo_displayGeometry = (0, 0)"
definition nocgo_windowPID :: "xid \<Rightarrow> go_uint32" where "nocgo_windowPID w = 0"
definition nocgo_windowClass :: "xid \<Rightarrow> string" where "nocgo_windowClass w = []"
definition nocgo_windowName :: "xid \<Rightarrow> string" where "nocgo_windowName w = []"
definition nocgo_windowHasFullscreen :: "xid \<Rightarrow> bool" where "nocgo_windowHasFullscreen w = False"
definition nocgo_sendNetActive :: "xid \<Rightarrow> int" where "nocgo_sendNetActive w = -1"
definition nocgo_sendNetWMStateFS :: "xid \<Rightarrow> bool \<Rightarrow> int" where "nocgo_sendNetWMStateFS w add = -1"
definition nocgo_setInputFocus :: "xid \<Rightarrow> int" where "nocgo_setInputFocus w = -1"
definition nocgo_getActiveXID :: xid where "nocgo_getActiveXID = 0"
definition nocgo_queryPointer :: "(int \<times> int) option" where "nocgo_queryPointer = None"
definition nocgo_moveMouseFake :: "go_int \<Rightarrow> go_int \<Rightarrow> int" where "nocgo_moveMouseFake x y = -1"

lemmas nocgo_defs = nocgo_initDisplay_def nocgo_closeDisplay_def nocgo_releaseAll_def nocgo_sendKey_def nocgo_moveMouse_def
  nocgo_sendButton_def nocgo_keysymToKeycode_def nocgo_internDestAtoms_def nocgo_netSupportedHas_def
  nocgo_refreshClientList_def nocgo_windowGeometry_def nocgo_displayGeometry_def nocgo_windowPID_def
  nocgo_windowClass_def nocgo_windowName_def nocgo_windowHasFullscreen_def nocgo_sendNetActive_def
  nocgo_sendNetWMStateFS_def nocgo_setInputFocus_def nocgo_getActiveXID_def nocgo_queryPointer_def
  nocgo_moveMouseFake_def

lemmas wrapper_defs = closeDisplay_def close_display_def releaseAll_def release_all_def sendKey_def send_key_def moveMouse_def move_mouse_def
  moveMouseFake_def move_mouse_fake_def sendButton_def send_button_def keysymToKeycode_def
  keysym_to_keycode_def internDestAtoms_def intern_dest_atoms_def netSupportedHas_def
  net_supported_has_def refreshClientList_def refresh_client_list_def windowGeometry_def
  window_geometry_def windowPID_def window_pid_def windowClass_def window_class_def windowName_def
  window_name_def windowHasFullscreen_def window_has_fullscreen_def sendNetActive_def
  send_net_active_def sendNetWMStateFS_def send_net_wm_state_fs_def setInputFocus_def
  set_input_focus_def getActiveXID_def get_active_xid_def queryPointer_def query_pointer_def



end
