(* ===== verification/DestBackend.thy ===== *)
theory DestBackend
  imports X11 DestConn
begin

text \<open>
  The live backend of cmd/xtest-server/dest.go: \<open>xDestBackend\<close> over the Xlib wrappers of x11.go.
  Every method runs as one job on the X owner thread under the process-global mutex, so a method
  is one atomic step on the state. The theory shows that the live backend keeps the contract of
  the request path: what it submits to the X server is exactly what its results say.
\<close>

section \<open>State\<close>

record dest_state =
  xs :: xstate
  displayGen :: go_uint64
  observeGen :: go_uint64
  listHash :: go_uint64

definition destBackend :: "xstate \<Rightarrow> dest_state" where
  "destBackend st =
     \<lparr>xs = snd (internDestAtoms st), displayGen = 1, observeGen = 1, listHash = 0\<rparr>"

definition with_x :: "(xstate \<Rightarrow> 'a \<times> xstate) \<Rightarrow> dest_state \<Rightarrow> 'a \<times> dest_state" where
  "with_x f d = (let (r, st) = f (xs d) in (r, d\<lparr>xs := st\<rparr>))"

definition xerr :: "int \<Rightarrow> go_error option" where
  "xerr n = (if n \<noteq> 0 then Some ErrXCall else None)"

section \<open>Input methods\<close>

definition dest_KeycodeFor :: "xlib \<Rightarrow> string \<Rightarrow> dest_state \<Rightarrow> go_uint \<times> dest_state" where
  "dest_KeycodeFor xl name d = with_x (keysymToKeycode xl name) d"

text \<open>\<open>waitPointer\<close> polls the pointer until it is where it was asked to be or the deadline has
  passed; \<open>n\<close> is the number of polls the clock admits.\<close>

fun waitPointer :: "xlib \<Rightarrow> go_int \<Rightarrow> go_int \<Rightarrow> nat \<Rightarrow> xstate \<Rightarrow> xstate" where
  "waitPointer xl x y 0 st = st"
| "waitPointer xl x y (Suc n) st =
     (case queryPointer xl st of
        (Some (px, py), st') \<Rightarrow> if px = x \<and> py = y then st' else waitPointer xl x y n st'
      | (None, st') \<Rightarrow> waitPointer xl x y n st')"

definition MinInt32 :: int where "MinInt32 = -2147483648"
definition MaxInt32 :: int where "MaxInt32 = 2147483647"

definition dest_WarpMouse :: "xlib \<Rightarrow> go_int \<Rightarrow> go_int \<Rightarrow> dest_state \<Rightarrow> go_error option \<times> dest_state" where
  "dest_WarpMouse xl x y d =
     (if x < MinInt32 \<or> x > MaxInt32 \<or> y < MinInt32 \<or> y > MaxInt32 then (Some ErrCoordOutOfRange, d)
      else let (n, st) = moveMouse x y (xs d) in
        case xerr n of
          Some e \<Rightarrow> (Some e, d\<lparr>xs := st\<rparr>)
        | None \<Rightarrow> (None, d\<lparr>xs := waitPointer xl x y (polls_before_deadline xl (xlog st)) st\<rparr>))"

definition dest_SendKey :: "go_uint \<Rightarrow> bool \<Rightarrow> dest_state \<Rightarrow> go_error option \<times> dest_state" where
  "dest_SendKey keycode press d = apfst xerr (with_x (sendKey keycode press) d)"

definition dest_SendButton :: "go_uint \<Rightarrow> bool \<Rightarrow> dest_state \<Rightarrow> go_error option \<times> dest_state" where
  "dest_SendButton button press d = apfst xerr (with_x (sendButton button press) d)"

definition dest_ScreenGeometry :: "dest_state \<Rightarrow> (go_error + go_int \<times> go_int) \<times> dest_state" where
  "dest_ScreenGeometry d =
     (let (width, height) = displayGeometry (xs d) in
      if width \<le> 0 \<or> height \<le> 0 then (Inl ErrUnavailable, d) else (Inr (width, height), d))"

section \<open>Window methods\<close>

text \<open>FNV-1a over the little-endian bytes of the window wids, as hash/fnv computes it.\<close>

definition fnv_byte :: "64 word \<Rightarrow> 8 word \<Rightarrow> 64 word" where
  "fnv_byte h c = (xor h (ucast c)) * 1099511628211"

definition le_bytes :: "go_uint32 \<Rightarrow> 8 word list" where
  "le_bytes w = [ucast w, ucast (drop_bit 8 w), ucast (drop_bit 16 w), ucast (drop_bit 24 w)]"

definition list_sum :: "xid list \<Rightarrow> go_uint64" where
  "list_sum xids = fold (\<lambda>wid h. foldl fnv_byte h (le_bytes wid)) xids 14695981039346656037"

text \<open>The readiness checks shared by the window methods: atoms interned, the needed atoms among
  the window manager's supported ones.\<close>

fun atoms_supported :: "xlib \<Rightarrow> string list \<Rightarrow> xstate \<Rightarrow> bool \<times> xstate" where
  "atoms_supported xl [] st = (True, st)"
| "atoms_supported xl (a # as) st =
     (let (n, st') = netSupportedHas xl a st in
      if n \<noteq> 1 then (False, st') else atoms_supported xl as st')"

definition window_ready :: "xlib \<Rightarrow> string list \<Rightarrow> xstate \<Rightarrow> bool \<times> xstate" where
  "window_ready xl atoms st =
     (let (n, st1) = internDestAtoms st in
      if n \<noteq> 0 then (False, st1) else atoms_supported xl atoms st1)"

text \<open>One window of an inspection: its class, PID, name, geometry and state, asked in this order.\<close>

definition inspect_window :: "xlib \<Rightarrow> go_uint64 \<Rightarrow> go_uint64 \<Rightarrow> xid \<Rightarrow> xstate \<Rightarrow> WindowInfo \<times> xstate" where
  "inspect_window xl dgen ogen wid st =
     (let (cls, st1) = windowClass xl wid st;
          (pid, st2) = windowPID xl wid st1;
          (nm, st3) = windowName xl wid st2;
          (geo, st4) = windowGeometry xl wid st3;
          (fs, st5) = windowHasFullscreen xl wid st4;
          (x, y, w, h) = (case geo of Some g \<Rightarrow> g | None \<Rightarrow> (0, 0, 0, 0))
      in (\<lparr>wXID = wid, wClass = cls, wPID = pid, wName = nm, wX = x, wY = y, wWidth = w, wHeight = h,
           wState = (if fs then [NetWMStateFullscreenAtom] else []),
           wDisplayGen = dgen, wObserveGen = ogen\<rparr>, st5))"

fun inspect_windows :: "xlib \<Rightarrow> go_uint64 \<Rightarrow> go_uint64 \<Rightarrow> xid list \<Rightarrow> xstate \<Rightarrow> WindowInfo list \<times> xstate" where
  "inspect_windows xl dgen ogen [] st = ([], st)"
| "inspect_windows xl dgen ogen (wid # wids) st =
     (let (w, st1) = inspect_window xl dgen ogen wid st;
          (ws, st2) = inspect_windows xl dgen ogen wids st1
      in (w # ws, st2))"

definition dest_ManagedClients :: "xlib \<Rightarrow> dest_state \<Rightarrow> (go_error + WindowInfo list) \<times> dest_state" where
  "dest_ManagedClients xl d =
     (let (ready, st1) = window_ready xl [NetClientListAtom] (xs d) in
      if \<not> ready then (Inl ErrUnavailable, d\<lparr>xs := st1\<rparr>)
      else let (list, st2) = refreshClientList xl st1 in
        case list of
          None \<Rightarrow> (Inl ErrUnavailable, d\<lparr>xs := st2\<rparr>)
        | Some xids \<Rightarrow>
            let sum = list_sum xids;
                ogen = (if listHash d \<noteq> 0 \<and> sum \<noteq> listHash d then observeGen d + 1 else observeGen d);
                (ws, st3) = inspect_windows xl (displayGen d) ogen xids st2
            in (Inr ws, d\<lparr>xs := st3, observeGen := ogen, listHash := sum\<rparr>))"

text \<open>The checks on class and PID at the end of \<open>Revalidate\<close>.\<close>

definition identity_check :: "xlib \<Rightarrow> WindowRef \<Rightarrow> xstate \<Rightarrow> go_error option \<times> xstate" where
  "identity_check xl ref st =
     (let (cls_ok, st1) =
            (if ExpectedClass ref = [] then (True, st)
             else let (cls, st1) = windowClass xl (XID ref) st in (cls = ExpectedClass ref, st1))
      in if \<not> cls_ok then (Some ErrRefMismatch, st1)
         else let (pid_ok, st2) =
                (if ExpectedPID ref = 0 then (True, st1)
                 else let (pid, st2) = windowPID xl (XID ref) st1 in (pid = ExpectedPID ref, st2))
              in (if pid_ok then None else Some ErrRefMismatch, st2))"

definition dest_Revalidate :: "xlib \<Rightarrow> WindowRef \<Rightarrow> dest_state \<Rightarrow> go_error option \<times> dest_state" where
  "dest_Revalidate xl ref d =
     (let (ready, st1) = window_ready xl [NetClientListAtom] (xs d) in
      if \<not> ready then (Some ErrUnavailable, d\<lparr>xs := st1\<rparr>)
      else let (list, st2) = refreshClientList xl st1 in
        case list of
          None \<Rightarrow> (Some ErrUnavailable, d\<lparr>xs := st2\<rparr>)
        | Some xids \<Rightarrow>
            let sum = list_sum xids in
            if listHash d \<noteq> 0 \<and> sum \<noteq> listHash d
            then (Some ErrRefMismatch, d\<lparr>xs := st2, observeGen := observeGen d + 1, listHash := sum\<rparr>)
            else let d2 = d\<lparr>xs := st2, listHash := sum\<rparr> in
              if DisplayGen ref \<noteq> displayGen d \<or> ObserveGen ref \<noteq> observeGen d then (Some ErrRefMismatch, d2)
              else if XID ref \<notin> set xids then (Some ErrRefMismatch, d2)
              else let (r, st3) = identity_check xl ref st2 in (r, d2\<lparr>xs := st3\<rparr>))"

definition dest_ActivateAlwaysBoth :: "xlib \<Rightarrow> WindowRef \<Rightarrow> dest_state \<Rightarrow> go_error option \<times> dest_state" where
  "dest_ActivateAlwaysBoth xl ref d =
     (let (ready, st1) = window_ready xl [NetActiveWindowAtom] (xs d) in
      if \<not> ready then (Some ErrUnavailable, d\<lparr>xs := st1\<rparr>)
      else let (n, st2) = sendNetActive xl (XID ref) st1 in
        if n \<noteq> 0 then (Some ErrXCall, d\<lparr>xs := st2\<rparr>)
        else let (m, st3) = setInputFocus (XID ref) st2 in
          (if m \<noteq> 0 then Some ErrXCall else None, d\<lparr>xs := st3\<rparr>))"

definition dest_SetFullscreen :: "xlib \<Rightarrow> WindowRef \<Rightarrow> bool \<Rightarrow> dest_state \<Rightarrow> go_error option \<times> dest_state" where
  "dest_SetFullscreen xl ref add d =
     (let (ready, st1) = window_ready xl [NetWMStateAtom, NetWMStateFullscreenAtom] (xs d) in
      if \<not> ready then (Some ErrUnavailable, d\<lparr>xs := st1\<rparr>)
      else let (n, st2) = sendNetWMStateFS xl (XID ref) add st1 in (xerr n, d\<lparr>xs := st2\<rparr>))"

definition dest_ActiveWindow :: "xlib \<Rightarrow> dest_state \<Rightarrow> (go_error + go_uint32) \<times> dest_state" where
  "dest_ActiveWindow xl d =
     (let (ready, st1) = window_ready xl [NetActiveWindowAtom] (xs d) in
      if \<not> ready then (Inl ErrUnavailable, d\<lparr>xs := st1\<rparr>)
      else let (w, st2) = getActiveXID xl st1 in (Inr w, d\<lparr>xs := st2\<rparr>))"

definition dest_backend :: "xlib \<Rightarrow> dest_state Backend" where
  "dest_backend xl = \<lparr>KeycodeFor = dest_KeycodeFor xl, WarpMouse = dest_WarpMouse xl,
     SendKey = dest_SendKey, SendButton = dest_SendButton, ScreenGeometry = dest_ScreenGeometry,
     ManagedClients = dest_ManagedClients xl, Revalidate = dest_Revalidate xl,
     ActivateAlwaysBoth = dest_ActivateAlwaysBoth xl, SetFullscreen = dest_SetFullscreen xl,
     ActiveWindow = dest_ActiveWindow xl\<rparr>"

section \<open>The events of the live backend\<close>

text \<open>The request that submits an event: coordinates are clamped to the screen, keycodes and
  buttons are truncated to C's \<open>unsigned int\<close>, window messages carry the EWMH constants.\<close>

fun x_matches :: "xlib \<Rightarrow> int \<times> int \<Rightarrow> input_event \<Rightarrow> xreq \<Rightarrow> bool" where
  "x_matches xl (w, h) (EvWarp x y) r = (r = XWarpPointer (clamp_coord w x) (clamp_coord h y))"
| "x_matches xl wh (EvKey kc p) r = (r = XTestFakeKeyEvent (ucast kc) p)"
| "x_matches xl wh (EvButton btn p) r = (r = XTestFakeButtonEvent (ucast btn) p)"
| "x_matches xl wh (EvActivate x) r =
     (\<exists>cur. r = XSendEvent \<lparr>cm_window = x, cm_type = XInternAtom xl NetActiveWindowAtom,
        cm_data = [2, 0, cur, 0, 0], cm_mask = ActivateEventMask\<rparr>)"
| "x_matches xl wh (EvFocus x) r = (r = XSetInputFocus x)"
| "x_matches xl wh (EvFullscreen x add) r =
     (r = XSendEvent \<lparr>cm_window = x, cm_type = XInternAtom xl NetWMStateAtom,
        cm_data = [if add then 1 else 0, int (XInternAtom xl NetWMStateFullscreenAtom), 0, 2, 0],
        cm_mask = ActivateEventMask\<rparr>)"

definition x_emits :: "xlib \<Rightarrow> xstate \<Rightarrow> input_event list \<Rightarrow> xstate \<Rightarrow> bool" where
  "x_emits xl st es st' \<longleftrightarrow> screen st' = screen st
     \<and> (\<exists>rs. inputs st' = inputs st @ rs \<and> list_all2 (x_matches xl (screen st)) es rs)"

definition dest_emits :: "xlib \<Rightarrow> dest_state \<Rightarrow> input_event list \<Rightarrow> dest_state \<Rightarrow> bool" where
  "dest_emits xl d es d' \<longleftrightarrow> x_emits xl (xs d) es (xs d')"

lemma quiet_emits: "quiet st st' \<Longrightarrow> x_emits xl st [] st'"
  by (auto simp: quiet_def x_emits_def)

lemma x_emits_trans:
  "x_emits xl st es st' \<Longrightarrow> x_emits xl st' fs st'' \<Longrightarrow> x_emits xl st (es @ fs) st''"
  unfolding x_emits_def by (auto intro: list_all2_appendI)

lemma quiet_wait: "quiet st (waitPointer xl x y n st)"
  by (induction xl x y n st rule: waitPointer.induct)
     (auto split: prod.split option.split dest: quiet_pointer intro: quiet_trans)

lemma quiet_atoms_supported [quiet_intros]: "atoms_supported xl as st = (b, st') \<Longrightarrow> quiet st st'"
  by (induction xl as st rule: atoms_supported.induct)
     (auto split: prod.splits if_splits dest!: quiet_supported intro: quiet_trans)

lemma quiet_ready [quiet_intros]: "window_ready xl as st = (b, st') \<Longrightarrow> quiet st st'"
  by (auto simp: window_ready_def Let_def split: prod.splits if_splits
      dest!: quiet_atoms quiet_atoms_supported intro: quiet_trans)

lemma quiet_inspect_window [quiet_intros]: "inspect_window xl dg og w st = (i, st') \<Longrightarrow> quiet st st'"
  unfolding inspect_window_def Let_def
  by (auto split: prod.splits
      dest!: quiet_class quiet_pid quiet_name quiet_geometry quiet_fullscreen)
     (metis quiet_trans)

lemma quiet_inspect_windows [quiet_intros]: "inspect_windows xl dg og ws st = (is, st') \<Longrightarrow> quiet st st'"
  by (induction xl dg og ws st arbitrary: "is" rule: inspect_windows.induct)
     (auto simp: Let_def split: prod.splits dest!: quiet_inspect_window intro: quiet_trans)

lemma quiet_identity [quiet_intros]: "identity_check xl ref st = (r, st') \<Longrightarrow> quiet st st'"
  by (auto simp: identity_check_def Let_def split: prod.splits if_splits
      dest!: quiet_class quiet_pid intro: quiet_trans)

section \<open>The live backend keeps the contract\<close>

lemmas dest_defs = dest_backend_def dest_KeycodeFor_def dest_WarpMouse_def dest_SendKey_def
  dest_SendButton_def dest_ScreenGeometry_def dest_ManagedClients_def dest_Revalidate_def
  dest_ActivateAlwaysBoth_def dest_SetFullscreen_def dest_ActiveWindow_def with_x_def Let_def

lemma x_emits_input:
  assumes "is_input r" "x_matches xl (screen st) e r"
  shows "x_emits xl st [e] (issue XSync (issue r st))"
  using assms by (auto simp: x_emits_def issue_def inputs_def)

lemma C_int_id: "MinInt32 \<le> x \<Longrightarrow> x \<le> MaxInt32 \<Longrightarrow> C_int x = x"
  unfolding C_int_def MinInt32_def MaxInt32_def by (rule signed_take_bit_int_eq_self) simp_all

lemma emits_SendKey:
  "dest_SendKey kc p d = (r, d') \<Longrightarrow> dest_emits xl d (if r = None then [EvKey kc p] else []) d'"
  by (auto simp: dest_SendKey_def with_x_def sendKey_def send_key_def xerr_def dest_emits_def
      intro!: x_emits_input quiet_emits split: if_splits)

lemma emits_SendButton:
  "dest_SendButton btn p d = (r, d') \<Longrightarrow> dest_emits xl d (if r = None then [EvButton btn p] else []) d'"
  by (auto simp: dest_SendButton_def with_x_def sendButton_def send_button_def xerr_def dest_emits_def
      intro!: x_emits_input quiet_emits split: if_splits)

lemma emits_WarpMouse:
  assumes "dest_WarpMouse xl x y d = (r, d')"
  shows "dest_emits xl d (if r = None then [EvWarp x y] else []) d'"
proof (cases "dpy (xs d) \<and> MinInt32 \<le> x \<and> x \<le> MaxInt32 \<and> MinInt32 \<le> y \<and> y \<le> MaxInt32")
  case True
  let ?st = "issue XSync (issue (XWarpPointer (clamp_coord (screen_w (xs d)) x)
    (clamp_coord (screen_h (xs d)) y)) (xs d))"
  have "x_emits xl (xs d) [EvWarp x y] ?st" by (rule x_emits_input) simp_all
  then have "x_emits xl (xs d) ([EvWarp x y] @ []) (waitPointer xl x y n ?st)" for n
    using x_emits_trans quiet_emits [OF quiet_wait] by blast
  with True assms show ?thesis
    by (auto simp: dest_WarpMouse_def moveMouse_def move_mouse_def xerr_def dest_emits_def C_int_id)
next
  case False
  with assms show ?thesis
    by (auto simp: dest_WarpMouse_def moveMouse_def move_mouse_def xerr_def dest_emits_def quiet_emits
        split: if_splits)
qed

lemma emits_client_message:
  assumes "send_client_message xl cm st = (n, st')" "x_matches xl (screen st) e (XSendEvent cm)"
  shows "x_emits xl st (if n = 0 then [e] else []) st'"
  using assms by (auto simp: send_client_message_def intro: x_emits_input quiet_emits split: if_splits)

lemma emits_sendNetActive:
  assumes "sendNetActive xl w st = (n, st')"
  shows "x_emits xl st (if n = 0 then [EvActivate w] else []) st' \<and> dpy st' = dpy st"
proof (cases "\<not> dpy st \<or> \<not> dest_atoms_ready st \<or> w = 0")
  case True
  with assms show ?thesis
    by (auto simp: sendNetActive_def send_net_active_def quiet_emits)
next
  case False
  obtain cur st1 where cur: "get_active_xid xl st = (cur, st1)" by (cases "get_active_xid xl st")
  then have q: "quiet st st1" using quiet_active by (simp add: getActiveXID_def)
  let ?cm = "\<lparr>cm_window = w, cm_type = XInternAtom xl NetActiveWindowAtom,
          cm_data = [2, 0, uint cur, 0, 0], cm_mask = ActivateEventMask\<rparr>"
  from False assms cur have send: "send_client_message xl ?cm st1 = (n, st')"
    by (simp add: sendNetActive_def send_net_active_def)
  then have "x_emits xl st1 (if n = 0 then [EvActivate w] else []) st'"
    by (rule emits_client_message) auto
  with q have "x_emits xl st (if n = 0 then [EvActivate w] else []) st'"
    using x_emits_trans [OF quiet_emits] by fastforce
  moreover have "dpy st' = dpy st"
    using send q by (auto simp: send_client_message_def issue_def quiet_def split: if_splits)
  ultimately show ?thesis by blast
qed

lemma emits_setInputFocus:
  "setInputFocus w st = (m, st') \<Longrightarrow> x_emits xl st (if m = 0 then [EvFocus w] else []) st'"
  by (auto simp: setInputFocus_def set_input_focus_def intro!: x_emits_input quiet_emits split: if_splits)

lemma emits_Activate:
  assumes "dest_ActivateAlwaysBoth xl ref d = (r, d')"
  shows "(r = None \<longrightarrow> dest_emits xl d [EvActivate (XID ref), EvFocus (XID ref)] d')
     \<and> (r \<noteq> None \<longrightarrow> dest_emits xl d [] d' \<or> dest_emits xl d [EvActivate (XID ref)] d')"
proof -
  let ?w = "XID ref"
  obtain ready st1 where rd: "window_ready xl [NetActiveWindowAtom] (xs d) = (ready, st1)" by force
  obtain n st2 where sn: "sendNetActive xl ?w st1 = (n, st2)" by force
  obtain m st3 where sf: "setInputFocus ?w st2 = (m, st3)" by force
  have e1: "x_emits xl (xs d) [] st1" using quiet_emits [OF quiet_ready [OF rd]] .
  have e2: "x_emits xl (xs d) (if n = 0 then [EvActivate ?w] else []) st2"
    using x_emits_trans [OF e1] emits_sendNetActive [OF sn] by fastforce
  have e3: "n = 0 \<Longrightarrow> x_emits xl (xs d) (EvActivate ?w # (if m = 0 then [EvFocus ?w] else [])) st3"
    using x_emits_trans [OF e2] emits_setInputFocus [OF sf] by fastforce
  show ?thesis
    using assms rd sn sf e1 e2 e3
    by (auto simp: dest_ActivateAlwaysBoth_def dest_emits_def split: if_splits)
qed

lemma emits_SetFullscreen:
  assumes "dest_SetFullscreen xl ref add d = (r, d')"
  shows "dest_emits xl d (if r = None then [EvFullscreen (XID ref) add] else []) d'"
proof -
  obtain ready st1 where rd: "window_ready xl [NetWMStateAtom, NetWMStateFullscreenAtom] (xs d) = (ready, st1)"
    by force
  obtain n st2 where sn: "sendNetWMStateFS xl (XID ref) add st1 = (n, st2)" by force
  have "x_emits xl st1 (if n = 0 then [EvFullscreen (XID ref) add] else []) st2"
    using sn by (auto simp: sendNetWMStateFS_def send_net_wm_state_fs_def quiet_emits
        dest!: emits_client_message split: if_splits)
  with x_emits_trans [OF quiet_emits [OF quiet_ready [OF rd]]] quiet_emits [OF quiet_ready [OF rd]]
  show ?thesis
    using assms rd sn by (auto simp: dest_SetFullscreen_def dest_emits_def xerr_def split: if_splits)
qed

lemma emits_ManagedClients:
  "dest_ManagedClients xl d = (l, d') \<Longrightarrow> dest_emits xl d [] d'"
  by (auto simp: dest_ManagedClients_def Let_def dest_emits_def
      split: prod.splits if_splits option.splits intro!: quiet_emits
      dest!: quiet_ready quiet_client_list quiet_inspect_windows intro: quiet_trans)

lemma emits_Revalidate:
  "dest_Revalidate xl ref d = (r, d') \<Longrightarrow> dest_emits xl d [] d'"
  by (auto simp: dest_Revalidate_def Let_def dest_emits_def
      split: prod.splits if_splits option.splits intro!: quiet_emits
      dest!: quiet_ready quiet_client_list quiet_identity intro: quiet_trans)

lemma emits_ActiveWindow:
  "dest_ActiveWindow xl d = (r, d') \<Longrightarrow> dest_emits xl d [] d'"
  by (auto simp: dest_ActiveWindow_def Let_def dest_emits_def
      split: prod.splits if_splits intro!: quiet_emits
      dest!: quiet_ready quiet_active intro: quiet_trans)

lemma emits_dest_queries:
  "dest_KeycodeFor xl n d = (kc, d') \<Longrightarrow> dest_emits xl d [] d'"
  "dest_ScreenGeometry d = (g, d') \<Longrightarrow> dest_emits xl d [] d'"
  by (auto simp: dest_KeycodeFor_def dest_ScreenGeometry_def with_x_def Let_def dest_emits_def quiet_emits
      split: prod.splits if_splits dest!: quiet_keysym)

text \<open>Only \<open>Revalidate\<close> reports a reference mismatch; the other methods report a failed X call, a
  missing capability or a coordinate that does not fit C's \<open>int\<close>.\<close>

lemma dest_errors:
  "dest_WarpMouse xl x y d = (Some e, d') \<Longrightarrow> e \<in> {ErrXCall, ErrCoordOutOfRange}"
  "dest_SendKey kc p d = (Some e, d') \<Longrightarrow> e = ErrXCall"
  "dest_SendButton btn p d = (Some e, d') \<Longrightarrow> e = ErrXCall"
  "dest_ScreenGeometry d = (Inl e, d') \<Longrightarrow> e = ErrUnavailable"
  "dest_ManagedClients xl d = (Inl e, d') \<Longrightarrow> e = ErrUnavailable"
  "dest_ActivateAlwaysBoth xl ref d = (Some e, d') \<Longrightarrow> e \<in> {ErrXCall, ErrUnavailable}"
  "dest_SetFullscreen xl ref add d = (Some e, d') \<Longrightarrow> e \<in> {ErrXCall, ErrUnavailable}"
  "dest_ActiveWindow xl d = (Inl e, d') \<Longrightarrow> e = ErrUnavailable"
  by (auto simp: dest_defs xerr_def apfst_def map_prod_def split: prod.splits if_splits option.splits)

interpretation dest: backend_contract "dest_backend xl" "dest_emits xl" for xl
proof
  show "dest_emits xl s [] s" for s by (simp add: dest_emits_def quiet_emits)
  show "dest_emits xl s es s' \<Longrightarrow> dest_emits xl s' fs s'' \<Longrightarrow> dest_emits xl s (es @ fs) s''" for s es s' fs s''
    unfolding dest_emits_def by (rule x_emits_trans)
qed (use emits_Activate in \<open>fastforce simp: dest_backend_def emits_SendKey emits_SendButton
    emits_WarpMouse emits_SetFullscreen emits_ManagedClients emits_Revalidate emits_ActiveWindow
    emits_dest_queries dest: dest_errors\<close>)+

end
