(* ===== verification/DestRefs.thy ===== *)
theory DestRefs
  imports DestBackend
begin

text \<open>
  Window references on the live backend: what \<open>Revalidate\<close> guarantees when it succeeds, that a changed
  client list is a conflict, and that the identities an inspection returns are accepted while the
  display does not change. The last section evaluates the backend on the sample display.
\<close>

section \<open>Window references\<close>

text \<open>(C9) A reference passes \<open>Revalidate\<close> on the live backend only if it is current: the client list
  just read has the hash of the last one, if there was one, and contains the window, both
  generations are the backend's, and the class and the PID just read are the expected ones where
  the reference gives them. Nothing is submitted meanwhile.\<close>

theorem dest_Revalidate_sound:
  assumes "dest_Revalidate xl ref d = (None, d')"
  shows "\<exists>st1 st2 xids. quiet (xs d) st1 \<and> refreshClientList xl st1 = (Some xids, st2) \<and> XID ref \<in> set xids
     \<and> (listHash d = 0 \<or> list_sum xids = listHash d)
     \<and> DisplayGen ref = displayGen d \<and> ObserveGen ref = observeGen d
     \<and> (ExpectedClass ref = [] \<or> fst (windowClass xl (XID ref) st2) = ExpectedClass ref)
     \<and> (ExpectedPID ref = 0 \<or> (\<exists>st3. quiet st2 st3 \<and> fst (windowPID xl (XID ref) st3) = ExpectedPID ref))
     \<and> inputs (xs d') = inputs (xs d) \<and> listHash d' = list_sum xids"
proof -
  obtain ready st1 where rd: "window_ready xl [NetClientListAtom] (xs d) = (ready, st1)" by force
  obtain l st2 where cl: "refreshClientList xl st1 = (l, st2)" by force
  from assms rd cl obtain xids where l: "l = Some xids" "ready"
    by (auto simp: dest_Revalidate_def split: if_splits option.splits)
  obtain r st3 where idc: "identity_check xl ref st2 = (r, st3)" by force
  from assms rd cl l idc have fin: "listHash d = 0 \<or> list_sum xids = listHash d" "XID ref \<in> set xids"
    "DisplayGen ref = displayGen d" "ObserveGen ref = observeGen d" "r = None"
    "d' = d\<lparr>xs := st3, listHash := list_sum xids\<rparr>"
    by (auto simp: dest_Revalidate_def Let_def split: if_splits)
  have "ExpectedClass ref = [] \<or> fst (windowClass xl (XID ref) st2) = ExpectedClass ref"
    "ExpectedPID ref = 0 \<or> (\<exists>st3. quiet st2 st3 \<and> fst (windowPID xl (XID ref) st3) = ExpectedPID ref)"
    using idc fin(5) quiet_class [of xl "XID ref" st2]
    by (auto simp: identity_check_def Let_def split: if_splits prod.splits intro: exI [of _ st2])
  moreover have "quiet (xs d) st1" "quiet st1 st2" "quiet st2 st3"
    using rd cl idc quiet_ready quiet_client_list quiet_identity by blast+
  moreover from this have "inputs (xs d') = inputs (xs d)" "listHash d' = list_sum xids"
    using fin(6) by (simp_all add: quiet_def)
  ultimately show ?thesis using cl l(1) fin(1-4) by blast
qed

text \<open>(C10) A stale view is a conflict: when the client list has changed since the last inspection or
  revalidation, an activation or fullscreen request on the live backend is answered with Conflict
  whatever its reference says, submits nothing to the display and moves the backend to the next
  generation, so that every earlier reference stays invalid.\<close>

theorem dest_stale_conflict:
  assumes "Op req = OpActivate \<or> Op req = OpFullscreen"
    and "window_ready xl [NetClientListAtom] (xs d) = (True, st1)" "refreshClientList xl st1 = (Some xids, st2)"
    and "listHash d \<noteq> 0" "list_sum xids \<noteq> listHash d"
  shows "\<exists>d'. Dispatch ords req sess (Some (dest_backend xl)) d = (conflict, sess, d')
     \<and> observeGen d' = observeGen d + 1 \<and> listHash d' = list_sum xids \<and> inputs (xs d') = inputs (xs d)"
proof -
  have "dest_Revalidate xl (Window req) d =
      (Some ErrRefMismatch, d\<lparr>xs := st2, observeGen := observeGen d + 1, listHash := list_sum xids\<rparr>)"
    using assms by (simp add: dest_Revalidate_def)
  moreover have "inputs st2 = inputs (xs d)"
    using quiet_ready [OF assms(2)] quiet_client_list [OF assms(3)] by (simp add: quiet_def)
  ultimately show ?thesis
    using assms(1) by (auto simp: Dispatch_def dest_backend_def mapBackendError_def)
qed

section \<open>A server that answers the same\<close>

text \<open>A server whose property answers do not change while it is only asked.\<close>

definition steady :: "xlib \<Rightarrow> bool" where
  "steady xl \<longleftrightarrow> (\<forall>lg. root_property xl lg = root_property xl [] \<and> window_property xl lg = window_property xl []
     \<and> XGetClassHint xl lg = XGetClassHint xl [])"

definition up :: "xstate \<Rightarrow> bool" where
  "up st \<longleftrightarrow> dpy st \<and> dest_atoms_ready st"

lemma quiet_up: "quiet st st' \<Longrightarrow> up st \<Longrightarrow> up st'"
  by (simp add: quiet_def up_def)

lemma steady_answers:
  assumes "steady xl" "up st"
  shows "fst (windowClass xl w st) = fst (windowClass xl w sample_xstate)"
    "fst (windowPID xl w st) = fst (windowPID xl w sample_xstate)"
    "fst (refreshClientList xl st) = fst (refreshClientList xl sample_xstate)"
    "fst (netSupportedHas xl a st) = fst (netSupportedHas xl a sample_xstate)"
proof -
  have [simp]: "root_property xl (xlog st) = root_property xl []" "window_property xl (xlog st) = window_property xl []"
    "XGetClassHint xl (xlog st) = XGetClassHint xl []" using assms(1) unfolding steady_def by blast+
  show "fst (windowClass xl w st) = fst (windowClass xl w sample_xstate)"
    "fst (windowPID xl w st) = fst (windowPID xl w sample_xstate)"
    "fst (refreshClientList xl st) = fst (refreshClientList xl sample_xstate)"
    "fst (netSupportedHas xl a st) = fst (netSupportedHas xl a sample_xstate)"
    using assms(2)
    by (simp_all add: up_def sample_xstate_def windowClass_def window_class_def windowPID_def window_pid_def
        refreshClientList_def refresh_client_list_def netSupportedHas_def net_supported_has_def Let_def
        split: option.split)
qed

lemma window_ready_up: "window_ready xl as st = (True, st') \<Longrightarrow> up st'"
proof -
  assume r: "window_ready xl as st = (True, st')"
  then obtain st1 where "internDestAtoms st = (0, st1)" "atoms_supported xl as st1 = (True, st')"
    by (auto simp: window_ready_def split: prod.splits if_splits)
  moreover from this have "up st1"
    by (auto simp: internDestAtoms_def intern_dest_atoms_def up_def issue_def split: if_splits)
  ultimately show ?thesis using quiet_atoms_supported quiet_up by blast
qed

lemma window_ready_again:
  assumes "steady xl" "window_ready xl [a] st = (True, st')" "up st2"
  shows "\<exists>st3. window_ready xl [a] st2 = (True, st3)"
proof -
  obtain st1 where 1: "internDestAtoms st = (0, st1)" "fst (netSupportedHas xl a st1) = 1"
    using assms(2) by (auto simp: window_ready_def split: prod.splits if_splits)
  then have "up st1" by (auto simp: internDestAtoms_def intern_dest_atoms_def up_def issue_def split: if_splits)
  then have n: "fst (netSupportedHas xl a st4) = 1" if "up st4" for st4
    using steady_answers(4) [OF assms(1)] 1(2) that by metis
  obtain st4 where 4: "internDestAtoms st2 = (0, st4)" "up st4"
    using assms(3) by (auto simp: internDestAtoms_def intern_dest_atoms_def up_def issue_def)
  then show ?thesis
    using n [OF 4(2)] by (cases "netSupportedHas xl a st4") (simp add: window_ready_def)
qed

lemma inspect_windows_mem:
  "inspect_windows xl dg og wids st = (ws, st') \<Longrightarrow> w \<in> set ws \<Longrightarrow>
   wXID w \<in> set wids \<and> wDisplayGen w = dg \<and> wObserveGen w = og
   \<and> (\<exists>st1 st2. quiet st st1 \<and> quiet st st2 \<and> wClass w = fst (windowClass xl (wXID w) st1)
        \<and> wPID w = fst (windowPID xl (wXID w) st2))"
proof (induction wids arbitrary: st ws)
  case (Cons wid wids)
  obtain i st1 where i: "inspect_window xl dg og wid st = (i, st1)" by force
  obtain ws' where ws: "ws = i # ws'" "inspect_windows xl dg og wids st1 = (ws', st')"
    using Cons.prems(1) i by (auto simp: Let_def split: prod.splits)
  have q: "quiet st st1" using quiet_inspect_window [OF i] .
  obtain c st2 where c: "windowClass xl wid st = (c, st2)" by force
  have "wXID i = wid \<and> wDisplayGen i = dg \<and> wObserveGen i = og \<and> wClass i = fst (windowClass xl wid st)
      \<and> wPID i = fst (windowPID xl wid st2)"
    using i c by (auto simp: inspect_window_def Let_def split: prod.splits option.splits)
  moreover have "quiet st st2" using quiet_class [OF c] .
  ultimately have hd_case: ?case if "w = i" using that quiet_refl [of st] by (metis list.set_intros(1))
  show ?case
  proof (cases "w = i")
    case False
    with Cons.prems(2) ws(1) have "w \<in> set ws'" by simp
    from Cons.IH [OF ws(2) this] show ?thesis using quiet_trans [OF q] by (metis list.set_intros(2))
  qed (rule hd_case)
qed simp

definition ref_of :: "WindowInfo \<Rightarrow> WindowRef" where
  "ref_of w = \<lparr>DisplayGen = wDisplayGen w, ObserveGen = wObserveGen w, XID = wXID w,
     ExpectedClass = wClass w, ExpectedPID = wPID w\<rparr>"

text \<open>(C11) Inspect, then use: on a server whose answers do not change, the identity of any window an
  inspection returned, sent back as a unit, passes \<open>Revalidate\<close>.\<close>

theorem dest_inspect_revalidate:
  assumes "steady xl" "dest_ManagedClients xl d = (Inr ws, d1)" "w \<in> set ws"
  shows "fst (dest_Revalidate xl (ref_of w) d1) = None"
proof -
  obtain st1 where rd: "window_ready xl [NetClientListAtom] (xs d) = (True, st1)"
    using assms(2) by (auto simp: dest_ManagedClients_def split: prod.splits if_splits)
  obtain l st2 where cl: "refreshClientList xl st1 = (l, st2)" by force
  obtain xids where l: "l = Some xids"
    using assms(2) rd cl by (auto simp: dest_ManagedClients_def split: option.splits)
  define og where "og = (if listHash d \<noteq> 0 \<and> list_sum xids \<noteq> listHash d then observeGen d + 1 else observeGen d)"
  obtain ws' st3 where iw: "inspect_windows xl (displayGen d) og xids st2 = (ws', st3)" by force
  have d1: "ws' = ws" "d1 = d\<lparr>xs := st3, observeGen := og, listHash := list_sum xids\<rparr>"
    using assms(2) rd cl l iw by (auto simp: dest_ManagedClients_def Let_def og_def)
  have up1: "up st1" using window_ready_up [OF rd] .
  have up2: "up st2" using quiet_up [OF quiet_client_list [OF cl] up1] .
  have up3: "up st3" using quiet_up [OF quiet_inspect_windows [OF iw] up2] .
  obtain st4 where rd': "window_ready xl [NetClientListAtom] st3 = (True, st4)"
    using window_ready_again [OF assms(1) rd up3] by blast
  have up4: "up st4" using window_ready_up [OF rd'] .
  have "fst (refreshClientList xl st4) = Some xids"
    using steady_answers(3) [OF assms(1)] up1 up4 cl l by (metis fst_conv)
  then obtain st5 where cl': "refreshClientList xl st4 = (Some xids, st5)"
    by (cases "refreshClientList xl st4") auto
  have up5: "up st5" using quiet_up [OF quiet_client_list [OF cl'] up4] .
  from inspect_windows_mem [OF iw] assms(3) d1(1) obtain sa sb where w: "wXID w \<in> set xids"
    "wDisplayGen w = displayGen d" "wObserveGen w = og" "up sa" "up sb"
    "wClass w = fst (windowClass xl (wXID w) sa)" "wPID w = fst (windowPID xl (wXID w) sb)"
    using quiet_up [OF _ up2] by blast
  have same: "up st \<Longrightarrow> fst (windowClass xl (wXID w) st) = wClass w"
    "up st \<Longrightarrow> fst (windowPID xl (wXID w) st) = wPID w" for st
    using steady_answers(1,2) [OF assms(1)] w by metis+
  have "fst (identity_check xl (ref_of w) st5) = None"
    using same up5 quiet_up [OF quiet_class up5]
    by (auto simp: identity_check_def ref_of_def Let_def split: prod.splits) (metis fst_conv)+
  then show ?thesis
    using rd' cl' d1(2) w by (auto simp: dest_Revalidate_def Let_def ref_of_def split: prod.splits)
qed

section \<open>The sample display\<close>

definition sample_dest :: dest_state where
  "sample_dest = destBackend sample_xstate"

lemmas sample_defs = sample_dest_def destBackend_def sample_xstate_def sample_xlib_def

lemma sample_ready:
  "up st \<Longrightarrow> \<exists>st'. window_ready sample_xlib [NetClientListAtom] st = (True, st') \<and> up st'"
  by (simp add: window_ready_def internDestAtoms_def intern_dest_atoms_def netSupportedHas_def net_supported_has_def
      c_string_def list_reply_def up_def issue_def sample_xlib_def XA_ATOM_def NetSupportedAtom_def
      NetClientListAtom_def)

lemma sample_clients:
  "up st \<Longrightarrow> \<exists>st'. refreshClientList sample_xlib st = (Some [4194307, 4194309], st') \<and> up st'"
  by (simp add: refreshClientList_def refresh_client_list_def list_reply_def up_def issue_def sample_xlib_def
      XA_WINDOW_def NetClientListAtom_def)

lemma sample_up: "up (xs sample_dest)"
  by (simp add: up_def sample_defs internDestAtoms_def intern_dest_atoms_def issue_def)

definition sample_ref :: WindowRef where
  "sample_ref = \<lparr>DisplayGen = 1, ObserveGen = 1, XID = 4194307, ExpectedClass = ''Game'', ExpectedPID = 1234\<rparr>"

lemma sample_identity: "up st \<Longrightarrow> \<exists>st'. identity_check sample_xlib sample_ref st = (None, st')"
  by (simp add: identity_check_def sample_ref_def windowClass_def window_class_def windowPID_def window_pid_def
      up_def issue_def sample_xlib_def NetWMPIDAtom_def XA_CARDINAL_def c_string_def)

lemma sample_Revalidate: "\<exists>d'. dest_Revalidate sample_xlib sample_ref sample_dest = (None, d')"
proof -
  obtain st1 where 1: "window_ready sample_xlib [NetClientListAtom] (xs sample_dest) = (True, st1)" "up st1"
    using sample_ready [OF sample_up] by blast
  obtain st2 where 2: "refreshClientList sample_xlib st1 = (Some [4194307, 4194309], st2)" "up st2"
    using sample_clients [OF 1(2)] by blast
  obtain st3 where "identity_check sample_xlib sample_ref st2 = (None, st3)"
    using sample_identity [OF 2(2)] by blast
  with 1 2 show ?thesis
    by (simp add: dest_Revalidate_def Let_def) (simp add: sample_defs sample_ref_def)
qed

theorem dest_Revalidate_sound_witness:
  "\<exists>st1 st2 xids. refreshClientList sample_xlib st1 = (Some xids, st2) \<and> 4194307 \<in> set xids
     \<and> fst (windowClass sample_xlib 4194307 st2) = ''Game''"
proof -
  obtain d' where "dest_Revalidate sample_xlib sample_ref sample_dest = (None, d')"
    using sample_Revalidate by blast
  from dest_Revalidate_sound [OF this] show ?thesis by (auto simp: sample_ref_def)
qed

theorem dest_stale_conflict_witness:
  "\<exists>d d'. Dispatch (id, id) (zero_Request\<lparr>Op := OpActivate, Window := sample_ref\<rparr>) None
      (Some (dest_backend sample_xlib)) d = (conflict, None, d') \<and> observeGen d' = observeGen d + 1"
proof -
  let ?d = "sample_dest\<lparr>listHash := (if list_sum [4194307, 4194309] = 1 then 2 else 1)\<rparr>"
  obtain st1 where 1: "window_ready sample_xlib [NetClientListAtom] (xs ?d) = (True, st1)" "up st1"
    using sample_ready [OF sample_up] by auto
  obtain st2 where 2: "refreshClientList sample_xlib st1 = (Some [4194307, 4194309], st2)"
    using sample_clients [OF 1(2)] by blast
  have h: "listHash ?d \<noteq> 0" "list_sum [4194307, 4194309] \<noteq> listHash ?d"
    by (cases "list_sum [4194307, 4194309] = 1"; simp)+
  obtain d' where "Dispatch (id, id) (zero_Request\<lparr>Op := OpActivate, Window := sample_ref\<rparr>) None
      (Some (dest_backend sample_xlib)) ?d = (conflict, None, d')" "observeGen d' = observeGen ?d + 1"
    using dest_stale_conflict [OF _ 1(1) 2 h, of "zero_Request\<lparr>Op := OpActivate, Window := sample_ref\<rparr>" "(id, id)" None]
    by auto
  then show ?thesis by blast
qed

theorem dest_inspect_revalidate_witness:
  "\<exists>w d1. wXID w = 4194307 \<and> fst (dest_Revalidate sample_xlib (ref_of w) d1) = None"
proof -
  have st: "steady sample_xlib" by (simp add: steady_def sample_xlib_def)
  obtain st1 where 1: "window_ready sample_xlib [NetClientListAtom] (xs sample_dest) = (True, st1)" "up st1"
    using sample_ready [OF sample_up] by blast
  obtain st2 where 2: "refreshClientList sample_xlib st1 = (Some [4194307, 4194309], st2)" "up st2"
    using sample_clients [OF 1(2)] by blast
  obtain w ws st3 where 3: "inspect_windows sample_xlib 1 1 [4194307, 4194309] st2 = (w # ws, st3)"
    by (cases "inspect_windows sample_xlib 1 1 [4194307, 4194309] st2") (auto simp: Let_def split: prod.splits)
  then have "wXID w = 4194307"
    by (auto simp: inspect_window_def Let_def split: prod.splits option.splits)
  moreover have "dest_ManagedClients sample_xlib sample_dest
      = (Inr (w # ws), sample_dest\<lparr>xs := st3, observeGen := 1, listHash := list_sum [4194307, 4194309]\<rparr>)"
    using 1 2 3 by (simp add: dest_ManagedClients_def Let_def) (simp add: sample_defs)
  ultimately show ?thesis using dest_inspect_revalidate [OF st, of sample_dest "w # ws"] by fastforce
qed

end
