(* ===== verification/Reliable.thy ===== *)
theory Reliable
  imports DestConn VnextFake DestRefs
begin

text \<open>
  Backends that cannot fail to send while they are live: the contract of the request path extended
  by a liveness condition that every operation preserves. Both the recording backend and the live
  backend on an open display are of this kind, so the deferred release of a connection always
  succeeds there. The theory ends with the properties of whole connections.
\<close>

section \<open>The extended contract\<close>

locale reliable_backend = backend_contract b emits
    for b :: "'s Backend" and emits :: "'s \<Rightarrow> input_event list \<Rightarrow> 's \<Rightarrow> bool" +
  fixes live :: "'s \<Rightarrow> bool"
  assumes KeycodeFor_live: "KeycodeFor b n s = (kc, s') \<Longrightarrow> live s \<Longrightarrow> live s'"
    and WarpMouse_live: "WarpMouse b x y s = (r, s') \<Longrightarrow> live s \<Longrightarrow> live s'"
    and SendKey_live: "SendKey b kc p s = (r, s') \<Longrightarrow> live s \<Longrightarrow> live s' \<and> r = None"
    and SendButton_live: "SendButton b btn p s = (r, s') \<Longrightarrow> live s \<Longrightarrow> live s' \<and> r = None"
    and ScreenGeometry_live: "ScreenGeometry b s = (g, s') \<Longrightarrow> live s \<Longrightarrow> live s'"
    and ManagedClients_live: "ManagedClients b s = (l, s') \<Longrightarrow> live s \<Longrightarrow> live s'"
    and Revalidate_live: "Revalidate b ref s = (r, s') \<Longrightarrow> live s \<Longrightarrow> live s'"
    and ActivateAlwaysBoth_live: "ActivateAlwaysBoth b ref s = (r, s') \<Longrightarrow> live s \<Longrightarrow> live s'"
    and SetFullscreen_live: "SetFullscreen b ref a s = (r, s') \<Longrightarrow> live s \<Longrightarrow> live s'"
    and ActiveWindow_live: "ActiveWindow b s = (aw, s') \<Longrightarrow> live s \<Longrightarrow> live s'"
begin

lemmas live_steps = KeycodeFor_live WarpMouse_live ScreenGeometry_live ManagedClients_live Revalidate_live
  ActivateAlwaysBoth_live SetFullscreen_live ActiveWindow_live

lemma release_keys_live:
  "release_keys b ks first ss s = (first', ss', s') \<Longrightarrow> live s \<Longrightarrow> live s' \<and> first' = first"
proof (induction ks arbitrary: ss s)
  case (Cons kc ks)
  obtain r s1 where "SendKey b kc False s = (r, s1)" by force
  with SendKey_live [OF this Cons.prems(2)] Cons.prems(1) show ?case by (auto dest: Cons.IH)
qed simp

lemma release_buttons_live:
  "release_buttons b ks first ss s = (first', ss', s') \<Longrightarrow> live s \<Longrightarrow> live s' \<and> first' = first"
proof (induction ks arbitrary: ss s)
  case (Cons kc ks)
  obtain r s1 where "SendButton b kc False s = (r, s1)" by force
  with SendButton_live [OF this Cons.prems(2)] Cons.prems(1) show ?case by (auto dest: Cons.IH)
qed simp

lemma Release_live:
  "Release ords (Some ss) (Some b) s = (out, sess', s') \<Longrightarrow> live s \<Longrightarrow> live s' \<and> out = submitted"
  unfolding Release_def option.case Let_def
  by (auto split: prod.splits if_splits dest!: release_keys_live release_buttons_live)

lemma Dispatch_live:
  assumes "Dispatch ords req (Some ss) (Some b) s = (out, sess', s')" "live s"
  shows "live s'"
proof (cases "Op req")
  case OpKey
  with assms show ?thesis
    by (auto simp: Dispatch_def split: prod.splits option.splits if_splits dest!: KeycodeFor_live SendKey_live)
next
  case OpButton
  with assms show ?thesis
    by (auto simp: Dispatch_def split: prod.splits option.splits dest!: SendButton_live)
next
  case OpRelease
  with assms show ?thesis by (auto simp: Dispatch_def dest: Release_live)
qed (use assms in \<open>auto simp: Dispatch_def split: prod.splits option.splits sum.splits dest!: live_steps\<close>)

lemma HandleLine_live:
  "HandleLine ords line (Some ss) (Some b) s = (out, sess', s') \<Longrightarrow> live s \<Longrightarrow> live s'"
  by (auto simp: HandleLine_def split: prod.splits if_splits dest: Dispatch_live)

lemma serve_loop_live:
  assumes "serve_loop b env n lines (Some ss) s = (rs, sess', s')" "session_inv ss" "live s"
    and "\<forall>n. go_orders (range_order env n)"
  shows "live s'"
  using assms
proof (induction lines arbitrary: n ss s rs)
  case (Cons line lines)
  obtain out sess1 s1 where h: "HandleLine (range_order env n) line (Some ss) (Some b) s = (out, sess1, s1)"
    by (metis prod_cases3)
  from HandleLine_ok [OF h Cons.prems(2)] Cons.prems(4) obtain ss1 where ss1: "sess1 = Some ss1" "session_inv ss1"
    by blast
  have "live s1" using HandleLine_live [OF h Cons.prems(3)] .
  then show ?case
    using Cons.prems(1,4) h ss1 Cons.IH [of "Suc n" ss1 s1] by (auto split: if_splits prod.splits)
qed simp

lemma serveVNextConn_live:
  assumes "serveVNextConn b env s = (rs, out, s')" "live s" "\<forall>n. go_orders (range_order env n)"
  shows "live s' \<and> out = submitted"
proof -
  let ?lines = "fst (scan_lines scanBufferMax (read_error env) (input env))"
  obtain rs1 sess1 s1 where loop: "serve_loop b env 0 ?lines (Some NewSession) s = (rs1, sess1, s1)"
    by (metis prod_cases3)
  obtain ss1 where ss1: "sess1 = Some ss1" using serve_loop_ok [OF loop _ assms(3)] by auto
  have "live s1" using serve_loop_live [OF loop _ assms(2,3)] by simp
  then show ?thesis
    using assms(1) loop ss1 Release_live [of "range_order env (length ?lines)" ss1 s1]
    by (auto simp: serveVNextConn_def Let_def split: prod.splits)
qed

end

section \<open>Both backends are reliable\<close>

interpretation rfake: reliable_backend fake_backend fake_emits "\<lambda>f. True"
  by unfold_locales (auto simp: fake_defs)

lemma quiet_dpy: "quiet st st' \<Longrightarrow> dpy st \<Longrightarrow> dpy st'"
  by (simp add: quiet_def)

lemma dest_dpy:
  "dest_WarpMouse xl x y d = (r, d') \<Longrightarrow> dpy (xs d) \<Longrightarrow> dpy (xs d')"
  "dest_ManagedClients xl d = (l, d') \<Longrightarrow> dpy (xs d) \<Longrightarrow> dpy (xs d')"
  "dest_Revalidate xl ref d = (r, d') \<Longrightarrow> dpy (xs d) \<Longrightarrow> dpy (xs d')"
  "dest_ActiveWindow xl d = (aw, d') \<Longrightarrow> dpy (xs d) \<Longrightarrow> dpy (xs d')"
  subgoal
    using quiet_dpy [OF quiet_wait] by (auto simp: dest_WarpMouse_def moveMouse_def move_mouse_def xerr_def issue_def
        split: if_splits prod.splits)
  subgoal
    by (auto simp: dest_ManagedClients_def Let_def split: prod.splits if_splits option.splits
        dest!: quiet_ready quiet_client_list quiet_inspect_windows simp: quiet_def)
  subgoal
    by (auto simp: dest_Revalidate_def Let_def split: prod.splits if_splits option.splits
        dest!: quiet_ready quiet_client_list quiet_identity simp: quiet_def)
  subgoal
    by (auto simp: dest_ActiveWindow_def split: prod.splits if_splits
        dest!: quiet_ready quiet_active simp: quiet_def)
  done

lemma send_client_message_dpy: "send_client_message xl cm st = (n, st') \<Longrightarrow> dpy st' = dpy st"
  by (auto simp: send_client_message_def issue_def split: if_splits)

lemma dest_window_dpy:
  "dest_ActivateAlwaysBoth xl ref d = (r, d') \<Longrightarrow> dpy (xs d) \<Longrightarrow> dpy (xs d')"
  "dest_SetFullscreen xl ref a d = (r, d') \<Longrightarrow> dpy (xs d) \<Longrightarrow> dpy (xs d')"
  subgoal
    using emits_sendNetActive
    by (auto simp: dest_ActivateAlwaysBoth_def setInputFocus_def set_input_focus_def issue_def
        split: prod.splits if_splits dest!: quiet_ready dest: quiet_dpy)
  subgoal
    by (auto simp: dest_SetFullscreen_def sendNetWMStateFS_def send_net_wm_state_fs_def
        split: prod.splits if_splits dest!: quiet_ready send_client_message_dpy dest: quiet_dpy)
  done

interpretation rdest: reliable_backend "dest_backend xl" "dest_emits xl" "\<lambda>d. dpy (xs d)" for xl
proof
  fix n kc p r btn g s s'
  show "KeycodeFor (dest_backend xl) n s = (kc, s') \<Longrightarrow> dpy (xs s) \<Longrightarrow> dpy (xs s')"
    by (auto simp: dest_backend_def dest_KeycodeFor_def with_x_def split: prod.splits dest!: quiet_keysym dest: quiet_dpy)
  show "SendKey (dest_backend xl) kc p s = (r, s') \<Longrightarrow> dpy (xs s) \<Longrightarrow> dpy (xs s') \<and> r = None"
    by (auto simp: dest_backend_def dest_SendKey_def with_x_def sendKey_def send_key_def issue_def xerr_def)
  show "SendButton (dest_backend xl) btn p s = (r, s') \<Longrightarrow> dpy (xs s) \<Longrightarrow> dpy (xs s') \<and> r = None"
    by (auto simp: dest_backend_def dest_SendButton_def with_x_def sendButton_def send_button_def issue_def xerr_def)
  show "ScreenGeometry (dest_backend xl) s = (g, s') \<Longrightarrow> dpy (xs s) \<Longrightarrow> dpy (xs s')"
    by (auto simp: dest_backend_def dest_ScreenGeometry_def split: prod.splits if_splits)
qed (auto simp: dest_backend_def dest_dpy dest_window_dpy)

section \<open>Whole connections\<close>

text \<open>(C2) A destination connection on an open display leaves nothing pressed: whatever bytes the client
  sends, whether its replies can be written and however the connection ends, the requests submitted
  to the display are those of a list of events after which no key and no button is held, and the
  final release reports success.\<close>

theorem dest_connection_releases:
  assumes "serveVNextConn (dest_backend xl) env d = (rs, out, d')" "dpy (xs d)"
    and "\<forall>n. go_orders (range_order env n)"
  shows "out = submitted \<and> (\<exists>es reqs. inputs (xs d') = inputs (xs d) @ reqs
     \<and> list_all2 (x_matches xl (screen (xs d))) es reqs \<and> apply_events es no_holds = no_holds)"
  using rdest.serveVNextConn_live [OF assms] dest.serveVNextConn_ok [OF assms(1,3)]
  by (auto simp: dest_emits_def x_emits_def)

theorem dest_connection_releases_witness:
  "let env = \<lparr>input = button_line @ [LF], read_error = None, write_ok = (\<lambda>n. True), range_order = (\<lambda>n. (id, rev))\<rparr>;
       (rs, out, d') = serveVNextConn (dest_backend sample_xlib) env sample_dest
   in out = submitted"
proof -
  let ?env = "\<lparr>input = button_line @ [LF], read_error = None, write_ok = (\<lambda>n. True), range_order = (\<lambda>n. (id, rev))\<rparr>"
  obtain rs out d' where c: "serveVNextConn (dest_backend sample_xlib) ?env sample_dest = (rs, out, d')"
    by (metis prod_cases3)
  from dest_connection_releases [OF c] sample_up c show ?thesis by (auto simp: up_def)
qed

text \<open>(C1) Every line, on every branch, against the live backend: the requests that reach the display
  match, one for one, the events that the request's operation and outcome allow, with coordinates
  clamped to the screen and the EWMH constants in the window messages; a rejected line submits
  nothing; and the session holds exactly what those events leave pressed.\<close>

theorem dest_HandleLine:
  assumes "HandleLine ords line (Some ss) (Some (dest_backend xl)) d = (out, sess', d')"
    and "session_inv ss" "go_orders ords"
  shows "\<exists>ss' es reqs. sess' = Some ss' \<and> session_inv ss' \<and> inputs (xs d') = inputs (xs d) @ reqs
     \<and> list_all2 (x_matches xl (screen (xs d))) es reqs \<and> holds_of ss' = apply_events es (holds_of ss)
     \<and> (if Code (snd (Decode line)) = Submitted
        then dispatch_events (fst (Decode line)) (holds_of ss) (Code out) es
        else es = [] \<and> out = snd (Decode line))"
  using dest.HandleLine_ok [OF assms] unfolding dest_emits_def x_emits_def by blast

theorem dest_HandleLine_witness:
  "let (out, sess', d') = HandleLine (id, id) button_line (Some NewSession) (Some (dest_backend sample_xlib)) sample_dest
   in inputs (xs d') = inputs (xs sample_dest) @ [XTestFakeButtonEvent 1 True]"
proof -
  obtain out sess' d' where h: "HandleLine (id, id) button_line (Some NewSession)
      (Some (dest_backend sample_xlib)) sample_dest = (out, sess', d')" by (metis prod_cases3)
  have code: "Code out = Submitted"
    using h sample_up
    by (auto simp: HandleLine_def Decode_lines Dispatch_def button_down_def dest_backend_def dest_SendButton_def
        with_x_def sendButton_def send_button_def xerr_def up_def)
  have "dispatch_events button_down no_holds Submitted es \<longleftrightarrow> es = [EvButton 1 True]" for es
    by (auto simp: dispatch_events_def button_down_def)
  with dest_HandleLine [OF h] code h show ?thesis
    by (auto simp: Decode_lines list_all2_Cons1)
qed

theorem replies_framed_witness:
  "let env = \<lparr>input = [LF], read_error = None, write_ok = (\<lambda>n. True), range_order = (\<lambda>n. (id, id))\<rparr>;
       (rs, out, f') = serveVNextConn fake_backend env NewFake
   in length rs = 1 \<and> (\<exists>outs. scan_lines (length (concat rs)) None (concat rs) = (map (\<lambda>o'. fst (WireJSON o')) outs, None))"
proof -
  let ?env = "\<lparr>input = [LF], read_error = None, write_ok = (\<lambda>n. True), range_order = (\<lambda>n. (id, id))\<rparr>"
  obtain rs out f' where c: "serveVNextConn fake_backend ?env NewFake = (rs, out, f')" by (metis prod_cases3)
  have "scan_lines scanBufferMax None [LF] = ([[]], None)"
    using scan_lines_line [of "[]" scanBufferMax None "[]"] by (simp add: scanBufferMax_def drop_cr_def)
  with c have rs: "rs = [reply invalidRequest]"
    by (auto simp: serveVNextConn_def HandleLine_def Decode_def Let_def split: prod.splits)
  with replies_framed [OF c, of "length (concat rs)"] c show ?thesis by auto
qed

end
