(* ===== verification/Replay.thy ===== *)
theory Replay
  imports Reliable
begin

text \<open>
  Code that is written against a backend, one backend call at a time. \<open>replay_backend b sts\<close> runs the
  \<open>n\<close>-th call of its client on the state \<open>sts n\<close> of the backend \<open>b\<close> and records the states before and
  after each call. The client's code is unchanged; what other clients do to the shared backend between
  two calls is the difference between the state after one call and the supplied state of the next.
  The lemmas show that the replayed backend keeps the contract of the backend, that a client only
  depends on the states supplied so far, and how many calls a connection makes.
\<close>

section \<open>The replayed backend\<close>

type_synonym 's calls = "('s \<times> 's) list"

definition replay :: "('s \<Rightarrow> 'a \<times> 's) \<Rightarrow> (nat \<Rightarrow> 's) \<Rightarrow> 's calls \<Rightarrow> 'a \<times> 's calls" where
  "replay f sts tr = (let s = sts (length tr); (r, s') = f s in (r, tr @ [(s, s')]))"

definition replay_backend :: "'s Backend \<Rightarrow> (nat \<Rightarrow> 's) \<Rightarrow> 's calls Backend" where
  "replay_backend b sts =
     \<lparr>KeycodeFor = (\<lambda>n. replay (KeycodeFor b n) sts),
      WarpMouse = (\<lambda>x y. replay (WarpMouse b x y) sts),
      SendKey = (\<lambda>kc p. replay (SendKey b kc p) sts),
      SendButton = (\<lambda>btn p. replay (SendButton b btn p) sts),
      ScreenGeometry = replay (ScreenGeometry b) sts,
      ManagedClients = replay (ManagedClients b) sts,
      Revalidate = (\<lambda>ref. replay (Revalidate b ref) sts),
      ActivateAlwaysBoth = (\<lambda>ref. replay (ActivateAlwaysBoth b ref) sts),
      SetFullscreen = (\<lambda>ref a. replay (SetFullscreen b ref a) sts),
      ActiveWindow = replay (ActiveWindow b) sts\<rparr>"

definition replay_emits :: "('s \<Rightarrow> input_event list \<Rightarrow> 's \<Rightarrow> bool) \<Rightarrow> 's calls \<Rightarrow> input_event list \<Rightarrow> 's calls \<Rightarrow> bool" where
  "replay_emits emits tr es tr' \<longleftrightarrow>
     (\<exists>new ess. tr' = tr @ new \<and> list_all2 (\<lambda>(s, s') es. emits s es s') new ess \<and> es = concat ess)"

lemma replayD:
  "replay f sts tr = (r, tr') \<Longrightarrow> \<exists>s'. f (sts (length tr)) = (r, s') \<and> tr' = tr @ [(sts (length tr), s')]"
  by (auto simp: replay_def Let_def split: prod.splits)

lemma replay_emits_call: "emits s es s' \<Longrightarrow> replay_emits emits tr es (tr @ [(s, s')])"
  unfolding replay_emits_def by (intro exI [of _ "[(s, s')]"] exI [of _ "[es]"]) simp

lemma replay_emits_trans:
  assumes "replay_emits emits tr es tr'" "replay_emits emits tr' fs tr''"
  shows "replay_emits emits tr (es @ fs) tr''"
proof -
  from assms obtain new ess new' fss where
    "tr' = tr @ new" "list_all2 (\<lambda>(s, s') es. emits s es s') new ess" "es = concat ess"
    "tr'' = tr' @ new'" "list_all2 (\<lambda>(s, s') es. emits s es s') new' fss" "fs = concat fss"
    unfolding replay_emits_def by blast
  then show ?thesis
    unfolding replay_emits_def
    by (intro exI [of _ "new @ new'"] exI [of _ "ess @ fss"]) (simp add: list_all2_appendI)
qed

lemma replay_emits_member:
  "replay_emits em [] es tr \<Longrightarrow> (s, s') \<in> set tr \<Longrightarrow> \<exists>fs. em s fs s'"
  unfolding replay_emits_def list_all2_conv_all_nth by (fastforce simp: in_set_conv_nth)

context backend_contract
begin

lemma call_emits:
  "WarpMouse b x y s = (None, s') \<Longrightarrow> emits s [EvWarp x y] s'"
  "WarpMouse b x y s = (Some e, s') \<Longrightarrow> emits s [] s'"
  "SendKey b kc p s = (None, s') \<Longrightarrow> emits s [EvKey kc p] s'"
  "SendKey b kc p s = (Some e, s') \<Longrightarrow> emits s [] s'"
  "SendButton b btn p s = (None, s') \<Longrightarrow> emits s [EvButton btn p] s'"
  "SendButton b btn p s = (Some e, s') \<Longrightarrow> emits s [] s'"
  "SetFullscreen b ref a s = (None, s') \<Longrightarrow> emits s [EvFullscreen (XID ref) a] s'"
  "SetFullscreen b ref a s = (Some e, s') \<Longrightarrow> emits s [] s'"
  using WarpMouse_emits [of x y s] SendKey_emits [of kc p s] SendButton_emits [of btn p s]
    SetFullscreen_emits [of ref a s] by force+

lemma replay_contract: "backend_contract (replay_backend b sts) (replay_emits emits)"
proof
  show "replay_emits emits s [] s" for s by (auto simp: replay_emits_def)
  show "replay_emits emits s es s' \<Longrightarrow> replay_emits emits s' fs s'' \<Longrightarrow> replay_emits emits s (es @ fs) s''" for s es s' fs s''
    by (rule replay_emits_trans)
  fix ref s e s'
  assume "ActivateAlwaysBoth (replay_backend b sts) ref s = (Some e, s')"
  then show "replay_emits emits s [] s' \<or> replay_emits emits s [EvActivate (XID ref)] s'"
    by (auto simp: replay_backend_def dest!: replayD ActivateAlwaysBoth_fails intro: replay_emits_call)
qed (auto simp: replay_backend_def dest!: replayD dest: not_mismatch
    intro!: replay_emits_call intro: query_emits call_emits ActivateAlwaysBoth_emits)

end

text \<open>Events together with the liveness of the backend.\<close>

definition live_emits :: "('s \<Rightarrow> input_event list \<Rightarrow> 's \<Rightarrow> bool) \<Rightarrow> ('s \<Rightarrow> bool) \<Rightarrow> 's \<Rightarrow> input_event list \<Rightarrow> 's \<Rightarrow> bool" where
  "live_emits emits live s es s' \<longleftrightarrow> emits s es s' \<and> (live s \<longrightarrow> live s')"

context reliable_backend
begin

lemma live_contract: "backend_contract b (live_emits emits live)"
proof
  show "live_emits emits live s [] s" for s by (simp add: live_emits_def emits_refl)
  show "live_emits emits live s es s' \<Longrightarrow> live_emits emits live s' fs s'' \<Longrightarrow> live_emits emits live s (es @ fs) s''"
    for s es s' fs s'' using emits_trans by (auto simp: live_emits_def)
  show "ActivateAlwaysBoth b ref s = (Some e, s') \<Longrightarrow>
      live_emits emits live s [] s' \<or> live_emits emits live s [EvActivate (XID ref)] s'" for ref s e s'
    using ActivateAlwaysBoth_fails ActivateAlwaysBoth_live unfolding live_emits_def by blast
qed (auto simp: live_emits_def intro: query_emits call_emits ActivateAlwaysBoth_emits dest: not_mismatch live_steps
    SendKey_live SendButton_live)

lemma replay_reliable:
  assumes "\<And>n. live (sts n)"
  shows "reliable_backend (replay_backend b sts) (replay_emits emits) (\<lambda>tr. True)"
proof (intro reliable_backend.intro replay_contract reliable_backend_axioms.intro)
  show "SendKey (replay_backend b sts) kc p tr = (r, tr') \<Longrightarrow> True \<and> r = None" for kc p tr r tr'
    using SendKey_live [OF _ assms] by (auto simp: replay_backend_def dest!: replayD)
  show "SendButton (replay_backend b sts) btn p tr = (r, tr') \<Longrightarrow> True \<and> r = None" for btn p tr r tr'
    using SendButton_live [OF _ assms] by (auto simp: replay_backend_def dest!: replayD)
qed simp_all

text \<open>Whatever happens to a live backend between its calls, a connection submits events that leave
  nothing pressed.\<close>

lemma replay_connection:
  assumes "serveVNextConn (replay_backend b sts) env [] = (rs, out, tr)"
    and "\<And>n. live (sts n)" "\<forall>n. go_orders (range_order env n)"
  shows "out = submitted \<and> (\<exists>es. replay_emits (live_emits emits live) [] es tr \<and> apply_events es no_holds = no_holds)"
  using reliable_backend.serveVNextConn_live [OF replay_reliable [OF assms(2)] assms(1) TrueI assms(3)]
    backend_contract.serveVNextConn_ok [OF backend_contract.replay_contract [OF live_contract] assms(1,3)]
  by auto

end

section \<open>Clients\<close>

text \<open>\<open>grows\<close>: the calls made since \<open>tr\<close> ran on the supplied states. \<open>beyond\<close>: two runs have both gone
  beyond the first \<open>N\<close> calls, which are the same.\<close>

definition grows :: "(nat \<Rightarrow> 's) \<Rightarrow> 's calls \<Rightarrow> 's calls \<Rightarrow> bool" where
  "grows sts tr tr' \<longleftrightarrow> (\<exists>new. tr' = tr @ new \<and> map fst new = map sts [length tr..<length tr'])"

definition beyond :: "nat \<Rightarrow> 's calls \<Rightarrow> 's calls \<Rightarrow> bool" where
  "beyond N tr tr' \<longleftrightarrow> N < length tr \<and> N < length tr' \<and> take N tr = take N tr'"

lemma grows_refl [simp]: "grows sts tr tr"
  by (simp add: grows_def)

lemma grows_trans: "grows sts tr tr' \<Longrightarrow> grows sts tr' tr'' \<Longrightarrow> grows sts tr tr''"
  unfolding grows_def
  by (elim exE conjE) (simp add: add.assoc [symmetric] upt_add_eq_append [OF le_add1])

lemma beyond_grows: "beyond N tr tr' \<Longrightarrow> grows sts tr u \<Longrightarrow> grows sts' tr' u' \<Longrightarrow> beyond N u u'"
  by (auto simp: beyond_def grows_def)

text \<open>Code that uses the backend only through its operations: it runs its calls on the supplied states,
  and two runs on states that agree on the first \<open>N\<close> calls are the same, or are the same so far
  and both go on.\<close>

definition client :: "'s Backend \<Rightarrow> ('s calls Backend \<Rightarrow> 's calls \<Rightarrow> 'x \<times> 's calls) \<Rightarrow> bool" where
  "client b F \<longleftrightarrow>
     (\<forall>sts tr. grows sts tr (snd (F (replay_backend b sts) tr)))
     \<and> (\<forall>sts sts' N tr. (\<forall>n<N. sts n = sts' n) \<longrightarrow>
          F (replay_backend b sts) tr = F (replay_backend b sts') tr
          \<or> beyond N (snd (F (replay_backend b sts) tr)) (snd (F (replay_backend b sts') tr)))"

definition client3 :: "'s Backend \<Rightarrow> ('s calls Backend \<Rightarrow> 's calls \<Rightarrow> 'x \<times> 'y \<times> 's calls) \<Rightarrow> bool" where
  "client3 b F \<longleftrightarrow> client b (\<lambda>rb tr. case F rb tr of (x, y, tr') \<Rightarrow> ((x, y), tr'))"

named_theorems client_intros "code that uses the backend only through its operations"

lemma client3_return [client_intros]: "client3 b (\<lambda>rb tr. (x, y, tr))"
  by (simp add: client3_def client_def)

lemma replay_client:
  assumes "\<And>sts. F (replay_backend b sts) = replay f sts"
  shows "client b F"
  unfolding client_def assms
proof (intro conjI allI impI)
  show "grows sts tr (snd (replay f sts tr))" for sts tr
    by (simp add: replay_def grows_def Let_def split: prod.splits)
  show "replay f sts tr = replay f sts' tr \<or> beyond N (snd (replay f sts tr)) (snd (replay f sts' tr))"
    if "\<forall>n<N. sts n = sts' n" for sts sts' N tr
    using that by (cases "length tr < N") (auto simp: replay_def beyond_def Let_def split: prod.splits)
qed

lemma client_calls [client_intros]:
  "client b (\<lambda>rb. KeycodeFor rb n)" "client b (\<lambda>rb. WarpMouse rb x y)" "client b (\<lambda>rb. SendKey rb kc p)"
  "client b (\<lambda>rb. SendButton rb btn p)" "client b (\<lambda>rb. ScreenGeometry rb)" "client b (\<lambda>rb. ManagedClients rb)"
  "client b (\<lambda>rb. Revalidate rb ref)" "client b (\<lambda>rb. ActivateAlwaysBoth rb ref)"
  "client b (\<lambda>rb. SetFullscreen rb ref a)" "client b (\<lambda>rb. ActiveWindow rb)"
  by (rule replay_client, simp add: replay_backend_def)+

lemma client_grows: "client b F \<Longrightarrow> F (replay_backend b sts) tr = (x, tr') \<Longrightarrow> grows sts tr tr'"
  unfolding client_def by (metis snd_conv)

lemma client_causal:
  "client b F \<Longrightarrow> \<forall>n<N. sts n = sts' n \<Longrightarrow> F (replay_backend b sts) tr = (x, t) \<Longrightarrow>
   F (replay_backend b sts') tr = (x', t') \<Longrightarrow> x = x' \<and> t = t' \<or> beyond N t t'"
  unfolding client_def by (metis prod.inject snd_conv)

lemma clientI:
  assumes "\<And>sts tr x tr'. F (replay_backend b sts) tr = (x, tr') \<Longrightarrow> grows sts tr tr'"
    and "\<And>sts sts' N tr x t x' t'. \<forall>n<N. sts n = sts' n \<Longrightarrow> F (replay_backend b sts) tr = (x, t) \<Longrightarrow>
      F (replay_backend b sts') tr = (x', t') \<Longrightarrow> x = x' \<and> t = t' \<or> beyond N t t'"
  shows "client b F"
  unfolding client_def
proof (intro conjI allI impI)
  show "grows sts tr (snd (F (replay_backend b sts) tr))" for sts tr
    by (cases "F (replay_backend b sts) tr") (simp add: assms(1))
  show "F (replay_backend b sts) tr = F (replay_backend b sts') tr
      \<or> beyond N (snd (F (replay_backend b sts) tr)) (snd (F (replay_backend b sts') tr))"
    if "\<forall>n<N. sts n = sts' n" for sts sts' N tr
    by (cases "F (replay_backend b sts) tr"; cases "F (replay_backend b sts') tr") (use assms(2) [OF that, of tr] in auto)
qed

lemma client3_grows: "client3 b F \<Longrightarrow> F (replay_backend b sts) tr = (x, y, tr') \<Longrightarrow> grows sts tr tr'"
  unfolding client3_def by (erule client_grows) simp

lemma client3_causal:
  "client3 b F \<Longrightarrow> \<forall>n<N. sts n = sts' n \<Longrightarrow> F (replay_backend b sts) tr = (x, y, t) \<Longrightarrow>
   F (replay_backend b sts') tr = (x', y', t') \<Longrightarrow> t = t' \<or> beyond N t t'"
  unfolding client3_def by (drule (1) client_causal [where tr = tr and x = "(x, y)" and x' = "(x', y')"]) auto

lemma client_bind:
  assumes F: "client b F" and G: "\<And>x. client b (G x)"
  shows "client b (\<lambda>rb tr. case F rb tr of (x, tr') \<Rightarrow> G x rb tr')"
proof (rule clientI)
  show "grows sts tr tr'" if "(case F (replay_backend b sts) tr of (x, tr') \<Rightarrow> G x (replay_backend b sts) tr') = (x, tr')"
    for sts tr x tr'
    using that by (auto split: prod.splits intro: grows_trans client_grows [OF F] client_grows [OF G])
  fix sts sts' :: "nat \<Rightarrow> 'a" and N tr x t x' t'
  let ?b = "replay_backend b sts" let ?b' = "replay_backend b sts'"
  assume agree: "\<forall>n<N. sts n = sts' n"
    and runs: "(case F ?b tr of (x, tr') \<Rightarrow> G x ?b tr') = (x, t)" "(case F ?b' tr of (x, tr') \<Rightarrow> G x ?b' tr') = (x', t')"
  obtain y u y' u' where f: "F ?b tr = (y, u)" "F ?b' tr = (y', u')" by (meson prod.exhaust)
  with runs have g: "G y ?b u = (x, t)" "G y' ?b' u' = (x', t')" by simp_all
  from client_causal [OF F agree f] show "x = x' \<and> t = t' \<or> beyond N t t'"
  proof
    assume "y = y' \<and> u = u'"
    with g client_causal [OF G agree] show ?thesis by blast
  next
    assume "beyond N u u'"
    with beyond_grows client_grows [OF G g(1)] client_grows [OF G g(2)] show ?thesis by blast
  qed
qed

lemma client3_bind [client_intros]:
  assumes "client b F" "\<And>x. client3 b (G x)"
  shows "client3 b (\<lambda>rb tr. case F rb tr of (x, tr') \<Rightarrow> G x rb tr')"
  using client_bind [OF assms(1) assms(2) [unfolded client3_def]]
  by (simp add: client3_def prod.case_distrib)

lemma client3_bind3 [client_intros]:
  assumes "client3 b F" "\<And>x y. client3 b (G x y)"
  shows "client3 b (\<lambda>rb tr. case F rb tr of (x, y, tr') \<Rightarrow> G x y rb tr')"
proof -
  have "client3 b (\<lambda>rb tr. case (case F rb tr of (x, y, tr') \<Rightarrow> ((x, y), tr')) of (xy, tr') \<Rightarrow> G (fst xy) (snd xy) rb tr')"
    by (rule client3_bind [OF assms(1) [unfolded client3_def] assms(2)])
  then show ?thesis by (simp add: prod.case_distrib case_prod_beta)
qed

lemma client3_if [client_intros]: "client3 b F \<Longrightarrow> client3 b G \<Longrightarrow> client3 b (\<lambda>rb tr. if c then F rb tr else G rb tr)"
  by (cases c) simp_all

lemma client3_option [client_intros]:
  "client3 b F \<Longrightarrow> (\<And>y. client3 b (G y)) \<Longrightarrow>
   client3 b (\<lambda>rb tr. case r of None \<Rightarrow> F rb tr | Some y \<Rightarrow> G y rb tr)"
  by (cases r) simp_all

lemma client3_sum [client_intros]:
  "(\<And>y. client3 b (F y)) \<Longrightarrow> (\<And>y. client3 b (G y)) \<Longrightarrow>
   client3 b (\<lambda>rb tr. case r of Inl y \<Rightarrow> F y rb tr | Inr y \<Rightarrow> G y rb tr)"
  by (cases r) simp_all

lemma client3_prod [client_intros]:
  "(\<And>x y. client3 b (F x y)) \<Longrightarrow> client3 b (\<lambda>rb tr. case r of (x, y) \<Rightarrow> F x y rb tr)"
  by (cases r) simp

section \<open>The request path is a client\<close>

lemma release_keys_client [client_intros]: "client3 b (\<lambda>rb. release_keys rb ks first ss)"
proof (induction ks arbitrary: first ss)
  case (Cons kc ks)
  then show ?case unfolding release_keys.simps by (intro client_intros)
qed (unfold release_keys.simps, rule client3_return)

lemma release_buttons_client [client_intros]: "client3 b (\<lambda>rb. release_buttons rb ks first ss)"
proof (induction ks arbitrary: first ss)
  case (Cons kc ks)
  then show ?case unfolding release_buttons.simps by (intro client_intros)
qed (unfold release_buttons.simps, rule client3_return)

lemma Release_client [client_intros]: "client3 b (\<lambda>rb. Release ords sess (Some rb))"
  unfolding Release_def option.case Let_def by (intro client_intros)

lemma Dispatch_client [client_intros]: "client3 b (\<lambda>rb. Dispatch ords req sess (Some rb))"
  unfolding Dispatch_def option.case
  by (cases "Op req"; simp only: Op.case; intro client_intros)

lemma HandleLine_client [client_intros]: "client3 b (\<lambda>rb. HandleLine ords line sess (Some rb))"
  unfolding HandleLine_def Let_def by (intro client_intros)

lemma serve_loop_client [client_intros]: "client3 b (\<lambda>rb. serve_loop rb env n lines sess)"
proof (induction lines arbitrary: n sess)
  case (Cons line lines)
  then show ?case unfolding serve_loop.simps Let_def by (intro client_intros)
qed (unfold serve_loop.simps, rule client3_return)

lemma serveVNextConn_client [client_intros]: "client3 b (\<lambda>rb. serveVNextConn rb env)"
  unfolding serveVNextConn_def Let_def by (intro client_intros)

section \<open>How many calls a connection makes\<close>

text \<open>An amortized count: a hold costs the call that will release it.\<close>

definition hold_count :: "Session \<Rightarrow> nat" where
  "hold_count ss = length (keys ss) + length (buttons ss)"

lemma length_AList_update: "length (AList.update k v m) \<le> Suc (length m)"
  by (induction m) auto

lemma length_AList_delete: "length (AList.delete k m) \<le> length m"
  by (simp add: AList.delete_eq)

lemma length_AList_delete_key:
  "distinct (map fst m) \<Longrightarrow> k \<in> fst ` set m \<Longrightarrow> Suc (length (AList.delete k m)) = length m"
proof (induction m)
  case (Cons a m)
  then show ?case
    by (cases "k = fst a") (auto simp: delete_notin_dom [of k m] split: prod.split)
qed simp

lemma hold_count_New: "hold_count NewSession = 0"
  by (simp add: hold_count_def NewSession_def)

lemma hold_count_note:
  "hold_count (noteKey kc p ss) \<le> Suc (hold_count ss)" "hold_count (noteButton btn p ss) \<le> Suc (hold_count ss)"
  using length_AList_update [of kc True "keys ss"] length_AList_delete [of kc "keys ss"]
    length_AList_update [of btn True "buttons ss"] length_AList_delete [of btn "buttons ss"]
  by (auto simp: hold_count_def noteKey_def noteButton_def)

lemma noteKey_fields: "buttons (noteKey kc p ss) = buttons ss"
  by (simp add: noteKey_def)

lemma noteButton_fields: "keys (noteButton btn p ss) = keys ss"
  by (simp add: noteButton_def)

context reliable_backend
begin

lemma release_keys_count:
  assumes "release_keys (replay_backend b sts) ks first ss tr = (first', ss', tr')" "\<And>n. live (sts n)"
    and "distinct ks" "session_inv ss" "set ks \<subseteq> fst ` set (keys ss)"
  shows "length tr' + hold_count ss' = length tr + hold_count ss \<and> buttons ss' = buttons ss \<and> session_inv ss'"
  using assms(1,3-)
proof (induction ks arbitrary: ss tr)
  case (Cons kc ks)
  obtain r tr1 where call: "replay (SendKey b kc False) sts tr = (r, tr1)" by force
  with SendKey_live [OF _ assms(2)] have r: "r = None" "length tr1 = Suc (length tr)" by (auto dest!: replayD)
  let ?ss = "noteKey kc False ss"
  have cnt: "Suc (hold_count ?ss) = hold_count ss"
    using Cons.prems(3,4) length_AList_delete_key [of "keys ss" kc]
    by (auto simp: hold_count_def noteKey_def session_inv_def)
  have "release_keys (replay_backend b sts) ks first ?ss tr1 = (first', ss', tr')"
    using Cons.prems(1) call r by (simp add: replay_backend_def delete_key_note)
  moreover have "set ks \<subseteq> fst ` set (keys ?ss)"
    using Cons.prems(2,4) by (force simp: noteKey_def AList.delete_eq)
  ultimately show ?case
    using Cons.IH [of ?ss tr1] Cons.prems(2,3) cnt r(2) by (simp add: noteKey_fields)
qed simp

lemma release_buttons_count:
  assumes "release_buttons (replay_backend b sts) ks first ss tr = (first', ss', tr')" "\<And>n. live (sts n)"
    and "distinct ks" "session_inv ss" "set ks \<subseteq> fst ` set (buttons ss)"
  shows "length tr' + hold_count ss' = length tr + hold_count ss \<and> keys ss' = keys ss \<and> session_inv ss'"
  using assms(1,3-)
proof (induction ks arbitrary: ss tr)
  case (Cons kc ks)
  obtain r tr1 where call: "replay (SendButton b kc False) sts tr = (r, tr1)" by force
  with SendButton_live [OF _ assms(2)] have r: "r = None" "length tr1 = Suc (length tr)" by (auto dest!: replayD)
  let ?ss = "noteButton kc False ss"
  have cnt: "Suc (hold_count ?ss) = hold_count ss"
    using Cons.prems(3,4) length_AList_delete_key [of "buttons ss" kc]
    by (auto simp: hold_count_def noteButton_def session_inv_def)
  have "release_buttons (replay_backend b sts) ks first ?ss tr1 = (first', ss', tr')"
    using Cons.prems(1) call r by (simp add: replay_backend_def delete_button_note)
  moreover have "set ks \<subseteq> fst ` set (buttons ?ss)"
    using Cons.prems(2,4) by (force simp: noteButton_def AList.delete_eq)
  ultimately show ?case
    using Cons.IH [of ?ss tr1] Cons.prems(2,3) cnt r(2) by (simp add: noteButton_fields)
qed simp

lemma Release_count:
  assumes "Release ords (Some ss) (Some (replay_backend b sts)) tr = (out, sess', tr')" "\<And>n. live (sts n)"
    and "go_orders ords" "session_inv ss"
  shows "\<exists>ss'. sess' = Some ss' \<and> session_inv ss' \<and> length tr' + hold_count ss' = length tr + hold_count ss"
proof -
  let ?ks = "fst ords (held (keys ss))" and ?bs = "snd ords (held (buttons ss))"
  have ks: "distinct ?ks" "set ?ks \<subseteq> fst ` set (keys ss)" "distinct ?bs" "set ?bs \<subseteq> fst ` set (buttons ss)"
    using assms(3,4) held_distinct
    by (auto simp: go_order_set go_order_distinct session_inv_def) (auto simp: held_def)
  obtain f1 ss1 tr1 where one: "release_keys (replay_backend b sts) ?ks None ss tr = (f1, ss1, tr1)"
    by (metis prod_cases3)
  obtain f2 ss2 tr2 where two: "release_buttons (replay_backend b sts) ?bs f1 ss1 tr1 = (f2, ss2, tr2)"
    by (metis prod_cases3)
  note k = release_keys_count [OF one assms(2) ks(1) assms(4) ks(2)]
  with ks(4) have "set ?bs \<subseteq> fst ` set (buttons ss1)" by simp
  with release_buttons_count [OF two assms(2) ks(3)] k assms(1) one two show ?thesis
    by (auto simp: Release_def)
qed

lemma Dispatch_count:
  assumes "Dispatch ords req (Some ss) (Some (replay_backend b sts)) tr = (out, sess', tr')" "\<And>n. live (sts n)"
    and "go_orders ords" "session_inv ss"
  shows "\<exists>ss'. sess' = Some ss' \<and> session_inv ss' \<and> length tr' + hold_count ss' \<le> length tr + hold_count ss + 3"
proof (cases "Op req = OpRelease")
  case True
  with assms(1) Release_count [OF _ assms(2-4)] show ?thesis by (fastforce simp: Dispatch_def)
next
  case False
  with assms(1,4) show ?thesis
    by (cases "Op req")
       (auto simp: Dispatch_def replay_backend_def split: prod.splits option.splits sum.splits if_splits dest!: replayD
        intro: le_SucI [OF hold_count_note(2)] hold_count_note)
qed

lemma serve_loop_count:
  assumes "serve_loop (replay_backend b sts) env n lines (Some ss) tr = (rs, sess', tr')" "\<And>n. live (sts n)"
    and "\<forall>n. go_orders (range_order env n)" "session_inv ss"
  shows "\<exists>ss'. sess' = Some ss' \<and> session_inv ss'
     \<and> length tr' + hold_count ss' \<le> length tr + hold_count ss + 3 * length lines"
  using assms(1,4)
proof (induction lines arbitrary: n ss tr rs)
  case (Cons line lines)
  obtain out sess1 tr1 where h: "HandleLine (range_order env n) line (Some ss) (Some (replay_backend b sts)) tr = (out, sess1, tr1)"
    by (metis prod_cases3)
  have "\<exists>ss1. sess1 = Some ss1 \<and> session_inv ss1 \<and> length tr1 + hold_count ss1 \<le> length tr + hold_count ss + 3"
    using h Dispatch_count [OF _ assms(2) _ Cons.prems(2)] assms(3) Cons.prems(2)
    by (auto simp: HandleLine_def split: prod.splits if_splits)
  then obtain ss1 where one: "sess1 = Some ss1" "session_inv ss1"
    "length tr1 + hold_count ss1 \<le> length tr + hold_count ss + 3" by blast
  show ?case
  proof (cases "write_ok env n")
    case True
    with Cons.prems(1) h one(1) obtain rs' where
      "serve_loop (replay_backend b sts) env (Suc n) lines (Some ss1) tr1 = (rs', sess', tr')"
      by (auto split: prod.splits)
    from Cons.IH [OF this one(2)] one(3) show ?thesis by auto
  next
    case False
    with Cons.prems(1) h one show ?thesis by auto
  qed
qed auto

lemma replay_connection_count:
  assumes "serveVNextConn (replay_backend b sts) env [] = (rs, out, tr)" "\<And>n. live (sts n)"
    and "\<forall>n. go_orders (range_order env n)"
  shows "length tr \<le> 3 * length (fst (scan_lines scanBufferMax (read_error env) (input env)))"
proof -
  let ?lines = "fst (scan_lines scanBufferMax (read_error env) (input env))"
  obtain rs1 sess1 tr1 where loop: "serve_loop (replay_backend b sts) env 0 ?lines (Some NewSession) [] = (rs1, sess1, tr1)"
    by (metis prod_cases3)
  from serve_loop_count [OF this assms(2,3)] obtain ss1 where
    one: "sess1 = Some ss1" "session_inv ss1" "length tr1 + hold_count ss1 \<le> 3 * length ?lines"
    by (auto simp: hold_count_New)
  obtain out2 sess2 tr2 where rel:
    "Release (range_order env (length ?lines)) (Some ss1) (Some (replay_backend b sts)) tr1 = (out2, sess2, tr2)"
    by (metis prod_cases3)
  from Release_count [OF this assms(2) _ one(2)] assms(3) one(3) assms(1) loop one(1) rel show ?thesis
    by (auto simp: serveVNextConn_def)
qed

end

end
