(* ===== verification/Lock.thy ===== *)
theory Lock
  imports GoStrings
begin

text \<open>
  cmd/xtest-server/lock.go: the advisory lock that makes the daemon the only one on its display. The
  environment variable, the system calls and the effective user are a record of answers.
\<close>

section \<open>Operations\<close>

definition exitLockHeld :: int where "exitLockHeld = 75"

definition lock_rune :: "nat \<Rightarrow> char" where
  "lock_rune r =
     (if (97 \<le> r \<and> r \<le> 122) \<or> (65 \<le> r \<and> r \<le> 90) \<or> (48 \<le> r \<and> r \<le> 57) then char_of r else CHR ''-'')"

text \<open>The loop over the runes of the display name.\<close>

function lock_runes :: "string \<Rightarrow> string" where
  "lock_runes d =
     (if d = [] then []
      else lock_rune (fst (DecodeRune d)) # lock_runes (drop (snd (DecodeRune d)) d))"
  by pat_completeness auto
termination
  by (relation "measure length") (use DecodeRune_width in auto)

declare lock_runes.simps [simp del]

definition displayLockName :: "string \<Rightarrow> string" where
  "displayLockName d0 =
     (let d = (if d0 = [] then ''default'' else d0) in ''x11-input-'' @ lock_runes d @ ''.lock'')"

definition lockPaths :: "string \<Rightarrow> string list" where
  "lockPaths d = (let name = displayLockName d in [''/run/'' @ name, ''/tmp/'' @ name])"

datatype file_kind = Regular | Directory | Symlink | Socket | OtherKind

record lock_stat =
  st_kind :: file_kind
  st_uid :: go_uint32
  st_ino :: nat

text \<open>\<open>sys_open\<close> is the open of a lock file with the flags of the code (create, do not follow links)
  together with its \<open>Fstat\<close>: \<open>Inl\<close> an error of either call. \<open>flock_busy i ino\<close> says that the file is
  locked by another process at the \<open>i\<close>-th attempt.\<close>

record lock_env =
  display :: string
  euid :: int
  sys_open :: "string \<Rightarrow> string + lock_stat"
  flock_busy :: "nat \<Rightarrow> nat \<Rightarrow> bool"

definition currentEUID :: "int \<Rightarrow> go_uint32 option" where
  "currentEUID i = (if i < 0 \<or> i > 4294967295 then None else Some (of_int i))"

definition openLockFile :: "lock_env \<Rightarrow> string \<Rightarrow> string + lock_stat" where
  "openLockFile env path =
     (case sys_open env path of
        Inl err \<Rightarrow> Inl err
      | Inr st \<Rightarrow>
          if currentEUID (euid env) = None \<or> st_kind st \<noteq> Regular \<or> Some (st_uid st) \<noteq> currentEUID (euid env)
          then Inl ''operation not permitted'' else Inr st)"

text \<open>The first path that opens.\<close>

fun first_lock :: "lock_env \<Rightarrow> string list \<Rightarrow> lock_stat option" where
  "first_lock env [] = None"
| "first_lock env (p # ps) =
     (case openLockFile env p of Inr st \<Rightarrow> Some st | Inl err \<Rightarrow> first_lock env ps)"

definition acquireSingletonLock :: "lock_env \<Rightarrow> lock_stat option" where
  "acquireSingletonLock env =
     (case first_lock env (lockPaths (display env)) of
        None \<Rightarrow> None
      | Some st \<Rightarrow> if list_ex (\<lambda>i. \<not> flock_busy env i (st_ino st)) [0..<20] then Some st else None)"

section \<open>The name is a plain file name\<close>

definition lock_char :: "char \<Rightarrow> bool" where
  "lock_char c \<longleftrightarrow> (97 \<le> byte c \<and> byte c \<le> 122) \<or> (65 \<le> byte c \<and> byte c \<le> 90) \<or> is_digit c
     \<or> c = CHR ''-'' \<or> c = CHR ''.''"

lemma lock_rune_char: "lock_char (lock_rune r) \<and> lock_rune r \<noteq> CHR ''.''"
  by (auto simp: lock_rune_def lock_char_def is_digit_def dest: arg_cong [of _ _ byte])

lemma lock_runes_chars: "c \<in> set (lock_runes d) \<Longrightarrow> lock_char c \<and> c \<noteq> CHR ''.''"
proof (induction d rule: lock_runes.induct)
  case (1 d)
  then show ?case using lock_rune_char by (auto simp: lock_runes.simps [of d] split: if_splits)
qed

text \<open>Whatever \<open>DISPLAY\<close> holds, the lock file is a plain file of the lock directory: its name has
  only letters, digits, dashes and the dot of its suffix, so no path separator and no NUL, and the
  two candidate paths lie directly in /run and /tmp.\<close>

lemma displayLockName_plain:
  "list_all lock_char (displayLockName d) \<and> CHR ''/'' \<notin> set (displayLockName d)
   \<and> lockPaths d = [''/run/'' @ displayLockName d, ''/tmp/'' @ displayLockName d]"
  using lock_runes_chars
  by (fastforce simp: displayLockName_def lockPaths_def list_all_iff Let_def lock_char_def is_digit_def)

text \<open>(C36) The lock is taken exactly when one of the two candidate files opens as a regular file of
  the daemon's user and is free at one of twenty attempts; the first of the two that opens is the
  one that counts, and the daemon fails closed otherwise.\<close>

theorem acquireSingletonLock_iff:
  "acquireSingletonLock env = Some st \<longleftrightarrow>
     (openLockFile env (''/run/'' @ displayLockName (display env)) = Inr st
      \<or> isl (openLockFile env (''/run/'' @ displayLockName (display env)))
        \<and> openLockFile env (''/tmp/'' @ displayLockName (display env)) = Inr st)
     \<and> st_kind st = Regular \<and> currentEUID (euid env) = Some (st_uid st)
     \<and> (\<exists>i < 20. \<not> flock_busy env i (st_ino st))"
proof -
  have opened: "openLockFile env p = Inr st \<Longrightarrow>
      st_kind st = Regular \<and> currentEUID (euid env) = Some (st_uid st)" for p
    by (auto simp: openLockFile_def split: sum.splits if_splits)
  have "first_lock env (lockPaths (display env)) = Some st \<longleftrightarrow>
     openLockFile env (''/run/'' @ displayLockName (display env)) = Inr st
      \<or> isl (openLockFile env (''/run/'' @ displayLockName (display env)))
        \<and> openLockFile env (''/tmp/'' @ displayLockName (display env)) = Inr st"
    by (auto simp: lockPaths_def Let_def split: sum.splits)
  with opened show ?thesis
    by (auto simp: acquireSingletonLock_def list_ex_iff split: option.splits)
qed


end
