(* ===== verification/VnextAdmission.thy ===== *)
theory VnextAdmission
  imports GoStrings
begin

text \<open>
  internal/vnext/admission.go: which transport the flags select, the destination socket path and
  the peer allowlists. The effective user and group of the process are arguments.
\<close>

section \<open>Definitions\<close>

datatype Mode = ModeNone | ModeV2 | ModeVNext

datatype admission_error = ErrDualBind | ErrNotUnix | ErrEmptyAllowlist | ErrBadAllowlist

fun admission_text :: "admission_error \<Rightarrow> string" where
  "admission_text ErrDualBind = ''vnext: -tcp/-ws and -vnext cannot both be set''"
| "admission_text ErrNotUnix = ''vnext: destination listen must be unix:path (no wildcard plaintext)''"
| "admission_text ErrEmptyAllowlist = ''vnext: empty dest allowlist does not listen''"
| "admission_text ErrBadAllowlist = ''vnext: dest allowlist must be euid or comma-separated UIDs''"

definition ParseUnixListen :: "string \<Rightarrow> admission_error + string" where
  "ParseUnixListen spec0 =
     (let spec = TrimSpace spec0 in
      if \<not> HasPrefix spec ''unix:'' then Inl ErrNotUnix
      else let path = TrimPrefix spec ''unix:'' in
        if path = [] \<or> ContainsAny path [CHR 0x00, CHR 0x0A, CHR 0x0D] then Inl ErrNotUnix
        else if Contains path ''://'' \<or> HasPrefix path ''//'' then Inl ErrNotUnix
        else if HasPrefix path ''tcp'' \<or> Contains path ''0.0.0.0'' \<or> path = ''*'' then Inl ErrNotUnix
        else if \<not> HasPrefix path ''/'' then Inl ErrNotUnix
        else if Clean path \<noteq> path then Inl ErrNotUnix
        else Inr path)"

definition SelectMode :: "string \<Rightarrow> string \<Rightarrow> admission_error + (Mode \<times> string)" where
  "SelectMode v2TCP0 vnextSpec0 =
     (let v2TCP = TrimSpace v2TCP0; vnextSpec = TrimSpace vnextSpec0 in
      if v2TCP \<noteq> [] \<and> vnextSpec \<noteq> [] then Inl ErrDualBind
      else if vnextSpec \<noteq> [] then
        (case ParseUnixListen vnextSpec of
           Inl e \<Rightarrow> Inl e
         | Inr addr \<Rightarrow> Inr (ModeVNext, addr))
      else Inr (ModeV2, v2TCP))"

definition AdmitFlags :: "string \<Rightarrow> string \<Rightarrow> string \<Rightarrow> admission_error + (Mode \<times> string)" where
  "AdmitFlags tcpAddr wsAddr vnextSpec =
     SelectMode (if TrimSpace wsAddr \<noteq> [] then wsAddr else tcpAddr) vnextSpec"

definition processID :: "go_int \<Rightarrow> admission_error + go_uint32" where
  "processID i = (if i < 0 \<or> i > 4294967295 then Inl ErrBadAllowlist else Inr (of_int i))"

text \<open>The loop over the comma-separated parts, shared by the two parsers: \<open>self\<close> is the word that
  stands for the process's own identifier \<open>sid\<close>.\<close>

fun parse_ids :: "string \<Rightarrow> go_int \<Rightarrow> string list \<Rightarrow> admission_error + go_uint32 list" where
  "parse_ids self sid [] = Inr []"
| "parse_ids self sid (p0 # ps) =
     (let p = TrimSpace p0 in
      if p = [] then parse_ids self sid ps
      else if p = self then
        (case processID sid of
           Inl e \<Rightarrow> Inl e
         | Inr u \<Rightarrow> map_sum id ((#) u) (parse_ids self sid ps))
      else (case ParseUint 32 p of
              (u, Some err) \<Rightarrow> Inl ErrBadAllowlist
            | (u, None) \<Rightarrow> map_sum id ((#) (of_nat u)) (parse_ids self sid ps)))"

definition ParseAllowlist :: "go_int \<Rightarrow> string \<Rightarrow> admission_error + go_uint32 list" where
  "ParseAllowlist geteuid spec0 =
     (let spec = TrimSpace spec0 in
      if spec = [] then Inl ErrEmptyAllowlist
      else case parse_ids ''euid'' geteuid (Split spec (CHR '','')) of
          Inl e \<Rightarrow> Inl e
        | Inr out \<Rightarrow> if out = [] then Inl ErrEmptyAllowlist else Inr out)"

text \<open>The nil list of an empty flag admits any group.\<close>

definition ParseGIDAllowlist :: "go_int \<Rightarrow> string \<Rightarrow> admission_error + go_uint32 list" where
  "ParseGIDAllowlist getegid spec0 =
     (let spec = TrimSpace spec0 in
      if spec = [] then Inr []
      else case parse_ids ''egid'' getegid (Split spec (CHR '','')) of
          Inl e \<Rightarrow> Inl e
        | Inr out \<Rightarrow> if out = [] then Inl ErrBadAllowlist else Inr out)"

section \<open>Admission is exclusive and fails closed\<close>

text \<open>Path elements of a cleaned rooted path: none is empty, a dot or a double dot.\<close>

definition plain_elem :: "string \<Rightarrow> bool" where
  "plain_elem e \<longleftrightarrow> e \<noteq> [] \<and> e \<noteq> ''.'' \<and> e \<noteq> ''..'' \<and> CHR ''/'' \<notin> set e"

lemma clean_elems_plain:
  "list_all plain_elem st \<Longrightarrow> list_all (\<lambda>e. CHR ''/'' \<notin> set e) es \<Longrightarrow>
   list_all plain_elem (clean_elems True st es)"
  by (induction True st es rule: clean_elems.induct)
     (auto simp: plain_elem_def split: list.splits)

lemma Clean_rooted_elems:
  assumes "Clean path = path" "HasPrefix path ''/''"
  shows "\<exists>es. path = ''/'' @ join_slash es \<and> list_all plain_elem es"
proof -
  let ?es = "rev (clean_elems True [] (Split path (CHR ''/'')))"
  have "list_all plain_elem (clean_elems True [] (Split path (CHR ''/'')))"
    by (rule clean_elems_plain) (auto simp: list_all_iff Split_no_sep)
  moreover have "path = ''/'' @ join_slash ?es"
    using assms by (auto simp: Clean_def Let_def split: if_splits)
  ultimately show ?thesis by (metis list_all_rev)
qed

lemma HasPrefix_unix_cases:
  obtains (no) "\<not> HasPrefix s ''unix:''" | (yes) path where "s = ''unix:'' @ path" "TrimPrefix s ''unix:'' = path"
  by (metis HasPrefix_drop TrimPrefix_def)

lemma HasPrefix_slash: "HasPrefix path ''/'' \<Longrightarrow> path \<noteq> [] \<and> \<not> HasPrefix path ''tcp'' \<and> path \<noteq> ''*''"
  by (cases path) auto

lemma ParseUnixListen_iff:
  "ParseUnixListen spec = Inr path \<longleftrightarrow> TrimSpace spec = ''unix:'' @ path \<and> HasPrefix path ''/''
     \<and> \<not> HasPrefix path ''//'' \<and> \<not> ContainsAny path [CHR 0x00, CHR 0x0A, CHR 0x0D]
     \<and> \<not> Contains path ''://'' \<and> \<not> Contains path ''0.0.0.0'' \<and> Clean path = path"
proof (cases "TrimSpace spec" rule: HasPrefix_unix_cases)
  case no
  then have "TrimSpace spec \<noteq> ''unix:'' @ path" by (metis HasPrefix_append)
  with no show ?thesis by (simp add: ParseUnixListen_def)
next
  case (yes path')
  then have pre: "HasPrefix (TrimSpace spec) ''unix:''" by (metis HasPrefix_append)
  have "ParseUnixListen spec = Inr path \<longleftrightarrow> path' = path \<and> HasPrefix path' ''/''
     \<and> \<not> HasPrefix path' ''//'' \<and> \<not> ContainsAny path' [CHR 0x00, CHR 0x0A, CHR 0x0D]
     \<and> \<not> Contains path' ''://'' \<and> \<not> Contains path' ''0.0.0.0'' \<and> Clean path' = path'"
    unfolding ParseUnixListen_def Let_def yes(2) using pre HasPrefix_slash [of path'] by auto
  with yes(1) show ?thesis by auto
qed

lemma ParseUnixListen_error: "ParseUnixListen spec = Inl e \<Longrightarrow> e = ErrNotUnix"
  by (auto simp: ParseUnixListen_def Let_def split: if_splits)

definition blank :: "string \<Rightarrow> bool" where
  "blank s \<longleftrightarrow> TrimSpace s = []"

text \<open>What an accepted socket path looks like: absolute, without control bytes that end a line or
  a C string, made of plain elements.\<close>

definition socket_path :: "string \<Rightarrow> bool" where
  "socket_path path \<longleftrightarrow> (\<exists>es. path = ''/'' @ join_slash es \<and> list_all plain_elem es)
     \<and> set path \<inter> {CHR 0x00, CHR 0x0A, CHR 0x0D} = {}"

lemma ParseUnixListen_path: "ParseUnixListen spec = Inr path \<Longrightarrow> socket_path path"
  unfolding ParseUnixListen_iff socket_path_def
  using Clean_rooted_elems by (auto simp: ContainsAny_def list_ex_iff)

text \<open>(C19) The flags select exactly one transport. A destination socket is selected only when both
  \<open>-tcp\<close> and \<open>-ws\<close> are blank and the path is absolute with plain elements, the legacy transport only
  when \<open>-vnext\<close> is blank (with \<open>-ws\<close> taking the place of \<open>-tcp\<close>), both together are refused as a
  dual bind, and any other destination spec is refused as not a Unix socket.\<close>

theorem AdmitFlags_exclusive:
  "case AdmitFlags tcp ws spec of
     Inr (ModeVNext, path) \<Rightarrow> blank tcp \<and> blank ws \<and> ParseUnixListen (TrimSpace spec) = Inr path \<and> socket_path path
   | Inr (ModeV2, addr) \<Rightarrow> blank spec \<and> addr = TrimSpace (if blank ws then tcp else ws)
   | Inr (ModeNone, addr) \<Rightarrow> False
   | Inl ErrDualBind \<Rightarrow> \<not> blank spec \<and> (\<not> blank tcp \<or> \<not> blank ws)
   | Inl ErrNotUnix \<Rightarrow> blank tcp \<and> blank ws \<and> \<not> blank spec \<and> isl (ParseUnixListen (TrimSpace spec))
   | Inl e \<Rightarrow> False"
  using ParseUnixListen_error [of "TrimSpace spec"] ParseUnixListen_path [of "TrimSpace spec"]
  by (auto simp: AdmitFlags_def SelectMode_def Let_def blank_def
      split: sum.split prod.split Mode.split admission_error.split if_splits)

theorem AdmitFlags_exclusive_witness:
  "AdmitFlags ''a:1'' [] ''unix:/s'' = Inl ErrDualBind \<and> \<not> blank ''a:1''"
proof -
  have "AdmitFlags ''a:1'' [] ''unix:/s'' = Inl ErrDualBind"
    by (simp add: AdmitFlags_def SelectMode_def TrimSpace_id IsSpace_def)
  with AdmitFlags_exclusive [of "''a:1''" "[]" "''unix:/s''"] show ?thesis
    by (simp add: blank_def TrimSpace_id IsSpace_def)
qed

fun join_comma :: "string list \<Rightarrow> string" where
  "join_comma [] = []"
| "join_comma [e] = e"
| "join_comma (e # es) = e @ '','' @ join_comma es"

definition print_ids :: "go_uint32 list \<Rightarrow> string" where
  "print_ids ids = join_comma (map (\<lambda>u. nat_digits (unat u)) ids)"

lemma Split_join_comma:
  "es \<noteq> [] \<Longrightarrow> list_all (\<lambda>e. CHR '','' \<notin> set e) es \<Longrightarrow> Split (join_comma es) (CHR '','') = es"
  by (induction es rule: join_comma.induct) (auto simp: Split_append Split_single)

lemma join_comma_ends:
  "es \<noteq> [] \<Longrightarrow> list_all (\<lambda>e. e \<noteq> []) es \<Longrightarrow>
   join_comma es \<noteq> [] \<and> hd (join_comma es) = hd (hd es) \<and> last (join_comma es) = last (last es)"
  by (induction es rule: join_comma.induct) auto

lemma TrimSpace_print_ids: "ids \<noteq> [] \<Longrightarrow> TrimSpace (print_ids ids) = print_ids ids \<and> print_ids ids \<noteq> []"
  unfolding print_ids_def
  using join_comma_ends [of "map (\<lambda>u. nat_digits (unat u)) ids"]
  by (auto simp: list_all_iff hd_map last_map nat_digits_ends intro!: TrimSpace_digit_ends)

lemma parse_ids_digits:
  assumes "\<forall>n. self \<noteq> nat_digits n"
  shows "parse_ids self sid (map (\<lambda>u. nat_digits (unat u)) ids) = Inr ids"
proof (induction ids)
  case (Cons u us)
  have "TrimSpace (nat_digits (unat u)) = nat_digits (unat u)" by (rule TrimSpace_digit_ends) (simp_all add: nat_digits_ends)
  moreover have "ParseUint 32 (nat_digits (unat u)) = (unat u, None)"
    using unsigned_less [of u, where ?'a = nat] by (intro ParseUint_nat_digits) simp
  moreover have "nat_digits (unat u) \<noteq> self" using assms by metis
  ultimately show ?case using Cons by simp
qed simp

lemma euid_not_digits: "''euid'' \<noteq> nat_digits n" "''egid'' \<noteq> nat_digits n"
proof -
  have "hd s = CHR ''e'' \<Longrightarrow> s \<noteq> nat_digits n" for s
    using nat_digits_ends(1) [of n] by (auto simp: is_digit_def)
  then show "''euid'' \<noteq> nat_digits n" "''egid'' \<noteq> nat_digits n" by simp_all
qed

text \<open>(C38) The allowlist flags round trip: a non-empty list of user or group identifiers, printed
  with commas, parses back to itself, whatever the process's own identifiers are.\<close>

theorem allowlist_roundtrip:
  assumes "ids \<noteq> []"
  shows "ParseAllowlist uid (print_ids ids) = Inr ids \<and> ParseGIDAllowlist gid (print_ids ids) = Inr ids"
  using assms TrimSpace_print_ids [OF assms] parse_ids_digits euid_not_digits
  by (auto simp: ParseAllowlist_def ParseGIDAllowlist_def print_ids_def Split_join_comma list_all_iff)

lemma map_sum_Inr: "map_sum id f x = Inr y \<longleftrightarrow> (\<exists>z. x = Inr z \<and> y = f z)"
  by (cases x) auto

definition id_source :: "string \<Rightarrow> go_int \<Rightarrow> string \<Rightarrow> go_uint32 \<Rightarrow> bool" where
  "id_source self sid p u \<longleftrightarrow>
     (p = self \<and> uint u = sid) \<or> (p \<noteq> [] \<and> ParseUint 32 p = (unat u, None))"

lemma processID_Inr:
  assumes "processID i = Inr u"
  shows "uint u = i"
proof -
  from assms have u: "u = word_of_int i" "0 \<le> i" "i < 2 ^ 32"
    by (auto simp: processID_def split: if_splits)
  then show ?thesis by (simp add: uint_word_of_int)
qed

lemma ParseUint_unat: "ParseUint 32 p = (n, None) \<Longrightarrow> unat (of_nat n :: go_uint32) = n"
  using ParseUint_bound [of 32 p n None] by (simp add: unat_of_nat)

lemma parse_ids_sound:
  "parse_ids self sid ps = Inr out \<Longrightarrow> u \<in> set out \<Longrightarrow> \<exists>p \<in> set ps. id_source self sid (TrimSpace p) u"
proof (induction ps arbitrary: out)
  case (Cons p0 ps)
  show ?case
  proof (cases "parse_ids self sid ps")
    case (Inr out')
    with Cons.prems(1) have "out = out' \<or> (\<exists>v. out = v # out' \<and> id_source self sid (TrimSpace p0) v)"
      by (auto simp: Let_def id_source_def processID_Inr ParseUint_unat
          split: if_splits sum.splits prod.splits option.splits)
    with Cons.IH [OF Inr] Cons.prems(2) show ?thesis by auto
  qed (use Cons.prems(1) in \<open>auto simp: Let_def split: if_splits sum.splits prod.splits option.splits\<close>)
qed simp

theorem allowlist_roundtrip_witness:
  "ParseAllowlist 0 ''1000,7'' = Inr [1000, 7] \<and> ParseGIDAllowlist 0 ''1000,7'' = Inr [1000, 7]"
proof -
  have "print_ids [1000, 7] = ''1000,7''" by code_simp
  with allowlist_roundtrip [of "[1000, 7]" 0 0] show ?thesis by simp
qed

text \<open>(C37) Parsing a user allowlist fails closed: an accepted list is never empty and each of its
  entries is the process's own user, where the flag says \<open>euid\<close>, or a decimal below 2 to the 32
  written between the commas of the flag.\<close>

theorem ParseAllowlist_sound:
  assumes "ParseAllowlist uid spec = Inr out"
  shows "out \<noteq> [] \<and> (\<forall>u \<in> set out. \<exists>p \<in> set (Split (TrimSpace spec) (CHR '','')).
      id_source ''euid'' uid (TrimSpace p) u)"
  using assms parse_ids_sound
  by (fastforce simp: ParseAllowlist_def Let_def split: if_splits sum.splits)

theorem ParseAllowlist_sound_witness:
  "\<exists>p \<in> set (Split (TrimSpace ''euid'') (CHR '','')). id_source ''euid'' 1000 (TrimSpace p) 1000"
proof -
  have "TrimSpace ''euid'' = ''euid''" by (rule TrimSpace_id) (simp_all add: IsSpace_def)
  then have "ParseAllowlist 1000 ''euid'' = Inr [1000]" by (simp add: ParseAllowlist_def processID_def)
  from ParseAllowlist_sound [OF this] show ?thesis by simp
qed

end
