(* ===== verification/Ready.thy ===== *)
theory Ready
  imports GoStrings
begin

text \<open>
  cmd/xtest-server/ready.go: the lines by which a launcher recognises the mode of the daemon, on stdout
  for the legacy transports and on stderr for the destination transport.
\<close>

definition stdinReadyLine :: string where "stdinReadyLine = ''READY''"

definition tcpReadyLine :: "int \<Rightarrow> string" where "tcpReadyLine port = ''READY tcp:'' @ Itoa port"

definition destModeLine :: "string \<Rightarrow> string" where
  "destModeLine path = ''xtest-server: mode dest unix '' @ path"

end
