(* ===== verification/DestServe.thy ===== *)
theory DestServe
  imports DestConn Lock VnextAdmission Ready
begin

text \<open>
  The listener of the destination transport in cmd/xtest-server/dest.go: the checks on the socket's
  parent directory, the takeover of a stale socket, peer admission and the accept loop of
  \<open>serveVNext\<close>. The file system and the peers are given by records of answers.
\<close>

section \<open>The socket\<close>

datatype dest_error = errLivePeer string | errParentNotPrivate | SysError string

text \<open>The text of an error; \<open>errLivePeer\<close> is wrapped with the path.\<close>

fun dest_error_text :: "dest_error \<Rightarrow> string" where
  "dest_error_text (errLivePeer path) = ''destination socket has a live peer: '' @ path"
| "dest_error_text errParentNotPrivate = ''destination socket parent must be owner-only mode 0700''"
| "dest_error_text (SysError msg) = msg"

record file_info =
  fi_kind :: file_kind
  fi_perm :: nat
  fi_uid :: "go_uint32 option"

datatype lstat_result = LInfo file_info | LNotExist | LError string

datatype dial_result = Connected | Refused | DialFailed string

text \<open>What the system answers: \<open>Lstat\<close>, the effective user, the dial of an existing socket, and the
  results of removing, listening and changing the mode (\<open>None\<close> is success).\<close>

record dest_fs =
  Lstat :: "string \<Rightarrow> lstat_result"
  geteuid :: int
  dial :: "string \<Rightarrow> dial_result"
  remove_err :: "string \<Rightarrow> string option"
  listen_err :: "string \<Rightarrow> string option"
  chmod_err :: "string \<Rightarrow> string option"

text \<open>The changes made to the file system, in order.\<close>

datatype fs_action = Remove string | Listen string | Chmod string nat | CloseListener

definition checkUnixParent :: "dest_fs \<Rightarrow> string \<Rightarrow> dest_error option" where
  "checkUnixParent fs path =
     (case Lstat fs (Dir path) of
        LNotExist \<Rightarrow> Some (SysError ''no such file or directory'')
      | LError e \<Rightarrow> Some (SysError e)
      | LInfo fi \<Rightarrow>
          if fi_kind fi \<noteq> Directory then Some errParentNotPrivate
          else if fi_uid fi = None \<or> currentEUID (geteuid fs) = None \<or> fi_uid fi \<noteq> currentEUID (geteuid fs)
            then Some errParentNotPrivate
          else if and (fi_perm fi) 63 \<noteq> 0 then Some errParentNotPrivate
          else None)"

definition bind_socket :: "dest_fs \<Rightarrow> string \<Rightarrow> dest_error option \<times> fs_action list" where
  "bind_socket fs path =
     (case listen_err fs path of
        Some e \<Rightarrow> (Some (SysError e), [])
      | None \<Rightarrow>
          (case chmod_err fs path of
             Some e \<Rightarrow> (Some (SysError e), [Listen path, CloseListener, Remove path])
           | None \<Rightarrow> (None, [Listen path, Chmod path 384])))"

definition remove_and_bind :: "dest_fs \<Rightarrow> string \<Rightarrow> dest_error option \<times> fs_action list" where
  "remove_and_bind fs path =
     (case remove_err fs path of
        Some e \<Rightarrow> (Some (SysError e), [])
      | None \<Rightarrow> apsnd ((#) (Remove path)) (bind_socket fs path))"

definition isConnRefused :: "dial_result \<Rightarrow> bool" where
  "isConnRefused r \<longleftrightarrow> r = Refused"

definition listenUnixDest :: "dest_fs \<Rightarrow> string \<Rightarrow> dest_error option \<times> fs_action list" where
  "listenUnixDest fs path =
     (case checkUnixParent fs path of
        Some e \<Rightarrow> (Some e, [])
      | None \<Rightarrow>
          (case Lstat fs path of
             LInfo fi \<Rightarrow>
               if fi_kind fi = Symlink then (Some (errLivePeer path), [])
               else if fi_kind fi = Socket
                    \<and> (dial fs path = Connected \<or> \<not> isConnRefused (dial fs path))
                 then (Some (errLivePeer path), [])
               else remove_and_bind fs path
           | LError e \<Rightarrow> (Some (SysError e), [])
           | LNotExist \<Rightarrow> bind_socket fs path))"

section \<open>Peers and the accept loop\<close>

text \<open>What the calls of \<open>allowPeer\<close> on an accepted connection answer: whether it is a Unix connection,
  the errors of \<open>SyscallConn\<close> and of \<open>Control\<close>, which then does not run its function, and the
  credentials of \<open>getsockopt\<close> with \<open>SO_PEERCRED\<close>.\<close>

record peer =
  unix_conn :: bool
  syscall_err :: "string option"
  control_err :: "string option"
  so_peercred :: "(go_uint32 \<times> go_uint32) option"

text \<open>\<open>peer_ucred\<close> leaves its two out-parameters alone when it fails.\<close>

definition peer_ucred :: "peer \<Rightarrow> go_uint32 \<times> go_uint32 \<Rightarrow> int \<times> go_uint32 \<times> go_uint32" where
  "peer_ucred p ug = (case so_peercred p of None \<Rightarrow> (-1, ug) | Some c \<Rightarrow> (0, c))"

definition peerUID :: "peer \<Rightarrow> go_uint32 \<times> go_uint32 \<times> bool" where
  "peerUID p = (let (rc, u, g) = peer_ucred p (0, 0) in if rc \<noteq> 0 then (0, 0, False) else (u, g, True))"

definition nocgo_peerUID :: "peer \<Rightarrow> go_uint32 \<times> go_uint32 \<times> bool" where
  "nocgo_peerUID p = (0, 0, False)"

definition allowPeer :: "peer \<Rightarrow> go_uint32 list \<Rightarrow> go_uint32 list \<Rightarrow> bool" where
  "allowPeer p allow gids =
     (if allow = [] then False
      else if \<not> unix_conn p then False
      else if syscall_err p \<noteq> None then False
      else let (uid, gid, got) = (if control_err p = None then peerUID p else (0, 0, False))
        in if \<not> got then False
           else if \<not> list_ex (\<lambda>a. a = uid) allow then False
           else if gids = [] then True
           else list_ex (\<lambda>g. g = gid) gids)"

definition destMaxConns :: nat where "destMaxConns = 10"

text \<open>The accept loop: the open connections with their peers, what it wrote to stderr, and the exit
  status once the process has ended or the loop has returned.\<close>

datatype dest_exit = Returned | Exited int

record dest_server =
  dconns :: "(nat \<times> peer) list"
  dlog :: "string list"
  dexit :: "dest_exit option"

datatype dest_event =
    DAcceptClosed
  | DAcceptFailed string
  | DAccepted nat peer
  | DFinished nat

fun dest_handle :: "go_uint32 list \<Rightarrow> go_uint32 list \<Rightarrow> dest_event \<Rightarrow> dest_server \<Rightarrow> dest_server option" where
  "dest_handle allow gids DAcceptClosed sv =
     (if dexit sv \<noteq> None then None else Some (sv\<lparr>dexit := Some Returned\<rparr>))"
| "dest_handle allow gids (DAcceptFailed msg) sv =
     (if dexit sv \<noteq> None then None
      else Some (sv\<lparr>dexit := Some (Exited 1), dlog := dlog sv @ [''xtest-server: dest accept: '' @ msg @ [LF]]\<rparr>))"
| "dest_handle allow gids (DAccepted c p) sv =
     (if dexit sv \<noteq> None \<or> c \<in> fst ` set (dconns sv) then None
      else if \<not> allowPeer p allow gids then Some sv
      else if length (dconns sv) < destMaxConns then Some (sv\<lparr>dconns := (c, p) # dconns sv\<rparr>)
      else Some (sv\<lparr>dlog := dlog sv @ [''xtest-server: dest connection limit reached; dropping'' @ [LF]]\<rparr>))"
| "dest_handle allow gids (DFinished c) sv =
     (if c \<notin> fst ` set (dconns sv) then None else Some (sv\<lparr>dconns := AList.delete c (dconns sv)\<rparr>))"

text \<open>\<open>serveVNext\<close> up to its accept loop: the exit status or the state of the loop, what it wrote to
  stderr, and what it did to the file system. An empty allowlist exits with 2, a socket that cannot be
  bound with 1.\<close>

definition serveVNext_start :: "dest_fs \<Rightarrow> string \<Rightarrow> go_uint32 list \<Rightarrow> (int + dest_server) \<times> string list \<times> fs_action list" where
  "serveVNext_start fs path allow =
     (if allow = [] then (Inl 2, [admission_text ErrEmptyAllowlist @ [LF]], [])
      else case listenUnixDest fs path of
          (Some e, acts) \<Rightarrow> (Inl 1, [''xtest-server: '' @ dest_error_text e @ [LF]], acts)
        | (None, acts) \<Rightarrow>
            let lg = [destModeLine path @ [LF]] in (Inr \<lparr>dconns = [], dlog = lg, dexit = None\<rparr>, lg, acts))"

inductive dest_reach :: "go_uint32 list \<Rightarrow> go_uint32 list \<Rightarrow> dest_server \<Rightarrow> dest_server \<Rightarrow> bool" for allow gids sv0 where
  dest_start: "dest_reach allow gids sv0 sv0"
| dest_step: "dest_reach allow gids sv0 sv \<Longrightarrow> dest_handle allow gids e sv = Some sv' \<Longrightarrow> dest_reach allow gids sv0 sv'"

section \<open>Binding is safe\<close>

definition private_dir :: "dest_fs \<Rightarrow> string \<Rightarrow> bool" where
  "private_dir fs dir \<longleftrightarrow> (\<exists>fi u. Lstat fs dir = LInfo fi \<and> fi_kind fi = Directory \<and> fi_uid fi = Some u
     \<and> currentEUID (geteuid fs) = Some u \<and> fi_perm fi mod 64 = 0)"

text \<open>A stale socket of the user in a private directory.\<close>

definition sample_fs :: dest_fs where
  "sample_fs = \<lparr>Lstat = (\<lambda>p. if p = ''/run/d'' then LInfo \<lparr>fi_kind = Directory, fi_perm = 448, fi_uid = Some 1000\<rparr>
                 else LInfo \<lparr>fi_kind = Socket, fi_perm = 384, fi_uid = Some 1000\<rparr>),
     geteuid = 1000, dial = (\<lambda>p. Refused), remove_err = Map.empty, listen_err = Map.empty,
     chmod_err = Map.empty\<rparr>"

lemma and_63: "and n 63 = n mod (64 :: nat)"
  using take_bit_eq_mask [of 6 n] by (simp add: take_bit_eq_mod mask_eq_exp_minus_1)

lemma checkUnixParent_None: "checkUnixParent fs path = None \<longleftrightarrow> private_dir fs (Dir path)"
  by (auto simp: checkUnixParent_def private_dir_def and_63 split: lstat_result.splits)

text \<open>(C16) Taking over the socket path: the file system is touched only when the parent is a directory
  of the daemon's user without group or world access; then a symbolic link, a socket with a live
  peer and a socket whose dial fails otherwise than refused are left alone with an error; the daemon
  serves only after the socket has been bound and its mode set to 0600; and after a failed mode
  change the socket is closed and removed again.\<close>

theorem listenUnixDest_safe:
  assumes "listenUnixDest fs path = (r, acts)"
  shows "(acts \<noteq> [] \<longrightarrow> private_dir fs (Dir path)
      \<and> (\<forall>fi. Lstat fs path = LInfo fi \<longrightarrow>
           fi_kind fi \<noteq> Symlink \<and> (fi_kind fi = Socket \<longrightarrow> dial fs path = Refused)))
    \<and> (r = None \<longleftrightarrow> Chmod path 384 \<in> set acts)
    \<and> (r = None \<longrightarrow> acts \<in> {[Listen path, Chmod path 384], [Remove path, Listen path, Chmod path 384]})
    \<and> (r \<noteq> None \<and> Listen path \<in> set acts \<longrightarrow> last acts = Remove path)"
proof (cases "checkUnixParent fs path")
  case (Some e)
  with assms have "r = Some e" "acts = []" by (simp_all add: listenUnixDest_def)
  then show ?thesis by simp
next
  case None
  with assms checkUnixParent_None [of fs path] show ?thesis
    by (auto simp: listenUnixDest_def remove_and_bind_def bind_socket_def isConnRefused_def
        split: option.splits lstat_result.splits if_splits)
qed

lemma sample_listen:
  "listenUnixDest sample_fs ''/run/d/s'' = (None, [Remove ''/run/d/s'', Listen ''/run/d/s'', Chmod ''/run/d/s'' 384])"
proof -
  have "Dir ''/run/d/s'' = ''/run/d''" by (simp add: Dir_def Clean_def)
  then show ?thesis
    by (simp add: sample_fs_def listenUnixDest_def checkUnixParent_def currentEUID_def isConnRefused_def
        remove_and_bind_def bind_socket_def and_63)
qed

theorem listenUnixDest_safe_witness:
  "fst (listenUnixDest sample_fs ''/run/d/s'') = None \<and> private_dir sample_fs (Dir ''/run/d/s'')"
  using listenUnixDest_safe [OF sample_listen] sample_listen by simp

lemma listenUnixDest_ok: "listenUnixDest fs path = (None, acts) \<Longrightarrow> Chmod path 384 \<in> set acts"
  by (auto simp: listenUnixDest_def remove_and_bind_def bind_socket_def
      split: option.splits lstat_result.splits if_splits)

definition admitted :: "go_uint32 list \<Rightarrow> go_uint32 list \<Rightarrow> peer \<Rightarrow> bool" where
  "admitted allow gids p \<longleftrightarrow> unix_conn p
     \<and> (\<exists>uid gid. so_peercred p = Some (uid, gid) \<and> uid \<in> set allow \<and> (gids = [] \<or> gid \<in> set gids))"

lemma allowPeer_admitted: "allowPeer p allow gids \<Longrightarrow> admitted allow gids p"
  by (auto simp: allowPeer_def admitted_def peerUID_def peer_ucred_def list_ex_iff
      split: option.splits if_splits)

lemma allowPeer_iff:
  "syscall_err p = None \<Longrightarrow> control_err p = None \<Longrightarrow> allowPeer p allow gids \<longleftrightarrow> admitted allow gids p"
  by (auto simp: allowPeer_def admitted_def peerUID_def peer_ucred_def list_ex_iff split: option.splits)

lemma dest_handle_inv:
  assumes "dest_handle allow gids e sv = Some sv'" "length (dconns sv) \<le> 10" "distinct (map fst (dconns sv))"
    and "list_all (admitted allow gids \<circ> snd) (dconns sv)"
  shows "length (dconns sv') \<le> 10 \<and> distinct (map fst (dconns sv'))
     \<and> list_all (admitted allow gids \<circ> snd) (dconns sv')"
proof (cases e)
  case (DFinished c)
  have "length (AList.delete c (dconns sv)) \<le> length (dconns sv)"
    "set (AList.delete c (dconns sv)) \<subseteq> set (dconns sv)"
    by (auto simp: AList.delete_eq)
  with DFinished assms show ?thesis by (auto simp: distinct_delete list_all_iff split: if_splits)
qed (use assms in \<open>auto simp: destMaxConns_def allowPeer_admitted split: if_splits\<close>)

text \<open>Admission on the destination socket: the accept loop starts only after the socket was bound
  with mode 0600, and under every sequence of accepts and disconnections at most ten connections are
  served and the peer of each is an allowlisted user, of an allowlisted group when groups are
  configured.\<close>

lemma dest_server_admits:
  assumes "serveVNext_start fs path allow = (Inr sv0, lg, acts)" "dest_reach allow gids sv0 sv"
  shows "Chmod path 384 \<in> set acts \<and> length (dconns sv) \<le> 10 \<and> distinct (map fst (dconns sv))
     \<and> list_all (admitted allow gids \<circ> snd) (dconns sv)"
proof -
  have start: "Chmod path 384 \<in> set acts" "dconns sv0 = []"
    using assms(1) listenUnixDest_ok [of fs path]
    by (auto simp: serveVNext_start_def Let_def split: if_splits prod.splits option.splits)
  from assms(2) have "length (dconns sv) \<le> 10 \<and> distinct (map fst (dconns sv))
     \<and> list_all (admitted allow gids \<circ> snd) (dconns sv)"
    by (induction rule: dest_reach.induct) (simp add: start, metis dest_handle_inv)
  with start show ?thesis by blast
qed

end
