(* ===== verification/V2line.thy ===== *)
theory V2line
  imports Backend
begin

text \<open>
  internal/v2line/dispatch.go and redact.go: the legacy line protocol. \<open>Actuator\<close> is the interface
  of the X-facing side as a record of operations; \<open>v2_Dispatch\<close> runs one line against it and
  returns what it logs. \<open>time.Sleep\<close> is an argument, because the pauses are part of what a line
  does. The plan of a line is its specification: what it asks for once its fields are read.
\<close>

section \<open>The interface\<close>

record 's Actuator =
  act_KeycodeFor :: "string \<Rightarrow> 's \<Rightarrow> go_uint \<times> 's"
  act_SendKey :: "go_uint \<Rightarrow> bool \<Rightarrow> 's \<Rightarrow> 's"
  act_MoveMouse :: "go_int \<Rightarrow> go_int \<Rightarrow> 's \<Rightarrow> 's"
  act_SendButton :: "go_uint \<Rightarrow> bool \<Rightarrow> 's \<Rightarrow> 's"
  act_ReleaseAll :: "'s \<Rightarrow> 's"

section \<open>Parsing and dispatch\<close>

definition minKeyHoldMillis :: int where "minKeyHoldMillis = 20"
definition maxKeyHoldMillis :: int where "maxKeyHoldMillis = 500"
definition modclickDefault :: int where "modclickDefault = 45"

text \<open>A duration is its number of milliseconds.\<close>

definition ParseKeyHold :: "string list \<Rightarrow> int option" where
  "ParseKeyHold parts =
     (if length parts \<noteq> 3 \<or> parts ! 0 \<noteq> ''key'' then None
      else let (holdMillis, err) = Atoi (parts ! 2) in
        if err \<noteq> None \<or> Itoa holdMillis \<noteq> parts ! 2 \<or> holdMillis < minKeyHoldMillis
           \<or> holdMillis > maxKeyHoldMillis
        then None else Some holdMillis)"

definition invalid_key_log :: string where
  "invalid_key_log = ''xtest-server: invalid key command; expected key <keysym> <hold-ms 20..500>'' @ [CHR 0x0A]"

definition unknown_keysym_log :: string where
  "unknown_keysym_log = ''xtest-server: unknown keysym (key dropped)'' @ [CHR 0x0A]"

definition keycodeOrLog :: "'s Actuator \<Rightarrow> string \<Rightarrow> 's \<Rightarrow> go_uint \<times> string list \<times> 's" where
  "keycodeOrLog a name s =
     (let (kc, s') = act_KeycodeFor a name s in
      (kc, if kc = 0 then [unknown_keysym_log] else [], s'))"

definition modclick_hold :: "string \<Rightarrow> int" where
  "modclick_hold part =
     (let (holdMillis, err) = Atoi part in
      if err \<noteq> None \<or> holdMillis < minKeyHoldMillis \<or> holdMillis > maxKeyHoldMillis
      then modclickDefault else holdMillis)"

definition modclick :: "'s Actuator \<Rightarrow> (int \<Rightarrow> 's \<Rightarrow> 's) \<Rightarrow> go_uint \<Rightarrow> string list \<Rightarrow> 's \<Rightarrow> 's" where
  "modclick a sleep kc parts s =
     (case Atoi (parts ! 2) of
        (b, Some e) \<Rightarrow> s
      | (b, None) \<Rightarrow>
          (case Atoi (parts ! 3) of
             (x, Some e) \<Rightarrow> s
           | (x, None) \<Rightarrow>
               (case Atoi (parts ! 4) of
                  (y, Some e) \<Rightarrow> s
                | (y, None) \<Rightarrow>
                    let holdMillis = modclick_hold (parts ! 5);
                        s1 = act_SendKey a kc True s;
                        s2 = act_MoveMouse a x y s1;
                        s3 = sleep holdMillis s2;
                        s4 = act_SendButton a (of_int b) True s3;
                        s5 = sleep holdMillis s4;
                        s6 = act_SendButton a (of_int b) False s5
                    in act_SendKey a kc False s6)))"

text \<open>A nil actuator is \<open>None\<close>; the result is the log and the new state.\<close>

definition v2_Dispatch :: "string \<Rightarrow> 's Actuator option \<Rightarrow> (int \<Rightarrow> 's \<Rightarrow> 's) \<Rightarrow> 's \<Rightarrow> string list \<times> 's" where
  "v2_Dispatch cmd0 ao sleep s =
     (case ao of
        None \<Rightarrow> ([], s)
      | Some a \<Rightarrow>
          let cmd = TrimSpace cmd0; parts = Fields cmd in
          if cmd = [] \<or> parts = [] then ([], s)
          else if parts ! 0 = ''keydown'' then
            (if length parts < 2 then ([], s)
             else let (kc, lg, s1) = keycodeOrLog a (parts ! 1) s
                  in (lg, if kc \<noteq> 0 then act_SendKey a kc True s1 else s1))
          else if parts ! 0 = ''keyup'' then
            (if length parts < 2 then ([], s)
             else let (kc, lg, s1) = keycodeOrLog a (parts ! 1) s
                  in (lg, if kc \<noteq> 0 then act_SendKey a kc False s1 else s1))
          else if parts ! 0 = ''key'' then
            (case ParseKeyHold parts of
               None \<Rightarrow> ([invalid_key_log], s)
             | Some hold \<Rightarrow>
                 let (kc, lg, s1) = keycodeOrLog a (parts ! 1) s
                 in (lg, if kc \<noteq> 0
                         then act_SendKey a kc False (sleep hold (act_SendKey a kc True s1)) else s1))
          else if parts ! 0 = ''mousemove'' then
            (if length parts < 3 then ([], s)
             else ([], act_MoveMouse a (fst (Atoi (parts ! 1))) (fst (Atoi (parts ! 2))) s))
          else if parts ! 0 = ''mousedown'' then
            (if length parts < 2 then ([], s)
             else ([], act_SendButton a (of_int (fst (Atoi (parts ! 1)))) True s))
          else if parts ! 0 = ''mouseup'' then
            (if length parts < 2 then ([], s)
             else ([], act_SendButton a (of_int (fst (Atoi (parts ! 1)))) False s))
          else if parts ! 0 = ''click'' then
            (if length parts < 2 then ([], s)
             else let b = of_int (fst (Atoi (parts ! 1)))
                  in ([], act_SendButton a b False (act_SendButton a b True s)))
          else if parts ! 0 = ''modclick'' then
            (if length parts < 6 then ([], s)
             else let (kc, lg, s1) = keycodeOrLog a (parts ! 1) s
                  in (lg, if kc \<noteq> 0 then modclick a sleep kc parts s1 else s1))
          else if parts ! 0 = ''releaseall'' then ([], act_ReleaseAll a s)
          else ([], s))"

section \<open>Redaction\<close>

definition knownOps :: "string list" where
  "knownOps = [''keydown'', ''keyup'', ''key'', ''mousemove'', ''mousedown'', ''mouseup'', ''click'',
     ''modclick'', ''releaseall'']"

definition RedactLine :: "string \<Rightarrow> string" where
  "RedactLine cmd =
     (let parts = Fields (TrimSpace cmd) in
      if parts = [] then ''<empty>''
      else if hd parts \<notin> set knownOps then ''<redacted>''
      else if length parts = 1 then hd parts
      else hd parts @ '' <redacted>'')"

section \<open>The plan of a line\<close>

datatype v2_event =
    VKey go_uint bool
  | VMove go_int go_int
  | VButton go_uint bool
  | VReleaseAll
  | VSleep int

datatype v2_plan =
    Ignore
  | BadKey
  | Direct "v2_event list"
  | WithKey string "go_uint \<Rightarrow> v2_event list"

definition modclick_events :: "string list \<Rightarrow> go_uint \<Rightarrow> v2_event list" where
  "modclick_events parts kc =
     (if snd (Atoi (parts ! 2)) \<noteq> None \<or> snd (Atoi (parts ! 3)) \<noteq> None \<or> snd (Atoi (parts ! 4)) \<noteq> None
      then []
      else let b = of_int (fst (Atoi (parts ! 2))); hold = modclick_hold (parts ! 5)
           in [VKey kc True, VMove (fst (Atoi (parts ! 3))) (fst (Atoi (parts ! 4))), VSleep hold,
               VButton b True, VSleep hold, VButton b False, VKey kc False])"

definition plan_fields :: "string list \<Rightarrow> v2_plan" where
  "plan_fields parts =
     (case parts of
        [] \<Rightarrow> Ignore
      | op # args \<Rightarrow>
          if op = ''key'' then
            (case ParseKeyHold parts of
               None \<Rightarrow> BadKey
             | Some hold \<Rightarrow> WithKey (args ! 0) (\<lambda>kc. [VKey kc True, VSleep hold, VKey kc False]))
          else if op = ''releaseall'' then Direct [VReleaseAll]
          else if args = [] then Ignore
          else let b = of_int (fst (Atoi (args ! 0))) in
            if op = ''keydown'' then WithKey (args ! 0) (\<lambda>kc. [VKey kc True])
            else if op = ''keyup'' then WithKey (args ! 0) (\<lambda>kc. [VKey kc False])
            else if op = ''mousedown'' then Direct [VButton b True]
            else if op = ''mouseup'' then Direct [VButton b False]
            else if op = ''click'' then Direct [VButton b True, VButton b False]
            else if op = ''mousemove'' \<and> length args \<ge> 2
              then Direct [VMove (fst (Atoi (args ! 0))) (fst (Atoi (args ! 1)))]
            else if op = ''modclick'' \<and> length args \<ge> 5 then WithKey (args ! 0) (modclick_events parts)
            else Ignore)"

definition plan :: "string \<Rightarrow> v2_plan" where
  "plan cmd = plan_fields (Fields (TrimSpace cmd))"

text \<open>The actuator contract: between two states exactly the given events were submitted.\<close>

locale actuator_contract =
  fixes a :: "'s Actuator"
    and sleep :: "int \<Rightarrow> 's \<Rightarrow> 's"
    and sends :: "'s \<Rightarrow> v2_event list \<Rightarrow> 's \<Rightarrow> bool"
  assumes sends_refl: "sends s [] s"
    and sends_trans: "sends s es s' \<Longrightarrow> sends s' fs s'' \<Longrightarrow> sends s (es @ fs) s''"
    and sends_KeycodeFor: "act_KeycodeFor a n s = (kc, s') \<Longrightarrow> sends s [] s'"
    and sends_SendKey: "sends s [VKey kc p] (act_SendKey a kc p s)"
    and sends_MoveMouse: "sends s [VMove x y] (act_MoveMouse a x y s)"
    and sends_SendButton: "sends s [VButton b p] (act_SendButton a b p s)"
    and sends_ReleaseAll: "sends s [VReleaseAll] (act_ReleaseAll a s)"
    and sends_sleep: "sends s [VSleep ms] (sleep ms s)"
begin

lemma sends_Cons: "sends s [e] s' \<Longrightarrow> sends s' es s'' \<Longrightarrow> sends s (e # es) s''"
  using sends_trans [of s "[e]"] by simp

lemma sends_left: "sends s [] s' \<Longrightarrow> sends s' es s'' \<Longrightarrow> sends s es s''"
  using sends_trans [of s "[]"] by simp

lemmas sends_steps = sends_SendKey sends_MoveMouse sends_SendButton sends_ReleaseAll sends_sleep

lemma modclick_sends: "sends s (modclick_events parts kc) (modclick a sleep kc parts s)"
  by (auto simp: modclick_events_def modclick_def Let_def sends_refl split: prod.splits option.splits
      intro!: sends_Cons [OF sends_SendKey] sends_Cons [OF sends_MoveMouse] sends_Cons [OF sends_sleep]
      sends_Cons [OF sends_SendButton] sends_SendKey)

end

lemma Fields_Nil [simp]: "Fields [] = []"
  by (simp add: Fields_def fields_from.simps)

context actuator_contract
begin

definition follows :: "v2_plan \<Rightarrow> 's \<Rightarrow> string list \<times> 's \<Rightarrow> bool" where
  "follows p s res =
     (case p of
        Ignore \<Rightarrow> res = ([], s)
      | BadKey \<Rightarrow> res = ([invalid_key_log], s)
      | Direct es \<Rightarrow> fst res = [] \<and> sends s es (snd res)
      | WithKey n f \<Rightarrow>
          (let kc = fst (act_KeycodeFor a n s) in
           if kc = 0 then fst res = [unknown_keysym_log] \<and> sends s [] (snd res)
           else fst res = [] \<and> sends s (f kc) (snd res)))"

lemma follows_WithKey:
  assumes "\<And>kc s1. sends s1 (f kc) (g kc s1)"
  shows "follows (WithKey n f) s
    (let (kc, lg, s1) = keycodeOrLog a n s in (lg, if kc \<noteq> 0 then g kc s1 else s1))"
proof -
  obtain kc s1 where kc: "act_KeycodeFor a n s = (kc, s1)" by force
  show ?thesis
    using sends_left [OF sends_KeycodeFor [OF kc] assms] sends_KeycodeFor [OF kc] kc
    by (auto simp: follows_def keycodeOrLog_def)
qed

lemma follows_Direct: "sends s es s' \<Longrightarrow> follows (Direct es) s ([], s')"
  by (simp add: follows_def)

lemma follows_Ignore: "follows Ignore s ([], s)" "follows BadKey s ([invalid_key_log], s)"
  by (simp_all add: follows_def)

lemma v2_Dispatch_plan: "follows (plan cmd) s (v2_Dispatch cmd (Some a) sleep s)"
proof (cases "Fields (TrimSpace cmd)")
  case Nil
  then show ?thesis by (simp add: plan_def plan_fields_def v2_Dispatch_def follows_Ignore)
next
  case (Cons op args)
  then have ne: "TrimSpace cmd \<noteq> []" by auto
  note steps = follows_Ignore follows_Direct follows_WithKey [unfolded Let_def] sends_steps
    sends_Cons [OF sends_SendKey] sends_Cons [OF sends_SendButton] sends_Cons [OF sends_sleep] modclick_sends
  show ?thesis
    unfolding plan_def plan_fields_def v2_Dispatch_def option.simps Cons list.simps Let_def nth_Cons_0
    using ne
    by (auto simp: nth_Cons' intro!: steps split: option.split)
qed

end

section \<open>Properties of the line protocol\<close>

lemma Atoi_Itoa: "20 \<le> h \<Longrightarrow> h \<le> 500 \<Longrightarrow> Atoi (Itoa h) = (h, None)"
  by (simp add: Atoi_def ParseInt_Itoa int64_range_def minInt64_def maxInt64_def)

text \<open>(C29) \<open>ParseKeyHold\<close> accepts exactly the fields \<open>key\<close>, a name and the canonical decimal of a hold
  between 20 and 500 milliseconds, and returns that hold.\<close>

theorem ParseKeyHold_iff:
  "ParseKeyHold parts = Some h \<longleftrightarrow> (\<exists>name. parts = [''key'', name, Itoa h]) \<and> 20 \<le> h \<and> h \<le> 500"
proof
  assume "ParseKeyHold parts = Some h"
  then have p: "length parts = 3" "parts ! 0 = ''key''" "Itoa h = parts ! 2" "20 \<le> h" "h \<le> 500"
    by (auto simp: ParseKeyHold_def minKeyHoldMillis_def maxKeyHoldMillis_def split: if_splits prod.splits)
  from p(1) obtain x y z where "parts = [x, y, z]" by (auto simp: numeral_eq_Suc length_Suc_conv)
  with p show "(\<exists>name. parts = [''key'', name, Itoa h]) \<and> 20 \<le> h \<and> h \<le> 500" by auto
next
  assume "(\<exists>name. parts = [''key'', name, Itoa h]) \<and> 20 \<le> h \<and> h \<le> 500"
  then show "ParseKeyHold parts = Some h"
    by (auto simp: ParseKeyHold_def Atoi_Itoa minKeyHoldMillis_def maxKeyHoldMillis_def)
qed

text \<open>The events a line may submit, given the keycode its key resolves to.\<close>

definition plan_events :: "v2_plan \<Rightarrow> go_uint \<Rightarrow> v2_event list" where
  "plan_events p kc = (case p of Ignore \<Rightarrow> [] | BadKey \<Rightarrow> [] | Direct es \<Rightarrow> es | WithKey n f \<Rightarrow> f kc)"

fun v2_apply :: "v2_event \<Rightarrow> holds \<Rightarrow> holds" where
  "v2_apply (VKey kc p) h = apply_event (EvKey kc p) h"
| "v2_apply (VButton b p) h = apply_event (EvButton b p) h"
| "v2_apply _ h = h"

lemma modclick_hold_bounds: "20 \<le> modclick_hold s \<and> modclick_hold s \<le> 500"
  by (simp add: modclick_hold_def minKeyHoldMillis_def maxKeyHoldMillis_def modclickDefault_def split: prod.split)

lemma ParseKeyHold_bounds: "ParseKeyHold parts = Some h \<Longrightarrow> 20 \<le> h \<and> h \<le> 500"
  by (auto simp: ParseKeyHold_def minKeyHoldMillis_def maxKeyHoldMillis_def split: if_splits prod.splits)

lemma modclick_events_sleep: "VSleep ms \<in> set (modclick_events parts kc) \<Longrightarrow> 20 \<le> ms \<and> ms \<le> 500"
  using modclick_hold_bounds by (auto simp: modclick_events_def Let_def split: if_splits)

lemma plan_fields_sleep: "VSleep ms \<in> set (plan_events (plan_fields parts) kc) \<Longrightarrow> 20 \<le> ms \<and> ms \<le> 500"
  by (cases parts) (auto simp: plan_fields_def plan_events_def Let_def split: if_splits option.splits
      dest: modclick_events_sleep ParseKeyHold_bounds)

lemma plan_fields_keys: "VKey k p \<in> set (plan_events (plan_fields parts) kc) \<Longrightarrow> k = kc"
  by (cases parts) (auto simp: plan_fields_def plan_events_def modclick_events_def Let_def
      split: if_splits option.splits)




text \<open>The tokens of the debug log.\<close>

definition redaction_tokens :: "string list" where
  "redaction_tokens = [''<empty>'', ''<redacted>''] @ knownOps @ map (\<lambda>op. op @ '' <redacted>'') knownOps"

lemma RedactLine_token: "RedactLine cmd \<in> set redaction_tokens"
  by (auto simp: RedactLine_def redaction_tokens_def Let_def)

context actuator_contract
begin

lemma v2_Dispatch_log: "fst (v2_Dispatch cmd (Some a) sleep s) \<in> {[], [invalid_key_log], [unknown_keysym_log]}"
  using v2_Dispatch_plan [of cmd s]
  by (auto simp: follows_def Let_def split: v2_plan.splits if_splits)

end

end
