(* ===== verification/Handle.thy ===== *)
theory Handle
  imports V2line X11 GoBufio
begin

text \<open>
  cmd/xtest-server/handle.go and the scanner loops of serve.go: the legacy command path. The state
  of the process is the X state together with what has been written to stderr; the process-global
  mutex makes each command one step on it. \<open>xActuator\<close> keeps the actuator contract of the line
  protocol, so a scanned stream submits what the plans of its lines say.
\<close>

section \<open>The actuator of the daemon\<close>

text \<open>The return values of the wrappers are dropped.\<close>

definition xActuator :: "xlib \<Rightarrow> xstate Actuator" where
  "xActuator xl = \<lparr>act_KeycodeFor = keysymToKeycode xl,
     act_SendKey = (\<lambda>kc p st. snd (sendKey kc p st)),
     act_MoveMouse = (\<lambda>x y st. snd (moveMouse x y st)),
     act_SendButton = (\<lambda>b p st. snd (sendButton b p st)),
     act_ReleaseAll = (\<lambda>st. snd (releaseAll xl st))\<rparr>"

record process =
  px :: xstate
  stderr_log :: "string list"

text \<open>\<open>time.Sleep\<close> does not touch the display.\<close>

definition x_sleep :: "int \<Rightarrow> xstate \<Rightarrow> xstate" where
  "x_sleep ms st = st"

definition handleCommand :: "xlib \<Rightarrow> bool \<Rightarrow> string \<Rightarrow> process \<Rightarrow> process" where
  "handleCommand xl debugLog cmd0 pr =
     (let pr1 = (if debugLog
                 then pr\<lparr>stderr_log := stderr_log pr @ [''xtest: <- '' @ RedactLine cmd0 @ [LF]]\<rparr> else pr);
          cmd = TrimSpace cmd0
      in if cmd = [] then pr1
         else let (lg, st) = v2_Dispatch cmd (Some (xActuator xl)) x_sleep (px pr1)
              in pr1\<lparr>px := st, stderr_log := stderr_log pr1 @ lg\<rparr>)"

definition releaseAllHeld :: "xlib \<Rightarrow> process \<Rightarrow> process" where
  "releaseAllHeld xl pr = pr\<lparr>px := snd (releaseAll xl (px pr))\<rparr>"

section \<open>Scanned streams\<close>

definition serveScanner :: "xlib \<Rightarrow> bool \<Rightarrow> scan_error option \<Rightarrow> string \<Rightarrow> process \<Rightarrow> process" where
  "serveScanner xl debugLog rerr inp pr =
     (let (lines, err) = scan_lines scanBufferMax rerr inp;
          pr1 = fold (handleCommand xl debugLog) lines pr
      in case err of
           None \<Rightarrow> pr1
         | Some e \<Rightarrow> pr1\<lparr>stderr_log := stderr_log pr1 @ [''xtest-server: scanner error: '' @ scan_message e @ [LF]]\<rparr>)"

text \<open>The acknowledged variant for WebSocket clients, on the lines the scanner delivers: one \<open>ok\<close> is
  written per command; the results of the writes and the error of the scan are ignored.\<close>

definition serveScannerWithAck :: "xlib \<Rightarrow> bool \<Rightarrow> string list \<Rightarrow> process \<Rightarrow> string list \<times> process" where
  "serveScannerWithAck xl debugLog lines pr =
     fold (\<lambda>line (acks, q). (acks @ [''ok'' @ [LF]], handleCommand xl debugLog line q)) lines ([], pr)"

text \<open>A command connection, and the stdin mode of \<open>main\<close>, release what is held when the stream ends.\<close>

definition serve_command_stream :: "xlib \<Rightarrow> bool \<Rightarrow> scan_error option \<Rightarrow> string \<Rightarrow> process \<Rightarrow> process" where
  "serve_command_stream xl debugLog rerr inp pr = releaseAllHeld xl (serveScanner xl debugLog rerr inp pr)"

section \<open>The actuator keeps its contract\<close>

text \<open>The requests of one event on an open display.\<close>

fun v2_requests :: "xlib \<Rightarrow> int \<times> int \<Rightarrow> v2_event \<Rightarrow> xreq list \<Rightarrow> bool" where
  "v2_requests xl wh (VKey kc p) rs = (rs = [XTestFakeKeyEvent (ucast kc) p])"
| "v2_requests xl (w, h) (VMove x y) rs = (rs = [XWarpPointer (clamp_coord w (C_int x)) (clamp_coord h (C_int y))])"
| "v2_requests xl wh (VButton b p) rs = (rs = [XTestFakeButtonEvent (ucast b) p])"
| "v2_requests xl wh VReleaseAll rs =
     (\<exists>lg. rs = key_ups_of (XQueryKeymap xl lg)
        @ [XTestFakeButtonEvent 1 False, XTestFakeButtonEvent 2 False, XTestFakeButtonEvent 3 False])"
| "v2_requests xl wh (VSleep ms) rs = (rs = [])"

definition x_sends :: "xlib \<Rightarrow> xstate \<Rightarrow> v2_event list \<Rightarrow> xstate \<Rightarrow> bool" where
  "x_sends xl st es st' \<longleftrightarrow> dpy st' = dpy st \<and> screen st' = screen st
     \<and> (\<exists>rss. inputs st' = inputs st @ concat rss
          \<and> (if dpy st then list_all2 (v2_requests xl (screen st)) es rss else rss = []))"

lemma x_sends_quiet: "quiet st st' \<Longrightarrow> x_sends xl st [] st'"
  by (auto simp: quiet_def x_sends_def intro!: exI [of _ "[]"])

lemma x_sends_trans:
  assumes "x_sends xl st es st'" "x_sends xl st' fs st''"
  shows "x_sends xl st (es @ fs) st''"
proof -
  from assms(1) obtain rss where 1: "inputs st' = inputs st @ concat rss" "dpy st' = dpy st"
    "screen st' = screen st" "if dpy st then list_all2 (v2_requests xl (screen st)) es rss else rss = []"
    unfolding x_sends_def by blast
  from assms(2) obtain rss' where "inputs st'' = inputs st' @ concat rss'" "dpy st'' = dpy st'"
    "screen st'' = screen st'" "if dpy st' then list_all2 (v2_requests xl (screen st')) fs rss' else rss' = []"
    unfolding x_sends_def by blast
  with 1 show ?thesis
    unfolding x_sends_def by (intro conjI exI [of _ "rss @ rss'"]) (auto intro: list_all2_appendI)
qed

lemma x_sends_closed: "\<not> dpy st \<Longrightarrow> x_sends xl st es st"
  by (auto simp: x_sends_def)

lemma x_sends_event:
  assumes "dpy st" "dpy st' = dpy st" "screen st' = screen st" "inputs st' = inputs st @ rs"
    "v2_requests xl (screen st) e rs"
  shows "x_sends xl st [e] st'"
  using assms unfolding x_sends_def by (intro conjI exI [of _ "[rs]"]) auto

lemma key_ups_input: "filter is_input (key_ups_of ks) = key_ups_of ks"
  by (auto simp: key_ups_of_def intro!: filter_True)

interpretation xact: actuator_contract "xActuator xl" x_sleep "x_sends xl" for xl
proof
  fix s es s' fs s'' n kc p x y b and ms :: int
  show "x_sends xl s [] s" by (simp add: x_sends_quiet)
  show "x_sends xl s es s' \<Longrightarrow> x_sends xl s' fs s'' \<Longrightarrow> x_sends xl s (es @ fs) s''" by (rule x_sends_trans)
  show "act_KeycodeFor (xActuator xl) n s = (kc, s') \<Longrightarrow> x_sends xl s [] s'"
    by (auto simp: xActuator_def dest: quiet_keysym intro: x_sends_quiet)
  show "x_sends xl s [VKey kc p] (act_SendKey (xActuator xl) kc p s)"
    by (cases "dpy s") (auto simp: xActuator_def sendKey_def send_key_def x_sends_closed issue_def inputs_def
        intro!: x_sends_event)
  show "x_sends xl s [VMove x y] (act_MoveMouse (xActuator xl) x y s)"
    by (cases "dpy s") (auto simp: xActuator_def moveMouse_def move_mouse_def x_sends_closed issue_def inputs_def
        intro!: x_sends_event)
  show "x_sends xl s [VButton b p] (act_SendButton (xActuator xl) b p s)"
    by (cases "dpy s") (auto simp: xActuator_def sendButton_def send_button_def x_sends_closed issue_def inputs_def
        intro!: x_sends_event)
  show "x_sends xl s [VReleaseAll] (act_ReleaseAll (xActuator xl) s)"
    by (cases "dpy s") (auto simp: xActuator_def releaseAll_def release_all_def Let_def x_sends_closed issue_def
        inputs_def key_ups_input intro!: x_sends_event)
  show "x_sends xl s [VSleep ms] (x_sleep ms s)"
    by (cases "dpy s") (auto simp: x_sleep_def x_sends_closed intro!: x_sends_event)
qed

section \<open>Properties of the legacy path\<close>

lemma Fields_TrimSpace_Nil: "TrimSpace cmd = [] \<Longrightarrow> plan (TrimSpace cmd) = Ignore"
  by (simp add: plan_def plan_fields_def)

text \<open>One command in terms of \<open>v2_Dispatch\<close>, whether or not the line is blank.\<close>

lemma px_handleCommand:
  "px (handleCommand xl debug cmd pr) = snd (v2_Dispatch (TrimSpace cmd) (Some (xActuator xl)) x_sleep (px pr))"
  by (auto simp: handleCommand_def Let_def v2_Dispatch_def [of "[]"] split: prod.split)

lemma act_KeycodeFor_x [simp]: "act_KeycodeFor (xActuator xl) = keysymToKeycode xl"
  by (simp add: xActuator_def)

lemma handleCommand_follows:
  "xact.follows xl (plan (TrimSpace cmd)) (px pr)
     (v2_Dispatch (TrimSpace cmd) (Some (xActuator xl)) x_sleep (px pr))"
  by (rule xact.v2_Dispatch_plan)

text \<open>(C14) Refinement: a command line submits to the display what the plan of the line says. Ignored
  and malformed lines submit nothing; a line that names a key submits nothing when the key has no
  keycode, and the plan's events at that keycode otherwise.\<close>

theorem handleCommand_plan:
  "let st = px pr; st' = px (handleCommand xl debug cmd pr) in
   case plan (TrimSpace cmd) of
     Ignore \<Rightarrow> st' = st
   | BadKey \<Rightarrow> st' = st
   | Direct es \<Rightarrow> x_sends xl st es st'
   | WithKey n f \<Rightarrow>
       (let kc = fst (keysymToKeycode xl n st) in
        x_sends xl st (if kc = 0 then [] else f kc) st')"
  using handleCommand_follows [of xl cmd pr]
  by (auto simp: px_handleCommand xact.follows_def Let_def split: v2_plan.splits)


section \<open>Streams release what they hold\<close>

text \<open>Keycodes come from \<open>XKeysymToKeycode\<close>, so they fit the 256 bits of the key map.\<close>

definition narrow :: "xreq list \<Rightarrow> bool" where
  "narrow lg \<longleftrightarrow> (\<forall>kc p. XTestFakeKeyEvent kc p \<in> set lg \<longrightarrow> unat kc < 256)"

definition keymap_reports :: "xlib \<Rightarrow> bool" where
  "keymap_reports xl \<longleftrightarrow> (\<forall>lg kc. kc < 256 \<longrightarrow> of_nat kc \<in> keys_down lg \<longrightarrow> key_bit (XQueryKeymap xl lg) kc)"

lemma keymap_reports_sample: "keymap_reports sample_xlib"
  by (auto simp: keymap_reports_def sample_xlib_def sample_keymap_def key_bit_keymap_bytes)

lemma narrow_append [simp]: "narrow (lg @ lg') \<longleftrightarrow> narrow lg \<and> narrow lg'"
  by (auto simp: narrow_def)

lemma keysym_to_keycode_byte: "\<exists>w :: 8 word. fst (keysym_to_keycode xl n st) = ucast w"
proof (cases "fst (keysym_to_keycode xl n st) = 0")
  case True
  then show ?thesis by (intro exI [of _ 0]) simp
next
  case False
  then show ?thesis by (auto simp: keysym_to_keycode_def Let_def)
qed

lemma keycode_narrow: "unat (ucast (fst (keysymToKeycode xl n st)) :: 32 word) < 256"
proof -
  obtain w :: "8 word" where w: "fst (keysym_to_keycode xl (c_string n) st) = ucast w"
    using keysym_to_keycode_byte by blast
  have "unat (ucast (ucast (ucast w :: 32 word) :: 64 word) :: 32 word) = unat w"
    by transfer (simp add: take_bit_take_bit)
  with w show ?thesis using unsigned_less [of w, where ?'a = nat] by (simp add: keysymToKeycode_def)
qed

lemma v2_requests_narrow:
  "v2_requests xl wh e rs \<Longrightarrow> (\<And>k p. e = VKey k p \<Longrightarrow> unat (ucast k :: 32 word) < 256) \<Longrightarrow> narrow rs"
  by (cases e; cases wh) (auto simp: narrow_def key_ups_of_def unat_of_nat)

lemma x_sends_narrow:
  assumes "x_sends xl st es st'" "\<And>k p. VKey k p \<in> set es \<Longrightarrow> unat (ucast k :: 32 word) < 256"
    and "narrow (inputs st)"
  shows "narrow (inputs st') \<and> dpy st' = dpy st"
proof -
  from assms(1) obtain rss where r: "inputs st' = inputs st @ concat rss" "dpy st' = dpy st"
    "if dpy st then list_all2 (v2_requests xl (screen st)) es rss else rss = []"
    unfolding x_sends_def by blast
  have "narrow (concat rss)" if "list_all2 (v2_requests xl (screen st)) es rss"
    using that assms(2)
  proof (induction es rss rule: list_all2_induct)
    case (Cons e es rs rss)
    have "narrow rs" by (rule v2_requests_narrow [OF Cons.hyps(1)]) (auto intro: Cons.prems)
    moreover have "narrow (concat rss)" by (rule Cons.IH) (auto intro: Cons.prems)
    ultimately show ?case by simp
  qed (simp add: narrow_def)
  with r assms(3) show ?thesis by (cases "dpy st") (simp_all add: narrow_def [of "[]"])
qed

lemma handleCommand_narrow:
  assumes "narrow (inputs (px pr))"
  shows "narrow (inputs (px (handleCommand xl debug cmd pr)))
     \<and> dpy (px (handleCommand xl debug cmd pr)) = dpy (px pr)"
proof -
  let ?kc = "case plan (TrimSpace cmd) of WithKey n f \<Rightarrow> fst (keysymToKeycode xl n (px pr)) | _ \<Rightarrow> 0"
  have "x_sends xl (px pr) (plan_events (plan (TrimSpace cmd)) ?kc) (px (handleCommand xl debug cmd pr))
      \<or> x_sends xl (px pr) [] (px (handleCommand xl debug cmd pr))"
    using handleCommand_follows [of xl cmd pr] x_sends_quiet [OF quiet_refl]
    by (auto simp: px_handleCommand xact.follows_def Let_def plan_events_def
        split: v2_plan.splits if_splits)
  moreover have "unat (ucast ?kc :: 32 word) < 256"
    using keycode_narrow by (auto split: v2_plan.split)
  ultimately show ?thesis
    using x_sends_narrow [OF _ _ assms] plan_fields_keys [of _ _ "Fields (TrimSpace (TrimSpace cmd))"]
    by (metis plan_def empty_iff list.set(1))
qed

lemma commands_narrow:
  "narrow (inputs (px pr)) \<Longrightarrow>
   narrow (inputs (px (fold (handleCommand xl debug) lines pr)))
     \<and> dpy (px (fold (handleCommand xl debug) lines pr)) = dpy (px pr)"
  by (induction lines arbitrary: pr) (simp_all add: handleCommand_narrow)

lemma x_down_inputs: "x_down (filter is_input lg) h = x_down lg h"
  by (induction lg h rule: x_down.induct) simp_all

lemma keys_down_inputs: "keys_down (inputs st) = keys_down (xlog st)"
  by (simp add: keys_down_def inputs_def x_down_inputs)

lemma x_down_pressed: "kc \<in> fst (x_down lg (K, B)) \<Longrightarrow> kc \<in> K \<or> XTestFakeKeyEvent kc True \<in> set lg"
proof (induction lg arbitrary: K B)
  case (Cons r lg)
  then show ?case by (cases r) (fastforce split: if_splits)+
qed simp

lemma keys_down_narrow: "narrow lg \<Longrightarrow> kc \<in> keys_down lg \<Longrightarrow> unat kc < 256"
  unfolding keys_down_def narrow_def using x_down_pressed [of kc lg "{}" "{}"] by auto

lemma keys_down_reported:
  assumes "narrow (inputs st)" "keymap_reports xl"
  shows "keys_down (xlog st) \<subseteq> of_nat ` {kc. kc < 256 \<and> key_bit (XQueryKeymap xl (xlog st)) kc}"
proof
  fix kc assume kc: "kc \<in> keys_down (xlog st)"
  then have "unat kc < 256" using keys_down_narrow [OF assms(1)] keys_down_inputs by blast
  moreover have "of_nat (unat kc) = kc" by simp
  ultimately show "kc \<in> of_nat ` {kc. kc < 256 \<and> key_bit (XQueryKeymap xl (xlog st)) kc}"
    using kc assms(2) by (intro image_eqI [of _ _ "unat kc"]) (auto simp: keymap_reports_def)
qed

text \<open>The end of a stream: what \<open>releaseAll\<close> leaves pressed.\<close>

lemma releaseAll_down:
  assumes "dpy st" "keys_down (xlog st) \<subseteq> of_nat ` {kc. kc < 256 \<and> key_bit (XQueryKeymap xl (xlog st)) kc}"
  shows "keys_down (xlog (snd (releaseAll xl st))) = {}
     \<and> buttons_down (xlog (snd (releaseAll xl st))) = buttons_down (xlog st) - {1, 2, 3}"
  unfolding releaseAll_def using release_all_down [OF assms] by simp

text \<open>(C15) When the key map reports the keys that are down, a command stream, whatever its bytes and
  however it ends, leaves no key pressed on the display and none of the buttons 1 to 3.\<close>

theorem stream_releases:
  assumes "keymap_reports xl" "dpy (px pr)" "narrow (inputs (px pr))"
  shows "keys_down (xlog (px (serve_command_stream xl debug rerr inp pr))) = {}
     \<and> buttons_down (xlog (px (serve_command_stream xl debug rerr inp pr))) \<inter> {1, 2, 3} = {}"
proof -
  let ?st = "px (serveScanner xl debug rerr inp pr)"
  have st: "?st = px (fold (handleCommand xl debug) (fst (scan_lines scanBufferMax rerr inp)) pr)"
    by (auto simp: serveScanner_def Let_def split: prod.split option.split)
  with commands_narrow [OF assms(3)] have "narrow (inputs ?st)" "dpy ?st" using assms(2) by auto
  with releaseAll_down [OF _ keys_down_reported [OF _ assms(1)]] show ?thesis
    by (auto simp: serve_command_stream_def releaseAllHeld_def)
qed

theorem stream_releases_witness:
  "keymap_reports sample_xlib
   \<and> keys_down (xlog (px (serve_command_stream sample_xlib True None (''keydown F1'' @ [LF])
        \<lparr>px = sample_xstate, stderr_log = []\<rparr>))) = {}"
proof -
  show ?thesis
    using stream_releases [OF keymap_reports_sample, of "\<lparr>px = sample_xstate, stderr_log = []\<rparr>"]
    by (simp add: keymap_reports_sample sample_xstate_def inputs_def narrow_def)
qed

end
