(* ===== verification/Ws.thy ===== *)
theory Ws
  imports GoStrings GoBufio
begin

unbundle bit_operations_syntax

text \<open>
  cmd/xtest-server/ws.go: sniffing a TCP connection for an HTTP request, the health answer, the
  WebSocket handshake and the frames. A connection is the string of bytes the peer sends and the
  error that ends it (\<open>None\<close> is the end of file); SHA-1 and base64, which the handshake takes from
  the standard library, are written out.
\<close>

section \<open>Readers\<close>

datatype ws_error = EOF | ErrUnexpectedEOF | errWSFrameTooLarge | errWSControlLarge | ReadFailed string

text \<open>\<open>io.ReadFull\<close> for \<open>n\<close> bytes: the bytes and what is left, or the error.\<close>

definition ReadFull :: "string option \<Rightarrow> nat \<Rightarrow> string \<Rightarrow> ws_error + (string \<times> string)" where
  "ReadFull rerr n s =
     (if n \<le> length s then Inr (take n s, drop n s)
      else Inl (case rerr of Some m \<Rightarrow> ReadFailed m | None \<Rightarrow> if s = [] then EOF else ErrUnexpectedEOF))"

text \<open>\<open>connReader\<close>: the sniffed bytes in front of the connection. The connection delivers its bytes
  in the non-empty chunks of \<open>cr_chunks\<close>; one \<open>Read\<close> returns bytes of the first chunk only.\<close>

record connReader =
  cr_prefix :: string
  cr_chunks :: "string list"

fun chunk_Read :: "nat \<Rightarrow> string list \<Rightarrow> string \<times> string list" where
  "chunk_Read n [] = ([], [])"
| "chunk_Read n (c # cs) = (take n c, if drop n c = [] then cs else drop n c # cs)"

definition connReader_Read :: "nat \<Rightarrow> connReader \<Rightarrow> string \<times> connReader" where
  "connReader_Read n cr =
     (if cr_prefix cr \<noteq> [] then (take n (cr_prefix cr), cr\<lparr>cr_prefix := drop n (cr_prefix cr)\<rparr>)
      else let (bs, cs) = chunk_Read n (cr_chunks cr) in (bs, cr\<lparr>cr_chunks := cs\<rparr>))"

text \<open>The bytes a reader still holds.\<close>

definition pending :: "connReader \<Rightarrow> string" where
  "pending cr = cr_prefix cr @ concat (cr_chunks cr)"

section \<open>The accept key\<close>

definition rotl :: "nat \<Rightarrow> 32 word \<Rightarrow> 32 word" where
  "rotl n w = push_bit n w OR drop_bit (32 - n) w"

fun be_bytes :: "nat \<Rightarrow> nat \<Rightarrow> string" where
  "be_bytes 0 n = []"
| "be_bytes (Suc k) n = be_bytes k (n div 256) @ [char_of (n mod 256)]"

definition be_nat :: "string \<Rightarrow> nat" where
  "be_nat bs = fold (\<lambda>c acc. acc * 256 + byte c) bs 0"

definition sha1_pad :: "string \<Rightarrow> string" where
  "sha1_pad s = s @ [CHR 0x80] @ replicate ((119 - length s mod 64) mod 64) (CHR 0x00)
     @ be_bytes 8 (8 * length s)"

text \<open>The message schedule, newest word first.\<close>

fun sha1_schedule :: "nat \<Rightarrow> 32 word list \<Rightarrow> 32 word list" where
  "sha1_schedule 0 ws = ws"
| "sha1_schedule (Suc n) ws =
     sha1_schedule n (rotl 1 (ws ! 2 XOR ws ! 7 XOR ws ! 13 XOR ws ! 15) # ws)"

definition sha1_f :: "nat \<Rightarrow> 32 word \<Rightarrow> 32 word \<Rightarrow> 32 word \<Rightarrow> 32 word" where
  "sha1_f t b c d =
     (if t < 20 then (b AND c) OR (NOT b AND d)
      else if t < 40 then b XOR c XOR d
      else if t < 60 then (b AND c) OR (b AND d) OR (c AND d)
      else b XOR c XOR d)"

definition sha1_k :: "nat \<Rightarrow> 32 word" where
  "sha1_k t = (if t < 20 then 0x5A827999 else if t < 40 then 0x6ED9EBA1
     else if t < 60 then 0x8F1BBCDC else 0xCA62C1D6)"

type_synonym sha1_state = "32 word \<times> 32 word \<times> 32 word \<times> 32 word \<times> 32 word"

fun sha1_round :: "nat \<times> 32 word \<Rightarrow> sha1_state \<Rightarrow> sha1_state" where
  "sha1_round (t, w) (a, b, c, d, e) = (rotl 5 a + sha1_f t b c d + e + sha1_k t + w, a, rotl 30 b, c, d)"

definition sha1_block :: "string \<Rightarrow> sha1_state \<Rightarrow> sha1_state" where
  "sha1_block blk st =
     (let ws0 = map (\<lambda>i. of_nat (be_nat (take 4 (drop (4 * i) blk)))) [0..<16];
          ws = rev (sha1_schedule 64 (rev ws0));
          (a, b, c, d, e) = fold sha1_round (zip [0..<80] ws) st;
          (h0, h1, h2, h3, h4) = st
      in (h0 + a, h1 + b, h2 + c, h3 + d, h4 + e))"

fun sha1_blocks :: "nat \<Rightarrow> string \<Rightarrow> sha1_state \<Rightarrow> sha1_state" where
  "sha1_blocks 0 s st = st"
| "sha1_blocks (Suc n) s st = sha1_blocks n (drop 64 s) (sha1_block (take 64 s) st)"

definition sha1_Sum :: "string \<Rightarrow> string" where
  "sha1_Sum s =
     (let p = sha1_pad s;
          (a, b, c, d, e) = sha1_blocks (length p div 64) p
            (0x67452301, 0xEFCDAB89, 0x98BADCFE, 0x10325476, 0xC3D2E1F0)
      in concat (map (\<lambda>w. be_bytes 4 (unat w)) [a, b, c, d, e]))"

definition base64_char :: "nat \<Rightarrow> char" where
  "base64_char n = (if n < 26 then char_of (65 + n) else if n < 52 then char_of (71 + n)
     else if n < 62 then char_of (n - 4) else if n = 62 then CHR ''+'' else CHR ''/'')"

fun EncodeToString :: "string \<Rightarrow> string" where
  "EncodeToString [] = []"
| "EncodeToString [a] = [base64_char (byte a div 4), base64_char (byte a mod 4 * 16), CHR ''='', CHR ''='']"
| "EncodeToString [a, b] = [base64_char (byte a div 4), base64_char (byte a mod 4 * 16 + byte b div 16),
     base64_char (byte b mod 16 * 4), CHR ''='']"
| "EncodeToString (a # b # c # rest) = [base64_char (byte a div 4),
     base64_char (byte a mod 4 * 16 + byte b div 16), base64_char (byte b mod 16 * 4 + byte c div 64),
     base64_char (byte c mod 64)] @ EncodeToString rest"

definition wsMagic :: string where "wsMagic = ''258EAFA5-E914-47DA-95CA-C5AB0DC85B11''"

definition accept_key :: "string \<Rightarrow> string" where
  "accept_key wsKey = EncodeToString (sha1_Sum (wsKey @ wsMagic))"

section \<open>The handshake\<close>

definition protocolHealthPath :: string where "protocolHealthPath = ''/healthz''"
definition protocolHealthBody :: string where "protocolHealthBody = ''x11-input/2'' @ [LF]"
definition CRLF :: string where "CRLF = [CHR 0x0D, LF]"

definition key_header :: string where "key_header = ''Sec-WebSocket-Key:''"

text \<open>The header loop: the request line, the last key header and whether the blank line was seen.\<close>

fun header_loop :: "string list \<Rightarrow> string \<Rightarrow> string \<Rightarrow> string \<times> string \<times> bool" where
  "header_loop [] requestLine wsKey = (requestLine, wsKey, False)"
| "header_loop (line # lines) requestLine wsKey =
     (if requestLine = [] then header_loop lines line wsKey
      else if line = [] then (requestLine, wsKey, True)
      else if HasPrefix line key_header
        then header_loop lines requestLine (TrimSpace (drop (length key_header) line))
      else header_loop lines requestLine wsKey)"

text \<open>The bytes after the blank line.\<close>

function after_headers :: "string \<Rightarrow> string" where
  "after_headers s =
     (if LF \<notin> set s then []
      else let rest = drop (Suc (length (line_of s))) s in
        if drop_cr (line_of s) = [] then rest else after_headers rest)"
  by pat_completeness auto
termination
  by (relation "measure length") (auto dest: length_pos_if_in_set intro!: diff_less)

declare after_headers.simps [simp del]

definition health_response :: string where
  "health_response = ''HTTP/1.1 200 OK'' @ CRLF @ ''Content-Type: text/plain'' @ CRLF @ ''Content-Length: ''
     @ nat_digits (length protocolHealthBody) @ CRLF @ ''Connection: close'' @ CRLF @ CRLF @ protocolHealthBody"

definition upgrade_response :: "string \<Rightarrow> string" where
  "upgrade_response wsKey = ''HTTP/1.1 101 Switching Protocols'' @ CRLF @ ''Upgrade: websocket'' @ CRLF
     @ ''Connection: Upgrade'' @ CRLF @ ''Sec-WebSocket-Accept: '' @ accept_key wsKey @ CRLF @ CRLF"

text \<open>What becomes of a connection: done, a plain command stream, or a WebSocket; the two streams
  with the bytes still to be read.\<close>

datatype upgrade = Handled | Plain string | WebSocket string

text \<open>The bytes written, and the outcome. \<open>ahead\<close> is how many bytes behind the blank line the
  header scanner had already read from the connection when it saw that line; they stay in its
  buffer. The scanner stops at the blank line, so its error is nil when the headers are complete.\<close>

definition tryUpgradeWS :: "string option \<Rightarrow> bool \<Rightarrow> nat \<Rightarrow> string \<Rightarrow> string list \<times> upgrade" where
  "tryUpgradeWS rerr write_ok ahead inp =
     (case ReadFull rerr 4 inp of
        Inl e \<Rightarrow> ([], Handled)
      | Inr (buf, rest) \<Rightarrow>
          let cr = buf @ rest in
          if buf \<noteq> ''GET '' then ([], Plain cr)
          else let lines = fst (scan_lines 4096 (map_option ReadError rerr) cr);
                   (requestLine, wsKey, headersComplete) = header_loop lines [] []
            in if \<not> headersComplete then ([], Handled)
               else if requestLine = ''GET '' @ protocolHealthPath @ '' HTTP/1.1''
                 then ([health_response], Handled)
               else if wsKey = [] then ([], Handled)
               else if \<not> write_ok then ([], Handled)
               else ([upgrade_response wsKey], WebSocket (drop ahead (after_headers cr))))"

section \<open>Frames\<close>

text \<open>The payload length field: the lengths 126 and 127 announce two and eight more bytes.\<close>

definition read_length :: "string option \<Rightarrow> nat \<Rightarrow> string \<Rightarrow> ws_error + (nat \<times> string)" where
  "read_length rerr len7 s =
     (if len7 = 126 then map_sum id (apfst be_nat) (ReadFull rerr 2 s)
      else if len7 = 127 then map_sum id (apfst be_nat) (ReadFull rerr 8 s)
      else Inr (len7, s))"

definition read_mask :: "string option \<Rightarrow> bool \<Rightarrow> string \<Rightarrow> ws_error + (string \<times> string)" where
  "read_mask rerr masked s = (if masked then ReadFull rerr 4 s else Inr ([], s))"

definition read_payload :: "string option \<Rightarrow> nat \<Rightarrow> string \<Rightarrow> ws_error + (string \<times> string)" where
  "read_payload rerr payLen s = (if payLen > 0 then ReadFull rerr payLen s else Inr ([], s))"

definition unmask :: "bool \<Rightarrow> string \<Rightarrow> string \<Rightarrow> string" where
  "unmask masked mkey payload =
     (if masked then map2 (\<lambda>i c. char_of (byte c XOR byte (mkey ! (i mod 4)))) [0..<length payload] payload
      else payload)"

definition maxFrame :: nat where "maxFrame = 1048576"

text \<open>One frame: its header byte, length byte and payload, and the bytes left.\<close>

definition read_frame :: "string option \<Rightarrow> string \<Rightarrow> ws_error + (nat \<times> nat \<times> string \<times> string)" where
  "read_frame rerr s =
     (case ReadFull rerr 2 s of
        Inl e \<Rightarrow> Inl e
      | Inr (hdr, s1) \<Rightarrow>
          let b0 = byte (hdr ! 0); b1 = byte (hdr ! 1);
              opcode = b0 AND 0x0F; masked = (b1 AND 0x80 \<noteq> 0) in
          case read_length rerr (b1 AND 0x7F) s1 of
            Inl e \<Rightarrow> Inl e
          | Inr (payLen, s2) \<Rightarrow>
              if payLen > maxFrame then Inl errWSFrameTooLarge
              else if opcode \<ge> 0x08 \<and> payLen > 125 then Inl errWSControlLarge
              else (case read_mask rerr masked s2 of
                      Inl e \<Rightarrow> Inl e
                    | Inr (mkey, s3) \<Rightarrow>
                        (case read_payload rerr payLen s3 of
                           Inl e \<Rightarrow> Inl e
                         | Inr (payload, s4) \<Rightarrow> Inr (opcode, b1, unmask masked mkey payload, s4))))"

lemma ReadFull_length: "ReadFull rerr n s = Inr (bs, s') \<Longrightarrow> length s = n + length s'"
  by (auto simp: ReadFull_def split: if_splits)

lemma read_parts_length:
  "read_length rerr len7 s = Inr (k, s') \<Longrightarrow> length s' \<le> length s"
  "read_mask rerr masked s = Inr (mk, s') \<Longrightarrow> length s' \<le> length s"
  "read_payload rerr k s = Inr (pl, s') \<Longrightarrow> length s' \<le> length s"
  by (auto simp: read_length_def read_mask_def read_payload_def ReadFull_def split: if_splits)

lemma read_frame_length: "read_frame rerr s = Inr (opc, b1, payload, s') \<Longrightarrow> length s' < length s"
  unfolding read_frame_def Let_def
  by (auto split: sum.splits if_splits dest!: ReadFull_length read_parts_length)

text \<open>\<open>wsConn.Read\<close> into a buffer of \<open>n\<close> bytes: the result, the bytes left and the pong frames written.
  Only text frames return; a ping is answered with the unmasked payload; any other frame is
  skipped. After an error the connection is not read again.\<close>

definition pong_frame :: "nat \<Rightarrow> string \<Rightarrow> string" where
  "pong_frame b1 payload = [CHR 0x8A, char_of (b1 AND 0x7F)] @ payload"

function wsConn_Read :: "string option \<Rightarrow> nat \<Rightarrow> string \<Rightarrow> (ws_error + string) \<times> string \<times> string list" where
  "wsConn_Read rerr n s =
     (case read_frame rerr s of
        Inl e \<Rightarrow> (Inl e, [], [])
      | Inr (opcode, b1, payload, s') \<Rightarrow>
          if opcode = 0x01 then (Inr (take n payload), s', [])
          else if opcode = 0x08 then (Inl EOF, s', [])
          else if opcode = 0x09 then
            (let (r, rest, pongs) = wsConn_Read rerr n s' in (r, rest, pong_frame b1 payload # pongs))
          else wsConn_Read rerr n s')"
  by pat_completeness auto
termination
  by (relation "measure (\<lambda>(rerr, n, s). length s)") (auto dest: read_frame_length)

declare wsConn_Read.simps [simp del]

text \<open>\<open>wsConn.Write\<close>: one unmasked text frame.\<close>

definition wsConn_Write :: "string \<Rightarrow> string" where
  "wsConn_Write p =
     (let n = length p; encoded = be_bytes 8 n in
      [CHR 0x81]
      @ (if n < 126 then [encoded ! 7]
         else if n < 65536 then [char_of (126 :: nat)] @ drop 6 encoded
         else [char_of (127 :: nat)] @ encoded)
      @ p)"

section \<open>Frames round trip\<close>

lemma length_be_bytes [simp]: "length (be_bytes k n) = k"
  by (induction k n rule: be_bytes.induct) simp_all

lemma be_nat_snoc: "be_nat (bs @ [c]) = be_nat bs * 256 + byte c"
  by (simp add: be_nat_def)

lemma be_nat_be_bytes: "be_nat (be_bytes k n) = n mod 256 ^ k"
proof (induction k n rule: be_bytes.induct)
  case (2 k n)
  then show ?case by (simp add: be_nat_snoc mod_mult2_eq mult.commute)
qed (simp add: be_nat_def)

lemma be_bytes_2: "be_bytes 2 n = [char_of (n div 256 mod 256), char_of (n mod 256)]"
  by (simp add: numeral_2_eq_2)

lemma be_bytes_Suc2: "be_bytes (Suc (Suc k)) n = be_bytes k (n div 256 div 256) @ be_bytes 2 n"
  by (simp add: be_bytes_2)

lemma be_bytes_8: "be_bytes 8 n ! 7 = char_of (n mod 256)" "drop 6 (be_bytes 8 n) = be_bytes 2 n"
proof -
  have 8: "be_bytes 8 n = be_bytes 6 (n div 256 div 256) @ be_bytes 2 n"
    using be_bytes_Suc2 [of 6 n] by simp
  show "be_bytes 8 n ! 7 = char_of (n mod 256)" by (simp add: 8 nth_append be_bytes_2)
  show "drop 6 (be_bytes 8 n) = be_bytes 2 n" by (simp add: 8)
qed

lemma and_0x7F: "n AND (127 :: nat) = n mod 128"
  using take_bit_eq_mask [of 7 n] by (simp add: take_bit_eq_mod mask_eq_exp_minus_1)

lemma and_0x80: "0 < n AND (128 :: nat) \<longleftrightarrow> odd (n div 128)"
  using bit_iff_and_push_bit_not_eq_0 [of n 7] by (simp add: bit_iff_odd)

lemma byte_less_pow: "byte c < 2 ^ 8"
  using byte_less_256 [of c] by simp

lemma xor_byte: "char_of (byte (char_of (byte c XOR byte m)) XOR byte m) = c"
proof -
  have "byte c XOR byte m < 2 ^ 8"
    using byte_less_pow take_bit_nat_eq_self_iff take_bit_xor by metis
  then show ?thesis by (simp add: xor.assoc)
qed

lemma unmask_unmask: "unmask masked mk (unmask masked mk p) = p"
  using xor_byte by (intro nth_equalityI) (auto simp: unmask_def)

text \<open>A text frame as a client sends it: masked, with the shortest length field.\<close>

definition frame_length :: "nat \<Rightarrow> nat \<Rightarrow> string" where
  "frame_length flag n =
     (if n < 126 then [char_of (flag + n)]
      else if n < 65536 then char_of (flag + 126) # be_bytes 2 n
      else char_of (flag + 127) # be_bytes 8 n)"

definition client_frame :: "string \<Rightarrow> string \<Rightarrow> string" where
  "client_frame mkey payload =
     CHR 0x81 # frame_length 128 (length payload) @ mkey @ unmask True mkey payload"

lemma wsConn_Write_frame: "wsConn_Write p = CHR 0x81 # frame_length 0 (length p) @ p"
  by (simp add: wsConn_Write_def frame_length_def Let_def be_bytes_8)

lemma ReadFull_append: "length a = n \<Longrightarrow> ReadFull rerr n (a @ s) = Inr (a, s)"
  by (simp add: ReadFull_def)

lemma ReadFull_Cons2: "ReadFull rerr 2 (a # b # s) = Inr ([a, b], s)"
  by (simp add: ReadFull_def numeral_eq_Suc)

text \<open>The length field of a frame, behind its first byte.\<close>

lemma read_frame_length_field:
  assumes "n \<le> maxFrame" "flag = 0 \<or> flag = 128"
  shows "\<exists>b1 ext. frame_length flag n = char_of b1 # ext \<and> b1 < 256
     \<and> (b1 AND 128 \<noteq> 0 \<longleftrightarrow> flag = 128) \<and> read_length rerr (b1 AND 127) (ext @ s) = Inr (n, s)"
proof -
  consider "n < 126" | "126 \<le> n" "n < 65536" | "65536 \<le> n" by linarith
  then show ?thesis
  proof cases
    case 1
    then have "(128 + n) div 128 = 1" by simp
    with 1 assms(2) show ?thesis
      by (intro exI [of _ "flag + n"] exI [of _ "[]"])
         (auto simp: frame_length_def and_0x7F and_0x80 read_length_def)
  next
    case 2
    with assms(2) show ?thesis
      by (intro exI [of _ "flag + 126"] exI [of _ "be_bytes 2 n"])
         (auto simp: frame_length_def and_0x7F and_0x80 read_length_def ReadFull_append be_nat_be_bytes)
  next
    case 3
    with assms show ?thesis
      by (intro exI [of _ "flag + 127"] exI [of _ "be_bytes 8 n"])
         (auto simp: frame_length_def and_0x7F and_0x80 read_length_def ReadFull_append be_nat_be_bytes maxFrame_def)
  qed
qed

lemma read_payload_append: "read_payload rerr (length p) (p @ s) = Inr (p, s)"
  by (simp add: read_payload_def ReadFull_append)

lemma read_frame_client:
  assumes "length payload \<le> maxFrame" "length mkey = 4"
  shows "\<exists>b1. read_frame rerr (client_frame mkey payload @ s) = Inr (1, b1, payload, s)"
proof -
  let ?p = "unmask True mkey payload"
  have len: "length ?p = length payload" by (simp add: unmask_def)
  obtain b1 ext where f: "frame_length 128 (length payload) = char_of b1 # ext" "b1 < 256"
    "b1 AND 128 \<noteq> 0" "read_length rerr (b1 AND 127) (ext @ mkey @ ?p @ s) = Inr (length payload, mkey @ ?p @ s)"
    using read_frame_length_field [OF assms(1), of 128 rerr "mkey @ ?p @ s"] by auto
  have "client_frame mkey payload @ s = CHR 0x81 # char_of b1 # ext @ mkey @ ?p @ s"
    using f(1) by (simp add: client_frame_def)
  moreover have "byte (CHR 0x81) AND 15 = (1 :: nat)" by simp
  ultimately show ?thesis
    using f assms len read_payload_append [of rerr ?p s]
    by (auto simp: read_frame_def ReadFull_Cons2 Let_def read_mask_def ReadFull_append unmask_unmask)
qed

lemma read_frame_Write:
  assumes "length p \<le> maxFrame"
  shows "\<exists>b1. read_frame rerr (wsConn_Write p @ s) = Inr (1, b1, p, s)"
proof -
  obtain b1 ext where f: "frame_length 0 (length p) = char_of b1 # ext" "b1 < 256"
    "b1 AND 128 = 0" "read_length rerr (b1 AND 127) (ext @ p @ s) = Inr (length p, p @ s)"
    using read_frame_length_field [OF assms, of 0 rerr "p @ s"] by auto
  have "wsConn_Write p @ s = CHR 0x81 # char_of b1 # ext @ p @ s"
    using f(1) by (simp add: wsConn_Write_frame)
  moreover have "byte (CHR 0x81) AND 15 = (1 :: nat)" by simp
  ultimately show ?thesis
    using f assms read_payload_append [of rerr p s]
    by (auto simp: read_frame_def ReadFull_Cons2 Let_def read_mask_def unmask_def)
qed

text \<open>(C23) A masked text frame of up to one mebibyte, with any mask and whatever follows it, is read
  back as its payload, cut to the size of the buffer that \<open>Read\<close> was given; the next read starts at
  the byte behind the frame, so the bytes that did not fit are lost.\<close>

theorem wsConn_Read_client_frame:
  assumes "length payload \<le> maxFrame" "length mkey = 4"
  shows "wsConn_Read rerr n (client_frame mkey payload @ s) = (Inr (take n payload), s, [])"
  using read_frame_client [OF assms, of rerr s] by (auto simp: wsConn_Read.simps)

theorem wsConn_Read_client_frame_witness:
  "wsConn_Read None 4 (client_frame [CHR 0x01, CHR 0x02, CHR 0x03, CHR 0x04] ''click 1'' @ ''rest'') = (Inr ''clic'', ''rest'', [])"
  using wsConn_Read_client_frame [of "''click 1''" "[CHR 0x01, CHR 0x02, CHR 0x03, CHR 0x04]" None 4 "''rest''"]
  by (simp add: maxFrame_def)



section \<open>Limits and the handshake\<close>

lemma read_frame_bounds:
  assumes "read_frame rerr s = Inr (opc, b1, payload, s')"
  shows "length payload \<le> maxFrame \<and> (opc \<ge> 8 \<longrightarrow> length payload \<le> 125)"
proof -
  have len: "ReadFull rerr n s = Inr (bs, s') \<Longrightarrow> length bs = n" for n s bs s'
    by (auto simp: ReadFull_def split: if_splits)
  have pl: "read_payload rerr n s = Inr (bs, s') \<Longrightarrow> length bs = n" for n s bs s'
    using len by (auto simp: read_payload_def split: if_splits)
  show ?thesis
    using assms unfolding read_frame_def Let_def
    by (auto split: sum.splits if_splits dest!: pl simp: unmask_def)
qed

text \<open>(C25) Memory and answers are bounded: no read returns more than one mebibyte or more than the
  buffer, every pong it answers with carries at most 125 bytes, and each read leaves fewer bytes.\<close>

theorem wsConn_Read_bounds:
  assumes "wsConn_Read rerr n s = (r, rest, pongs)"
  shows "(case r of Inl e \<Rightarrow> True | Inr bs \<Rightarrow> length bs \<le> min n maxFrame \<and> length rest < length s)
     \<and> list_all (\<lambda>p. length p \<le> 127) pongs \<and> length rest \<le> length s"
  using assms
proof (induction s arbitrary: r rest pongs rule: length_induct)
  case (1 s)
  show ?case
  proof (cases "read_frame rerr s")
    case (Inl e)
    with 1(2) show ?thesis by (auto simp: wsConn_Read.simps [of rerr n s])
  next
    case (Inr fr)
    then obtain opc b1 payload s' where fr: "read_frame rerr s = Inr (opc, b1, payload, s')"
      by (cases fr) auto
    obtain r' rest' pongs' where rec: "wsConn_Read rerr n s' = (r', rest', pongs')" by (metis prod_cases3)
    note b = read_frame_bounds [OF fr] read_frame_length [OF fr]
    have "(case r' of Inl e \<Rightarrow> True | Inr bs \<Rightarrow> length bs \<le> min n maxFrame \<and> length rest' < length s')
      \<and> list_all (\<lambda>p. length p \<le> 127) pongs' \<and> length rest' \<le> length s'"
      using 1(1) b(2) rec by blast
    then have IH: "case r' of Inl e \<Rightarrow> True | Inr bs \<Rightarrow> length bs \<le> min n maxFrame"
      "list_all (\<lambda>p. length p \<le> 127) pongs'" "length rest' < length s"
      using b(2) by (auto split: sum.splits)
    show ?thesis
      using 1(2) fr b rec IH
      by (auto simp: wsConn_Read.simps [of rerr n s] pong_frame_def split: if_splits sum.splits)
  qed
qed

theorem wsConn_Read_bounds_witness:
  "case fst (wsConn_Read None 4 (wsConn_Write ''hello'')) of Inl e \<Rightarrow> True | Inr bs \<Rightarrow> length bs \<le> 4"
  using wsConn_Read_bounds [of None 4 "wsConn_Write ''hello''"]
  by (cases "wsConn_Read None 4 (wsConn_Write ''hello'')") (auto split: sum.splits)

lemma HasPrefix_GET: "HasPrefix s ''GET '' \<longleftrightarrow> take 4 s = ''GET ''"
  by (simp add: HasPrefix_def numeral_eq_Suc)

text \<open>Sniffing keeps the stream: a connection of at least four bytes that does not start with
  \<open>GET\<close> and a space is served as a plain command stream with all its bytes, and nothing is written;
  a shorter connection is dropped.\<close>

lemma tryUpgradeWS_plain:
  "tryUpgradeWS rerr ok ahead inp = ([], Plain s) \<longleftrightarrow> s = inp \<and> 4 \<le> length inp \<and> \<not> HasPrefix inp ''GET ''"
proof (cases "4 \<le> length inp \<and> take 4 inp \<noteq> ''GET ''")
  case True
  then show ?thesis by (auto simp: tryUpgradeWS_def ReadFull_def HasPrefix_GET Let_def)
next
  case False
  then show ?thesis
    by (auto simp: tryUpgradeWS_def ReadFull_def HasPrefix_GET Let_def split: prod.splits if_splits)
qed

text \<open>The sniffed bytes are put back: whatever chunks the connection delivers, a read of the
  wrapped reader returns the next pending bytes, at most as many as asked for, and at least one
  while bytes are pending.\<close>

lemma connReader_Read_pending:
  assumes "connReader_Read n cr = (bs, cr')" "[] \<notin> set (cr_chunks cr)"
  shows "pending cr = bs @ pending cr' \<and> length bs \<le> n \<and> [] \<notin> set (cr_chunks cr')
     \<and> (0 < n \<and> pending cr \<noteq> [] \<longrightarrow> bs \<noteq> [])"
  using assms
  by (cases "cr_chunks cr") (auto simp: connReader_Read_def pending_def split: if_splits)

text \<open>A request as an HTTP client sends it.\<close>

definition http_request :: "string list \<Rightarrow> string" where
  "http_request lines = concat (map (\<lambda>l. l @ CRLF) lines) @ CRLF"

definition header_line :: "string \<Rightarrow> bool" where
  "header_line l \<longleftrightarrow> l \<noteq> [] \<and> LF \<notin> set l \<and> length l < 4095"

definition last_key :: "string list \<Rightarrow> string" where
  "last_key hs = fold (\<lambda>l k. if HasPrefix l key_header then TrimSpace (drop (length key_header) l) else k) hs []"

lemma CR_not_LF [simp]: "CHR 0x0D \<noteq> LF" "LF \<noteq> CHR 0x0D"
  by (simp_all add: LF_def)

lemma crlf_line: "l @ CRLF @ s = (l @ [CHR 0x0D]) @ LF # s"
  by (simp add: CRLF_def)

lemma drop_cr_snoc [simp]: "drop_cr (l @ [CHR 0x0D]) = l"
  by (simp add: drop_cr_def)

lemma scan_crlf:
  assumes "LF \<notin> set l" "Suc (length l) < limit"
  shows "fst (scan_lines limit rerr (l @ CRLF @ s)) = l # fst (scan_lines limit rerr s)"
  unfolding crlf_line using assms by (subst scan_lines_line) auto

lemma scan_http_request:
  "list_all header_line lines \<Longrightarrow>
   fst (scan_lines 4096 rerr (http_request lines @ s)) = lines @ [] # fst (scan_lines 4096 rerr s)"
proof (induction lines)
  case Nil
  then show ?case using scan_crlf [of "[]" 4096 rerr s] by (simp add: http_request_def)
next
  case (Cons l lines)
  then show ?case
    using scan_crlf [of l 4096 rerr "http_request lines @ s"] by (simp add: http_request_def header_line_def)
qed

lemma after_headers_crlf:
  "LF \<notin> set l \<Longrightarrow> after_headers (l @ CRLF @ s) = (if l = [] then s else after_headers s)"
proof -
  assume "LF \<notin> set l"
  then have "line_of (l @ CRLF @ s) = l @ [CHR 0x0D]" unfolding crlf_line by (intro line_of_append) auto
  moreover have "LF \<in> set (l @ CRLF @ s)" "drop (Suc (length (l @ [CHR 0x0D]))) (l @ CRLF @ s) = s"
    by (simp_all add: CRLF_def)
  ultimately show ?thesis by (subst after_headers.simps) (simp add: Let_def del: append_assoc)
qed

lemma after_headers_request: "list_all header_line lines \<Longrightarrow> after_headers (http_request lines @ s) = s"
proof (induction lines)
  case Nil
  then show ?case using after_headers_crlf [of "[]" s] by (simp add: http_request_def)
next
  case (Cons l lines)
  then show ?case
    using after_headers_crlf [of l "http_request lines @ s"] by (simp add: http_request_def header_line_def)
qed

lemma header_loop_headers:
  "requestLine \<noteq> [] \<Longrightarrow> list_all header_line hs \<Longrightarrow>
   header_loop (hs @ [] # ls) requestLine k =
     (requestLine, fold (\<lambda>l k. if HasPrefix l key_header then TrimSpace (drop (length key_header) l) else k) hs k, True)"
  by (induction hs arbitrary: k) (auto simp: header_line_def)

text \<open>(C26) The handshake: a GET request with CRLF line ends and lines below 4095 bytes is answered
  with the protocol version when it asks for the health path, is upgraded with the accept key of its
  last key header when it has one and the answer can be written, and is dropped otherwise. After an
  upgrade the frames start behind the bytes the header scanner had read ahead.\<close>

theorem tryUpgradeWS_request:
  assumes "HasPrefix rl ''GET ''" "list_all header_line (rl # hs)"
  shows "tryUpgradeWS rerr ok ahead (http_request (rl # hs) @ s) =
     (if rl = ''GET /healthz HTTP/1.1'' then ([health_response], Handled)
      else if last_key hs = [] \<or> \<not> ok then ([], Handled)
      else ([upgrade_response (last_key hs)], WebSocket (drop ahead s)))"
proof -
  let ?inp = "http_request (rl # hs) @ s"
  obtain t where rl: "rl = ''GET '' @ t" using HasPrefix_drop [OF assms(1)] by blast
  then have inp: "?inp = ''GET '' @ t @ CRLF @ http_request hs @ s" by (simp add: http_request_def)
  then have "ReadFull rerr 4 ?inp = Inr (''GET '', t @ CRLF @ http_request hs @ s)"
    by (simp add: ReadFull_def)
  moreover have "rl \<noteq> []" "list_all header_line hs" using assms(2) by (auto simp: header_line_def)
  then have "header_loop (fst (scan_lines 4096 (map_option ReadError rerr) ?inp)) [] [] = (rl, last_key hs, True)"
    using scan_http_request [OF assms(2)] header_loop_headers [of rl hs] by (simp add: last_key_def)
  moreover have "after_headers ?inp = s" by (rule after_headers_request [OF assms(2)])
  ultimately show ?thesis
    unfolding tryUpgradeWS_def using inp by (simp add: protocolHealthPath_def)
qed

theorem tryUpgradeWS_request_witness:
  "tryUpgradeWS None True 0 (http_request [''GET /healthz HTTP/1.1'', ''Host: x''] @ []) = ([health_response], Handled)"
  using tryUpgradeWS_request [of "''GET /healthz HTTP/1.1''" "[''Host: x'']" None True 0 "[]"]
  by (simp add: header_line_def LF_def)

end
