(* ===== verification/Serve.thy ===== *)
theory Serve
  imports Handle Ws Ready
begin

text \<open>
  \<open>serveTCP\<close> of cmd/xtest-server/serve.go with its three attempts to listen. The listener and its
  connections run as goroutines over the process state, which the process-global mutex protects;
  what can happen next is an event, and the handler of an event is what the code does then. The
  steps of the server are the events in any order the handlers admit.
\<close>

section \<open>Listening\<close>

text \<open>Three attempts to listen; \<open>listen_ok\<close> says which attempt succeeds. The result is the attempt
  that bound the socket.\<close>

definition tcp_listen :: "(nat \<Rightarrow> bool) \<Rightarrow> nat option" where
  "tcp_listen listen_ok = List.find listen_ok [1, 2, 3]"

section \<open>The accept loop\<close>

definition maxConns :: nat where "maxConns = 10"

text \<open>A connection is being sniffed, or serves a plain stream or a WebSocket.\<close>

datatype phase = Sniffing | Serving bool

record tcp_server =
  proc :: process
  conns :: "(nat \<times> phase) list"
  acks :: "(nat \<times> string) list"

datatype tcp_event =
    AcceptFailed string
  | Accepted nat
  | Sniffed nat upgrade
  | Line nat string
  | Ended nat "scan_error option"

definition log_line :: "string \<Rightarrow> tcp_server \<Rightarrow> tcp_server" where
  "log_line msg sv = sv\<lparr>proc := (proc sv)\<lparr>stderr_log := stderr_log (proc sv) @ [msg @ [LF]]\<rparr>\<rparr>"

definition close_conn :: "nat \<Rightarrow> tcp_server \<Rightarrow> tcp_server" where
  "close_conn c sv = sv\<lparr>conns := AList.delete c (conns sv)\<rparr>"

fun tcp_handle :: "xlib \<Rightarrow> bool \<Rightarrow> tcp_event \<Rightarrow> tcp_server \<Rightarrow> tcp_server option" where
  "tcp_handle xl debug (AcceptFailed msg) sv = Some (log_line (''xtest-server: accept error: '' @ msg) sv)"
| "tcp_handle xl debug (Accepted c) sv =
     (if c \<in> fst ` set (conns sv) then None
      else if length (conns sv) < maxConns then Some (sv\<lparr>conns := (c, Sniffing) # conns sv\<rparr>)
      else Some (log_line ''xtest-server: connection limit reached; dropping'' sv))"
| "tcp_handle xl debug (Sniffed c u) sv =
     (if map_of (conns sv) c \<noteq> Some Sniffing then None
      else case u of
          Handled \<Rightarrow> Some (close_conn c sv)
        | Plain inp \<Rightarrow> Some (sv\<lparr>conns := AList.update c (Serving False) (conns sv)\<rparr>)
        | WebSocket inp \<Rightarrow> Some (sv\<lparr>conns := AList.update c (Serving True) (conns sv)\<rparr>))"
| "tcp_handle xl debug (Line c line) sv =
     (case map_of (conns sv) c of
        Some (Serving ws) \<Rightarrow>
          Some (sv\<lparr>proc := handleCommand xl debug line (proc sv),
                   acks := (if ws then acks sv @ [(c, ''ok'' @ [LF])] else acks sv)\<rparr>)
      | _ \<Rightarrow> None)"
| "tcp_handle xl debug (Ended c err) sv =
     (case map_of (conns sv) c of
        Some (Serving ws) \<Rightarrow>
          let sv1 = (if ws \<or> err = None then sv
                     else log_line (''xtest-server: scanner error: '' @ scan_message (the err)) sv)
          in Some (close_conn c (sv1\<lparr>proc := releaseAllHeld xl (proc sv1)\<rparr>))
      | _ \<Rightarrow> None)"

inductive tcp_reach :: "xlib \<Rightarrow> bool \<Rightarrow> tcp_server \<Rightarrow> tcp_server \<Rightarrow> bool" for xl debug sv0 where
  tcp_start: "tcp_reach xl debug sv0 sv0"
| tcp_step: "tcp_reach xl debug sv0 sv \<Longrightarrow> tcp_handle xl debug e sv = Some sv' \<Longrightarrow> tcp_reach xl debug sv0 sv'"

section \<open>Invariants\<close>

definition serving :: "tcp_server \<Rightarrow> bool" where
  "serving sv \<longleftrightarrow> (\<exists>c ws. (c, Serving ws) \<in> set (conns sv))"

definition nothing_down :: "xstate \<Rightarrow> bool" where
  "nothing_down st \<longleftrightarrow> keys_down (xlog st) = {} \<and> buttons_down (xlog st) \<inter> {1, 2, 3} = {}"

definition tcp_inv :: "tcp_server \<Rightarrow> bool" where
  "tcp_inv sv \<longleftrightarrow> distinct (map fst (conns sv)) \<and> length (conns sv) \<le> maxConns
     \<and> dpy (px (proc sv)) \<and> narrow (inputs (px (proc sv)))
     \<and> (\<not> serving sv \<longrightarrow> nothing_down (px (proc sv)))"

lemma px_log_line [simp]: "px (proc (log_line m sv)) = px (proc sv)" "conns (log_line m sv) = conns sv"
  by (simp_all add: log_line_def)

lemma conns_close_conn [simp]: "conns (close_conn c sv) = AList.delete c (conns sv)" "proc (close_conn c sv) = proc sv"
  by (simp_all add: close_conn_def)

lemma length_delete: "length (AList.delete k m) \<le> length m"
  by (simp add: AList.delete_eq)

lemma length_update_mem: "k \<in> fst ` set m \<Longrightarrow> length (AList.update k v m) = length m"
  by (induction m) auto

lemma map_of_mem: "map_of m k = Some v \<Longrightarrow> k \<in> fst ` set m"
  by (force dest: map_of_SomeD)

lemma releaseAllHeld_down:
  assumes "keymap_reports xl" "dpy (px pr)" "narrow (inputs (px pr))"
  shows "nothing_down (px (releaseAllHeld xl pr)) \<and> dpy (px (releaseAllHeld xl pr))
     \<and> narrow (inputs (px (releaseAllHeld xl pr)))"
proof -
  have "x_sends xl (px pr) [VReleaseAll] (px (releaseAllHeld xl pr))"
    using xact.sends_ReleaseAll [of xl "px pr"] by (simp add: releaseAllHeld_def xActuator_def)
  from x_sends_narrow [OF this _ assms(3)] releaseAll_down [OF assms(2) keys_down_reported [OF assms(3,1)]]
  show ?thesis using assms(2) by (auto simp: nothing_down_def releaseAllHeld_def)
qed

lemma serving_delete:
  assumes "distinct (map fst (conns sv))" "map_of (conns sv) c = Some Sniffing" "serving sv"
  shows "serving (close_conn c sv)"
proof -
  obtain d ws where d: "map_of (conns sv) d = Some (Serving ws)"
    using assms(1,3) by (auto simp: serving_def)
  with assms(2) have "d \<noteq> c" by auto
  with d have "map_of (AList.delete c (conns sv)) d = Some (Serving ws)" by (simp add: delete_conv')
  then show ?thesis using map_of_SomeD by (fastforce simp: serving_def)
qed

lemma serving_update: "serving (sv\<lparr>conns := AList.update c (Serving ws) (conns sv)\<rparr>)"
  using map_of_SomeD [of "AList.update c (Serving ws) (conns sv)" c "Serving ws"]
  by (auto simp: serving_def update_conv')

lemma servingI: "map_of (conns sv) c = Some (Serving ws) \<Longrightarrow> serving sv"
  by (auto simp: serving_def dest: map_of_SomeD)

lemma tcp_handle_inv:
  assumes "keymap_reports xl" "tcp_inv sv" "tcp_handle xl debug e sv = Some sv'"
  shows "tcp_inv sv'"
proof (cases e)
  case (AcceptFailed m)
  with assms show ?thesis by (auto simp: tcp_inv_def serving_def)
next
  case (Accepted c)
  with assms show ?thesis by (auto simp: tcp_inv_def serving_def split: if_splits)
next
  case (Sniffed c u)
  then have sn: "map_of (conns sv) c = Some Sniffing" using assms(3) by (auto split: if_splits)
  show ?thesis
  proof (cases u)
    case Handled
    with Sniffed sn assms(3) have "sv' = close_conn c sv" by simp
    with assms(2) serving_delete [OF _ sn] length_delete [of c "conns sv"] show ?thesis
      by (auto simp: tcp_inv_def distinct_delete)
  next
    case (Plain inp)
    with Sniffed sn assms(3) have "sv' = sv\<lparr>conns := AList.update c (Serving False) (conns sv)\<rparr>" by simp
    with assms(2) serving_update length_update_mem [OF map_of_mem [OF sn]] show ?thesis
      by (auto simp: tcp_inv_def distinct_update)
  next
    case (WebSocket inp)
    with Sniffed sn assms(3) have "sv' = sv\<lparr>conns := AList.update c (Serving True) (conns sv)\<rparr>" by simp
    with assms(2) serving_update length_update_mem [OF map_of_mem [OF sn]] show ?thesis
      by (auto simp: tcp_inv_def distinct_update)
  qed
next
  case (Line c l)
  with assms(3) obtain ws where ws: "map_of (conns sv) c = Some (Serving ws)"
    and sv': "conns sv' = conns sv" "proc sv' = handleCommand xl debug l (proc sv)"
    by (auto split: option.splits phase.splits)
  with assms(2) handleCommand_narrow [of "proc sv" xl debug l] servingI [of sv' c ws] show ?thesis
    by (auto simp: tcp_inv_def)
next
  case (Ended c err)
  with assms(3) have "conns sv' = AList.delete c (conns sv) \<and> px (proc sv') = px (releaseAllHeld xl (proc sv))"
    by (auto simp: Let_def releaseAllHeld_def split: option.splits phase.splits if_splits)
  with assms(2) releaseAllHeld_down [OF assms(1), of "proc sv"] length_delete [of c "conns sv"] show ?thesis
    by (auto simp: tcp_inv_def distinct_delete)
qed

lemma tcp_reach_inv: "tcp_reach xl debug sv0 sv \<Longrightarrow> keymap_reports xl \<Longrightarrow> tcp_inv sv0 \<Longrightarrow> tcp_inv sv"
  by (induction rule: tcp_reach.induct) (auto intro: tcp_handle_inv)

end
