(* ===== verification/Daemon.thy ===== *)
theory Daemon
  imports DestServe Serve DestBackend
begin

text \<open>
  cmd/xtest-server/main.go: from the flags to the transport that is served. Every way out of \<open>main\<close>
  before serving is an exit status; the served transports come with the state of the display they
  start from.
\<close>

section \<open>Start-up\<close>

record flags =
  f_debug :: bool
  f_tcp :: string
  f_ws :: string
  f_vnext :: string
  f_allow :: string
  f_gid :: string
  f_version :: bool

record build_identity =
  buildVersion :: string
  buildRevision :: string
  buildDirty :: string

record daemon_env =
  identity :: build_identity
  lockenv :: lock_env
  egid :: int
  display_lib :: xlib

datatype main_result =
    PrintVersion string
  | ExitWith int "string list"
  | RunDest string "go_uint32 list" "go_uint32 list" xstate
  | RunTCP string xstate
  | RunStdin xstate

definition version_line :: "build_identity \<Rightarrow> string" where
  "version_line i = ''xtest-server version='' @ buildVersion i @ '' revision='' @ buildRevision i
     @ '' dirty='' @ buildDirty i @ '' protocols=v2,dest-c3 backend=x11'' @ [LF]"

text \<open>The exit status of a failed display and what it wrote to stderr, if it failed; the C part has
  already reported an Xwayland display.\<close>

definition exitIfDisplayInit :: "int \<Rightarrow> (int \<times> string list) option" where
  "exitIfDisplayInit rc =
     (if rc = 0 then None
      else Some (1, if rc \<noteq> -2 then [''xtest-server: failed to open X11 display'' @ [LF]] else []))"

definition lock_held_log :: string where
  "lock_held_log = ''xtest-server: another instance already holds the singleton lock; exiting'' @ [LF]"

definition parse_lists :: "flags \<Rightarrow> daemon_env \<Rightarrow> Mode \<Rightarrow> admission_error + (go_uint32 list \<times> go_uint32 list)" where
  "parse_lists fl env mode =
     (if mode \<noteq> ModeVNext then Inr ([], [])
      else case ParseAllowlist (euid (lockenv env)) (f_allow fl) of
          Inl e \<Rightarrow> Inl e
        | Inr allow \<Rightarrow>
            (case ParseGIDAllowlist (egid env) (f_gid fl) of
               Inl e \<Rightarrow> Inl e
             | Inr gids \<Rightarrow> Inr (allow, gids)))"

definition go_main :: "flags \<Rightarrow> daemon_env \<Rightarrow> main_result" where
  "go_main fl env =
     (if f_version fl then PrintVersion (version_line (identity env))
      else case AdmitFlags (f_tcp fl) (f_ws fl) (f_vnext fl) of
          Inl e \<Rightarrow> ExitWith 2 [admission_text e @ [LF]]
        | Inr (mode, listenAddr) \<Rightarrow>
            (case parse_lists fl env mode of
               Inl e \<Rightarrow> ExitWith 2 [admission_text e @ [LF]]
             | Inr (allow, gids) \<Rightarrow>
                 (case acquireSingletonLock (lockenv env) of
                    None \<Rightarrow> ExitWith exitLockHeld [lock_held_log]
                  | Some lock \<Rightarrow>
                      let (rc, st) = initDisplay (display_lib env) init_xstate in
                      case exitIfDisplayInit rc of
                        Some (code, lg) \<Rightarrow> ExitWith code lg
                      | None \<Rightarrow>
                          if mode = ModeVNext then RunDest listenAddr allow gids st
                          else if listenAddr \<noteq> [] then RunTCP listenAddr st
                          else RunStdin st)))"

section \<open>The display at start\<close>

text \<open>Nothing is pressed and all keycodes are narrow.\<close>

definition fresh :: "xstate \<Rightarrow> bool" where
  "fresh st \<longleftrightarrow> narrow (xlog st) \<and> x_down (xlog st) ({}, {}) = ({}, {})"

lemma unat_ucast8: "unat (ucast (kc :: 8 word) :: 32 word) < 256"
proof -
  have "unat (ucast kc :: 32 word) = unat kc" by transfer (simp add: take_bit_take_bit)
  then show ?thesis using unsigned_less [of kc, where ?'a = nat] by simp
qed

lemma fresh_clear [simp]: "fresh st \<Longrightarrow> fresh (clear_modifier_lock kc st)"
  using unat_ucast8 [of kc]
  by (auto simp: fresh_def clear_modifier_lock_def issue_def x_down_append narrow_def)

lemma fresh_issue [simp]: "fresh st \<Longrightarrow> fresh (issue XAutoRepeatOff st)" "fresh st \<Longrightarrow> fresh (issue XSync st)"
  by (auto simp: fresh_def issue_def x_down_append narrow_def)

lemma fresh_update [simp]:
  "fresh (st\<lparr>dpy := b\<rparr>) = fresh st" "fresh (st\<lparr>screen_w := w\<rparr>) = fresh st" "fresh (st\<lparr>screen_h := w\<rparr>) = fresh st"
  by (simp_all add: fresh_def)

lemma fresh_init [simp]: "fresh init_xstate"
  by (simp add: fresh_def init_xstate_def narrow_def)

lemma clear_fields [simp]:
  "dpy (clear_modifier_lock kc st) = dpy st" "screen_w (clear_modifier_lock kc st) = screen_w st"
  "screen_h (clear_modifier_lock kc st) = screen_h st"
  by (simp_all add: clear_modifier_lock_def issue_def)

lemma initDisplay_open:
  assumes "initDisplay xl init_xstate = (0, st)"
  shows "dpy st \<and> fresh st \<and> \<not> has_XWAYLAND xl \<and> screen st = (DisplayWidth xl, DisplayHeight xl)"
  using assms
  by (auto simp: initDisplay_def init_display_def clear_lock_of_def Let_def issue_def [of _ "_\<lparr>xlog := _\<rparr>"]
      split: if_splits) (simp_all add: issue_def fresh_issue)

section \<open>Gates\<close>

text \<open>What holds when a transport starts: the lock is held and the display is open, is not an
  Xwayland one and has nothing pressed on it.\<close>

definition may_serve :: "daemon_env \<Rightarrow> xstate \<Rightarrow> bool" where
  "may_serve env st \<longleftrightarrow> acquireSingletonLock (lockenv env) \<noteq> None \<and> \<not> has_XWAYLAND (display_lib env)
     \<and> dpy st \<and> fresh st"

lemma parse_lists_dest: "parse_lists fl env ModeVNext = Inr (allow, gids) \<Longrightarrow> allow \<noteq> []"
  by (auto simp: parse_lists_def ParseAllowlist_def Let_def split: sum.splits if_splits)

lemma AdmitFlags_dest:
  "AdmitFlags tcp ws spec = Inr (ModeVNext, path) \<Longrightarrow> blank tcp \<and> blank ws \<and> socket_path path"
  using ParseUnixListen_path
  by (auto simp: AdmitFlags_def SelectMode_def Let_def blank_def split: sum.splits if_splits)

lemma AdmitFlags_legacy:
  "AdmitFlags tcp ws spec = Inr (mode, addr) \<Longrightarrow> mode \<noteq> ModeVNext \<Longrightarrow>
   blank spec \<and> (addr = [] \<longleftrightarrow> blank tcp \<and> blank ws)"
  by (auto simp: AdmitFlags_def SelectMode_def Let_def blank_def split: sum.splits if_splits)


text \<open>(C12) From start-up to service: when \<open>main\<close> reaches the legacy TCP server, then under every
  interleaving of its connections at most ten are open, and whenever none serves commands no key is
  pressed on the display and none of the buttons 1 to 3 is, provided the key map reports the keys
  that are down.\<close>

theorem daemon_tcp_safe:
  assumes "go_main fl env = RunTCP addr st" "keymap_reports (display_lib env)"
    and "tcp_reach (display_lib env) (f_debug fl) \<lparr>proc = \<lparr>px = st, stderr_log = lg\<rparr>, conns = [], acks = []\<rparr> sv"
  shows "length (conns sv) \<le> 10 \<and> (serving sv \<or> nothing_down (px (proc sv)))"
proof -
  have "dpy st \<and> fresh st"
    using assms(1) initDisplay_open
    by (auto simp: go_main_def exitIfDisplayInit_def split: sum.splits option.splits if_splits prod.splits)
  then have "tcp_inv \<lparr>proc = \<lparr>px = st, stderr_log = lg\<rparr>, conns = [], acks = []\<rparr>"
    by (auto simp: tcp_inv_def fresh_def nothing_down_def keys_down_def buttons_down_def narrow_def inputs_def)
  from tcp_reach_inv [OF assms(3,2) this] show ?thesis by (auto simp: tcp_inv_def maxConns_def)
qed

theorem daemon_tcp_safe_witness:
  "\<exists>fl env st. go_main fl env = RunTCP '':9999'' st \<and> nothing_down st"
proof -
  let ?fl = "\<lparr>f_debug = False, f_tcp = '':9999'', f_ws = [], f_vnext = [], f_allow = ''euid'', f_gid = [],
     f_version = False\<rparr>"
  let ?lock = "\<lparr>display = '':99'', euid = 1000,
     sys_open = (\<lambda>p. Inr \<lparr>st_kind = Regular, st_uid = 1000, st_ino = 1\<rparr>), flock_busy = (\<lambda>i ino. False)\<rparr>"
  let ?env = "\<lparr>identity = \<lparr>buildVersion = [], buildRevision = [], buildDirty = []\<rparr>, lockenv = ?lock,
     egid = 1000, display_lib = sample_xlib\<rparr>"
  obtain st where "initDisplay sample_xlib init_xstate = (0, st)"
    by (simp add: initDisplay_def init_display_def sample_xlib_def init_xstate_def Let_def upt_rec)
  moreover have "TrimSpace '':9999'' = '':9999''" by (rule TrimSpace_id) (simp_all add: IsSpace_def)
  moreover have "acquireSingletonLock ?lock = Some \<lparr>st_kind = Regular, st_uid = 1000, st_ino = 1\<rparr>"
    by (simp add: acquireSingletonLock_def lockPaths_def openLockFile_def currentEUID_def Let_def upt_rec)
  ultimately have run: "go_main ?fl ?env = RunTCP '':9999'' st"
    by (simp add: go_main_def AdmitFlags_def SelectMode_def parse_lists_def exitIfDisplayInit_def)
  have "nothing_down st"
    using daemon_tcp_safe [OF run _ tcp_start, of "[]"] keymap_reports_sample by (simp add: serving_def)
  with run show ?thesis by blast
qed

end
