(* ===== verification/DestSystem.thy ===== *)
theory DestSystem
  imports Replay Daemon
begin

text \<open>
  The destination server as a whole: the accept loop of \<open>serveVNext\<close> with the goroutines of its
  connections, which share one backend. A step of a connection is one backend call, that is one job of
  the X owner; between two calls of a connection any other connection may run any number of its own.
  What a connection calls next is what its code, \<open>serveVNextConn\<close>, calls when it is replayed on the
  states its earlier calls found.
\<close>

section \<open>State and steps\<close>

text \<open>\<open>jobs\<close> are the calls in the order in which the owner ran them, each with its connection and the
  backend before and after it; \<open>ended\<close> are the connections that have returned.\<close>

record dest_sys =
  srv :: dest_server
  disp :: dest_state
  jobs :: "(nat \<times> dest_state \<times> dest_state) list"
  ended :: "nat list"

definition dest_sys_start :: "dest_server \<Rightarrow> xstate \<Rightarrow> dest_sys" where
  "dest_sys_start sv st = \<lparr>srv = sv, disp = destBackend st, jobs = [], ended = []\<rparr>"

definition own_jobs :: "nat \<Rightarrow> dest_sys \<Rightarrow> dest_state calls" where
  "own_jobs c sy = map snd (filter (\<lambda>j. fst j = c) (jobs sy))"

definition job_states :: "dest_state calls \<Rightarrow> dest_state \<Rightarrow> nat \<Rightarrow> dest_state" where
  "job_states h d n = (if n < length h then fst (h ! n) else d)"

definition conn_jobs :: "xlib \<Rightarrow> conn_env \<Rightarrow> dest_state calls \<Rightarrow> dest_state \<Rightarrow> dest_state calls" where
  "conn_jobs xl env h d =
     (case serveVNextConn (replay_backend (dest_backend xl) (job_states h d)) env [] of (rs, out, tr) \<Rightarrow> tr)"

datatype sys_event = Listener dest_event | Job nat

fun sys_step :: "xlib \<Rightarrow> (nat \<Rightarrow> conn_env) \<Rightarrow> go_uint32 list \<Rightarrow> go_uint32 list \<Rightarrow> sys_event \<Rightarrow> dest_sys \<Rightarrow> dest_sys option" where
  "sys_step xl envs allow gids (Job c) sy =
     (let h = own_jobs c sy; js = conn_jobs xl (envs c) h (disp sy) in
      if dexit (srv sy) \<noteq> None \<or> c \<notin> fst ` set (dconns (srv sy)) \<or> length js \<le> length h then None
      else let (d, d') = js ! length h in Some (sy\<lparr>disp := d', jobs := jobs sy @ [(c, d, d')]\<rparr>))"
| "sys_step xl envs allow gids (Listener (DFinished c)) sy =
     (let h = own_jobs c sy; js = conn_jobs xl (envs c) h (disp sy) in
      if length h < length js then None
      else map_option (\<lambda>sv. sy\<lparr>srv := sv\<lparr>dlog := dlog sv @ dest_scanner_log (envs c)\<rparr>, ended := c # ended sy\<rparr>)
             (dest_handle allow gids (DFinished c) (srv sy)))"
| "sys_step xl envs allow gids (Listener (DAccepted c p)) sy =
     (if c \<in> set (ended sy) then None
      else map_option (\<lambda>sv. sy\<lparr>srv := sv\<rparr>) (dest_handle allow gids (DAccepted c p) (srv sy)))"
| "sys_step xl envs allow gids (Listener e) sy =
     map_option (\<lambda>sv. sy\<lparr>srv := sv\<rparr>) (dest_handle allow gids e (srv sy))"

fun sys_run :: "xlib \<Rightarrow> (nat \<Rightarrow> conn_env) \<Rightarrow> go_uint32 list \<Rightarrow> go_uint32 list \<Rightarrow> sys_event list \<Rightarrow> dest_sys \<Rightarrow> dest_sys option" where
  "sys_run xl envs allow gids [] sy = Some sy"
| "sys_run xl envs allow gids (e # es) sy =
     (case sys_step xl envs allow gids e sy of None \<Rightarrow> None | Some sy' \<Rightarrow> sys_run xl envs allow gids es sy')"

inductive sys_reach :: "xlib \<Rightarrow> (nat \<Rightarrow> conn_env) \<Rightarrow> go_uint32 list \<Rightarrow> go_uint32 list \<Rightarrow> dest_sys \<Rightarrow> dest_sys \<Rightarrow> bool"
  for xl envs allow gids sy0 where
  sys_refl: "sys_reach xl envs allow gids sy0 sy0"
| sys_next: "sys_reach xl envs allow gids sy0 sy \<Longrightarrow> sys_step xl envs allow gids e sy = Some sy' \<Longrightarrow>
    sys_reach xl envs allow gids sy0 sy'"

section \<open>What is down on the display\<close>

text \<open>Keys on the left, buttons on the right; \<open>touched\<close> are those a list of requests mentions.\<close>

definition down :: "xreq list \<Rightarrow> (32 word + 32 word) set" where
  "down lg = Inl ` keys_down lg \<union> Inr ` buttons_down lg"

definition touched :: "xreq list \<Rightarrow> (32 word + 32 word) set" where
  "touched rs = {Inl kc |kc. \<exists>p. XTestFakeKeyEvent kc p \<in> set rs} \<union> {Inr btn |btn. \<exists>p. XTestFakeButtonEvent btn p \<in> set rs}"

lemma x_down_from:
  "x_down rs (ks, bs) = (keys_down rs \<union> {kc \<in> ks. Inl kc \<notin> touched rs}, buttons_down rs \<union> {btn \<in> bs. Inr btn \<notin> touched rs})"
proof (induction rs arbitrary: ks bs)
  case (Cons r rs)
  have down: "keys_down (r # rs) = fst (x_down (r # rs) ({}, {}))" "buttons_down (r # rs) = snd (x_down (r # rs) ({}, {}))"
    by (simp_all add: keys_down_def buttons_down_def)
  show ?case unfolding down by (cases r) (auto simp: Cons.IH touched_def)
qed (simp add: keys_down_def buttons_down_def touched_def)

lemma down_Nil [simp]: "down [] = {}"
  by (simp add: down_def keys_down_def buttons_down_def)

lemma touched_Nil [simp]: "touched [] = {}"
  by (simp add: touched_def)

lemma down_append: "down (rs @ rs') = down rs' \<union> (down rs - touched rs')"
proof -
  have "x_down (rs @ rs') ({}, {}) = x_down rs' (keys_down rs, buttons_down rs)"
    by (simp add: x_down_append keys_down_def buttons_down_def)
  then show ?thesis
    unfolding down_def keys_down_def [of "rs @ rs'"] buttons_down_def [of "rs @ rs'"] x_down_from [of rs']
    by auto
qed

text \<open>What an interleaving leaves down, one of the interleaved processes leaves down.\<close>

lemma down_interleaved:
  "x \<in> down (concat (map snd tr)) \<Longrightarrow> \<exists>c. x \<in> down (concat (map snd (filter (\<lambda>j. fst j = c) tr)))"
proof (induction tr rule: rev_induct)
  case (snoc j tr)
  obtain c0 rs where j: "j = (c0, rs)" by force
  show ?case
  proof (cases "x \<in> down rs")
    case True
    then show ?thesis using j by (intro exI [of _ c0]) (simp add: down_append)
  next
    case False
    with snoc.prems j have "x \<in> down (concat (map snd tr))" "x \<notin> touched rs" by (auto simp: down_append)
    with snoc.IH obtain c where "x \<in> down (concat (map snd (filter (\<lambda>j. fst j = c) tr)))" by blast
    with \<open>x \<notin> touched rs\<close> j show ?thesis by (intro exI [of _ c]) (simp add: down_append)
  qed
qed simp

text \<open>Requests that match events leave down at most what the events do.\<close>

definition matched :: "xlib \<Rightarrow> input_event \<Rightarrow> xreq \<Rightarrow> bool" where
  "matched xl e r \<longleftrightarrow> (\<exists>wh. x_matches xl wh e r)"

lemma matched_down:
  assumes "list_all2 (matched xl) es rs" "ks \<subseteq> ucast ` down_keys h" "bs \<subseteq> ucast ` down_buttons h"
  shows "fst (x_down rs (ks, bs)) \<subseteq> ucast ` down_keys (apply_events es h)
     \<and> snd (x_down rs (ks, bs)) \<subseteq> ucast ` down_buttons (apply_events es h)"
  using assms
proof (induction es rs arbitrary: ks bs h rule: list_all2_induct)
  case (Cons e es r rs)
  then obtain w ht where m: "x_matches xl (w, ht) e r" by (auto simp: matched_def)
  show ?case
  proof (cases e)
    case (EvKey kc p)
    let ?ks = "if p then insert (ucast kc) ks else ks - {ucast kc}"
    have "?ks \<subseteq> ucast ` down_keys (apply_event e h)" "bs \<subseteq> ucast ` down_buttons (apply_event e h)"
      using EvKey Cons.prems by auto
    from Cons.IH [OF this] EvKey m show ?thesis by simp
  next
    case (EvButton btn p)
    let ?bs = "if p then insert (ucast btn) bs else bs - {ucast btn}"
    have "ks \<subseteq> ucast ` down_keys (apply_event e h)" "?bs \<subseteq> ucast ` down_buttons (apply_event e h)"
      using EvButton Cons.prems by auto
    from Cons.IH [OF this] EvButton m show ?thesis by simp
  qed (use m Cons.IH [of ks h bs] Cons.prems in auto)
qed simp

section \<open>The calls of a connection\<close>

lemma conn_jobs_run:
  "\<exists>rs out. serveVNextConn (replay_backend (dest_backend xl) (job_states h d)) env [] = (rs, out, conn_jobs xl env h d)"
  by (cases "serveVNextConn (replay_backend (dest_backend xl) (job_states h d)) env []") (simp add: conn_jobs_def)

lemma conn_jobs_states:
  assumes "n < length (conn_jobs xl env h d)"
  shows "fst (conn_jobs xl env h d ! n) = job_states h d n"
proof -
  obtain rs out where "serveVNextConn (replay_backend (dest_backend xl) (job_states h d)) env [] = (rs, out, conn_jobs xl env h d)"
    using conn_jobs_run by blast
  then have "grows (job_states h d) [] (conn_jobs xl env h d)"
    by (rule client3_grows [OF serveVNextConn_client])
  then have "map fst (conn_jobs xl env h d) = map (job_states h d) [0..<length (conn_jobs xl env h d)]"
    by (auto simp: grows_def)
  from arg_cong [OF this, of "\<lambda>xs. xs ! n"] assms show ?thesis by simp
qed

lemma conn_jobs_causal:
  assumes "\<forall>n<N. job_states h d n = job_states h' d' n"
  shows "conn_jobs xl env h d = conn_jobs xl env h' d' \<or> beyond N (conn_jobs xl env h d) (conn_jobs xl env h' d')"
proof -
  obtain rs out rs' out' where
    "serveVNextConn (replay_backend (dest_backend xl) (job_states h d)) env [] = (rs, out, conn_jobs xl env h d)"
    "serveVNextConn (replay_backend (dest_backend xl) (job_states h' d')) env [] = (rs', out', conn_jobs xl env h' d')"
    using conn_jobs_run by metis
  then show ?thesis
    by (rule client3_causal [OF serveVNextConn_client assms])
qed

text \<open>What a connection has called is the beginning of what its code calls.\<close>

definition consistent :: "xlib \<Rightarrow> conn_env \<Rightarrow> dest_state calls \<Rightarrow> bool" where
  "consistent xl env h \<longleftrightarrow> (\<forall>d. take (length h) (conn_jobs xl env h d) = h)"

lemma consistent_Nil [simp]: "consistent xl env []"
  by (simp add: consistent_def)

lemma consistent_snoc:
  assumes "consistent xl env h" "length h < length (conn_jobs xl env h d)"
  shows "consistent xl env (h @ [conn_jobs xl env h d ! length h])"
  unfolding consistent_def
proof
  fix d'
  let ?js = "conn_jobs xl env h d" and ?h' = "h @ [conn_jobs xl env h d ! length h]"
  have "take (Suc (length h)) ?js = ?h'"
    using assms by (simp add: take_Suc_conv_app_nth consistent_def)
  moreover have "\<forall>n<Suc (length h). job_states h d n = job_states ?h' d' n"
    using conn_jobs_states [OF assms(2)] by (auto simp: job_states_def nth_append less_Suc_eq)
  ultimately show "take (length ?h') (conn_jobs xl env ?h' d') = ?h'"
    using conn_jobs_causal [of "Suc (length h)" h d ?h' d' xl env] by (auto simp: beyond_def)
qed

lemma consistent_complete:
  "consistent xl env h \<Longrightarrow> length (conn_jobs xl env h d) \<le> length h \<Longrightarrow> conn_jobs xl env h d = h"
  unfolding consistent_def by (metis take_all)

text \<open>On an open display.\<close>

definition open_display :: "dest_state \<Rightarrow> bool" where
  "open_display d \<longleftrightarrow> dpy (xs d)"

lemma conn_jobs_ok:
  assumes "open_display d" "\<forall>j \<in> set h. open_display (fst j)" "\<forall>n. go_orders (range_order env n)"
  shows "length (conn_jobs xl env h d) \<le> 3 * length (fst (scan_lines scanBufferMax (read_error env) (input env)))"
    and "\<exists>es. replay_emits (live_emits (dest_emits xl) open_display) [] es (conn_jobs xl env h d) \<and> apply_events es no_holds = no_holds"
proof -
  obtain rs out where run:
    "serveVNextConn (replay_backend (dest_backend xl) (job_states h d)) env [] = (rs, out, conn_jobs xl env h d)"
    using conn_jobs_run by blast
  have op: "\<And>n. dpy (xs (job_states h d n))" using assms(1,2) by (auto simp: job_states_def open_display_def)
  show "length (conn_jobs xl env h d) \<le> 3 * length (fst (scan_lines scanBufferMax (read_error env) (input env)))"
    by (rule rdest.replay_connection_count [OF run op assms(3)])
  show "\<exists>es. replay_emits (live_emits (dest_emits xl) open_display) [] es (conn_jobs xl env h d) \<and> apply_events es no_holds = no_holds"
    using rdest.replay_connection [OF run op assms(3)] by (auto simp: open_display_def [abs_def])
qed

lemma consistent_next:
  assumes "length h < length (conn_jobs xl env h d)" "open_display d" "\<forall>j \<in> set h. open_display (fst j)"
    and "\<forall>n. go_orders (range_order env n)"
  obtains d' es where "conn_jobs xl env h d ! length h = (d, d')" "dest_emits xl d es d'" "open_display d'"
proof -
  have fst: "fst (conn_jobs xl env h d ! length h) = d"
    using conn_jobs_states [OF assms(1)] by (simp add: job_states_def)
  obtain d' where d': "conn_jobs xl env h d ! length h = (d, d')" using fst by (metis prod.collapse)
  then have mem: "(d, d') \<in> set (conn_jobs xl env h d)" using assms(1) by (metis nth_mem)
  from conn_jobs_ok(2) [OF assms(2-4), of xl] obtain es where
    "replay_emits (live_emits (dest_emits xl) open_display) [] es (conn_jobs xl env h d)" by blast
  from replay_emits_member [OF this mem] assms(2) that [OF d'] show ?thesis unfolding live_emits_def by blast
qed

section \<open>The requests of a connection\<close>

fun job_requests :: "dest_state \<times> dest_state \<Rightarrow> xreq list" where
  "job_requests (d, d') = drop (length (inputs (xs d))) (inputs (xs d'))"

definition own_requests :: "nat \<Rightarrow> dest_sys \<Rightarrow> xreq list" where
  "own_requests c sy = concat (map job_requests (own_jobs c sy))"

lemma job_requests_match:
  assumes "dest_emits xl d es d'"
  shows "inputs (xs d') = inputs (xs d) @ job_requests (d, d')
     \<and> list_all2 (matched xl) es (job_requests (d, d'))"
  using assms unfolding dest_emits_def x_emits_def matched_def
  by (auto elim!: list_all2_mono simp del: split_paired_Ex)

lemma complete_down:
  assumes "replay_emits (live_emits (dest_emits xl) live) [] es tr" "apply_events es no_holds = no_holds"
  shows "down (concat (map job_requests tr)) = {}"
proof -
  from assms(1) obtain ess where "list_all2 (\<lambda>(d, d') es. live_emits (dest_emits xl) live d es d') tr ess" and es: "es = concat ess"
    by (auto simp: replay_emits_def)
  then have "list_all2 (matched xl) (concat ess) (concat (map job_requests tr))"
    unfolding es live_emits_def
  proof (induction tr ess rule: list_all2_induct)
    case (Cons j js fs fss)
    obtain d d' where j: "j = (d, d')" by force
    with Cons.hyps(1) have "list_all2 (matched xl) fs (job_requests j)" by (auto dest: job_requests_match simp del: job_requests.simps)
    with Cons.IH show ?case by (simp add: list_all2_appendI)
  qed simp
  from matched_down [OF this, of "{}" no_holds "{}"] es assms(2) show ?thesis
    by (simp add: down_def keys_down_def buttons_down_def no_holds_def)
qed

fun chained :: "dest_state \<Rightarrow> dest_state calls \<Rightarrow> dest_state \<Rightarrow> bool" where
  "chained d [] d' \<longleftrightarrow> d = d'"
| "chained d ((s, s') # js) d' \<longleftrightarrow> s = d \<and> chained s' js d'"

lemma chained_snoc: "chained d (js @ [(s, s')]) d' \<longleftrightarrow> chained d js s \<and> s' = d'"
  by (induction d js s rule: chained.induct) auto

lemma chained_inputs:
  "chained d js d' \<Longrightarrow> \<forall>j \<in> set js. \<exists>es. dest_emits xl (fst j) es (snd j) \<Longrightarrow>
   inputs (xs d') = inputs (xs d) @ concat (map job_requests js)"
proof (induction d js d' rule: chained.induct)
  case (2 d s s' js d')
  then obtain es where "dest_emits xl s es s'" by auto
  from job_requests_match [OF this] 2 show ?case by (simp del: job_requests.simps)
qed simp

section \<open>The invariant of the server\<close>

definition finished_srv :: "conn_env \<Rightarrow> nat \<Rightarrow> dest_server \<Rightarrow> dest_server" where
  "finished_srv env c sv = sv\<lparr>dconns := AList.delete c (dconns sv), dlog := dlog sv @ dest_scanner_log env\<rparr>"

definition live_conns :: "dest_sys \<Rightarrow> nat set" where
  "live_conns sy = fst ` set (dconns (srv sy))"

definition sys_inv :: "xlib \<Rightarrow> (nat \<Rightarrow> conn_env) \<Rightarrow> dest_state \<Rightarrow> dest_sys \<Rightarrow> bool" where
  "sys_inv xl envs d0 sy \<longleftrightarrow>
     chained d0 (map snd (jobs sy)) (disp sy) \<and> open_display (disp sy)
     \<and> (\<forall>j \<in> snd ` set (jobs sy). open_display (fst j) \<and> (\<exists>es. dest_emits xl (fst j) es (snd j)))
     \<and> (\<forall>c. consistent xl (envs c) (own_jobs c sy))
     \<and> (\<forall>c. own_jobs c sy \<noteq> [] \<longrightarrow> c \<in> live_conns sy \<union> set (ended sy))
     \<and> (\<forall>c \<in> set (ended sy). c \<notin> live_conns sy
          \<and> (\<exists>d. open_display d \<and> conn_jobs xl (envs c) (own_jobs c sy) d = own_jobs c sy))"

lemma own_jobs_subset: "set (own_jobs c sy) \<subseteq> snd ` set (jobs sy)"
  by (auto simp: own_jobs_def)

lemma sys_inv_open: "sys_inv xl envs d0 sy \<Longrightarrow> \<forall>j \<in> set (own_jobs c sy). open_display (fst j)"
proof -
  assume "sys_inv xl envs d0 sy"
  then have "\<forall>j \<in> snd ` set (jobs sy). open_display (fst j)" unfolding sys_inv_def by blast
  then show ?thesis using own_jobs_subset [of c sy] by (meson subsetD)
qed

lemma own_jobs_snoc [simp]:
  "own_jobs c (sy\<lparr>disp := d, jobs := jobs sy @ [(c', j)]\<rparr>) = (if c = c' then own_jobs c sy @ [j] else own_jobs c sy)"
  by (simp add: own_jobs_def)

lemma own_jobs_srv [simp]:
  "own_jobs c (sy\<lparr>srv := sv\<rparr>) = own_jobs c sy" "own_jobs c (sy\<lparr>srv := sv, ended := es\<rparr>) = own_jobs c sy"
  by (simp_all add: own_jobs_def)

lemma sys_inv_srv: "live_conns (sy\<lparr>srv := sv\<rparr>) = live_conns sy \<Longrightarrow> sys_inv xl envs d0 (sy\<lparr>srv := sv\<rparr>) = sys_inv xl envs d0 sy"
  by (simp add: sys_inv_def)

lemma sys_inv_job:
  assumes inv: "sys_inv xl envs d0 sy" and step: "sys_step xl envs allow gids (Job c) sy = Some sy'"
    and ords: "\<forall>c n. go_orders (range_order (envs c) n)"
  shows "sys_inv xl envs d0 sy'"
proof -
  let ?h = "own_jobs c sy" let ?js = "conn_jobs xl (envs c) ?h (disp sy)"
  have live: "c \<in> live_conns sy" and less: "length ?h < length ?js"
    using step by (auto simp: Let_def live_conns_def split: if_splits)
  obtain d' es where d': "?js ! length ?h = (disp sy, d')" "dest_emits xl (disp sy) es d'" "open_display d'"
    using consistent_next [OF less _ sys_inv_open [OF inv]] inv ords unfolding sys_inv_def by blast
  have sy': "sy' = sy\<lparr>disp := d', jobs := jobs sy @ [(c, disp sy, d')]\<rparr>"
    using step d'(1) by (auto simp: Let_def split: if_splits)
  have "consistent xl (envs c) (?h @ [(disp sy, d')])"
    using consistent_snoc [OF _ less] inv d'(1) by (simp add: sys_inv_def)
  then show ?thesis
    using inv d' live unfolding sys_inv_def sy' by (auto simp: chained_snoc live_conns_def)
qed

lemma sys_inv_listener:
  assumes inv: "sys_inv xl envs d0 sy" and step: "sys_step xl envs allow gids (Listener e) sy = Some sy'"
  shows "sys_inv xl envs d0 sy'"
proof (cases e)
  case (DFinished c)
  let ?h = "own_jobs c sy" let ?js = "conn_jobs xl (envs c) ?h (disp sy)"
  have "conn_jobs xl (envs c) ?h (disp sy) = ?h"
    using step DFinished inv consistent_complete [of xl "envs c" ?h "disp sy"]
    by (auto simp: Let_def sys_inv_def split: if_splits)
  moreover have sy': "sy' = sy\<lparr>srv := finished_srv (envs c) c (srv sy), ended := c # ended sy\<rparr>"
    using step DFinished by (auto simp: Let_def finished_srv_def split: if_splits)
  moreover have "live_conns sy' = live_conns sy - {c}"
    unfolding sy' live_conns_def finished_srv_def by (force simp: AList.delete_eq)
  ultimately show ?thesis
    using inv unfolding sys_inv_def by auto
next
  case (DAccepted c p)
  with step obtain sv where sv: "dest_handle allow gids (DAccepted c p) (srv sy) = Some sv" "c \<notin> set (ended sy)"
    and sy': "sy' = sy\<lparr>srv := sv\<rparr>" by (auto simp del: dest_handle.simps split: if_splits)
  then have "live_conns sy \<subseteq> live_conns sy'" "live_conns sy' \<subseteq> insert c (live_conns sy)"
    by (auto simp: live_conns_def split: if_splits)
  with inv sv(2) show ?thesis unfolding sys_inv_def sy' by auto
qed (use inv step in \<open>auto simp: sys_inv_srv live_conns_def split: if_splits\<close>)

lemma sys_reach_inv:
  assumes "sys_reach xl envs allow gids sy0 sy" "sys_inv xl envs d0 sy0" "\<forall>c n. go_orders (range_order (envs c) n)"
  shows "sys_inv xl envs d0 sy"
  using assms
proof (induction rule: sys_reach.induct)
  case (sys_next sy e sy')
  then show ?case using sys_inv_job sys_inv_listener by (cases e) blast+
qed

section \<open>Safety of the server\<close>

lemma quiet_destBackend: "quiet st (xs (destBackend st))"
  by (cases "internDestAtoms st") (auto simp: destBackend_def dest: quiet_atoms)

lemma sys_inv_start: "dpy st \<Longrightarrow> dconns sv = [] \<Longrightarrow> sys_inv xl envs (destBackend st) (dest_sys_start sv st)"
  using quiet_dpy [OF quiet_destBackend] by (simp add: sys_inv_def dest_sys_start_def own_jobs_def open_display_def)

lemma sys_inv_down:
  assumes inv: "sys_inv xl envs d0 sy" and ords: "\<forall>c n. go_orders (range_order (envs c) n)"
    and fresh: "down (inputs (xs d0)) = {}" and x: "x \<in> down (inputs (xs (disp sy)))"
  shows "\<exists>c \<in> live_conns sy. x \<in> down (own_requests c sy)"
proof -
  let ?tr = "map (\<lambda>(c, j). (c, job_requests j)) (jobs sy)"
  have own: "concat (map snd (filter (\<lambda>j. fst j = c) ?tr)) = own_requests c sy" for c
    by (simp add: own_requests_def own_jobs_def filter_map comp_def case_prod_beta)
  have "inputs (xs (disp sy)) = inputs (xs d0) @ concat (map job_requests (map snd (jobs sy)))"
    by (rule chained_inputs) (use inv in \<open>auto simp: sys_inv_def\<close>)
  then have "inputs (xs (disp sy)) = inputs (xs d0) @ concat (map snd ?tr)"
    by (simp add: comp_def case_prod_beta)
  with x fresh have "x \<in> down (concat (map snd ?tr))" by (simp add: down_append)
  then obtain c where c: "x \<in> down (own_requests c sy)" using down_interleaved own by metis
  have "own_jobs c sy \<noteq> []" using c by (auto simp: own_requests_def)
  moreover have "c \<notin> set (ended sy)"
  proof
    assume "c \<in> set (ended sy)"
    with inv obtain d where "open_display d" "conn_jobs xl (envs c) (own_jobs c sy) d = own_jobs c sy"
      by (auto simp: sys_inv_def)
    with conn_jobs_ok(2) [OF _ sys_inv_open [OF inv]] ords complete_down c show False
      by (metis empty_iff own_requests_def)
  qed
  ultimately show ?thesis using inv c by (auto simp: sys_inv_def)
qed

definition srv_inv :: "go_uint32 list \<Rightarrow> go_uint32 list \<Rightarrow> dest_server \<Rightarrow> bool" where
  "srv_inv allow gids sv \<longleftrightarrow> length (dconns sv) \<le> 10 \<and> distinct (map fst (dconns sv))
     \<and> list_all (admitted allow gids \<circ> snd) (dconns sv)"

lemma sys_step_srv:
  "sys_step xl envs allow gids e sy = Some sy' \<Longrightarrow>
   \<exists>sv. dconns (srv sy') = dconns sv \<and> (sv = srv sy \<or> (\<exists>e. dest_handle allow gids e (srv sy) = Some sv))"
  by (induction xl envs allow gids e sy rule: sys_step.induct)
     (force simp: Let_def simp del: dest_handle.simps split: if_splits prod.splits)+

lemma sys_reach_srv: "sys_reach xl envs allow gids sy0 sy \<Longrightarrow> srv_inv allow gids (srv sy0) \<Longrightarrow> srv_inv allow gids (srv sy)"
proof (induction rule: sys_reach.induct)
  case (sys_next sy e sy')
  then show ?case using sys_step_srv [OF sys_next.hyps(2)] dest_handle_inv unfolding srv_inv_def by metis
qed

lemma down_inputs: "down (inputs st) = down (xlog st)"
  by (simp add: down_def keys_down_def buttons_down_def inputs_def x_down_inputs)

lemma go_main_dest: "go_main fl env = RunDest path allow gids st \<Longrightarrow> dpy st \<and> fresh st"
  using initDisplay_open
  by (auto simp: go_main_def exitIfDisplayInit_def split: sum.splits option.splits if_splits prod.splits)

lemma fresh_down: "fresh st \<Longrightarrow> down (xlog (xs (destBackend st))) = {}"
  using quiet_destBackend [of st] down_inputs [of st] down_inputs [of "xs (destBackend st)"]
  by (auto simp: quiet_def fresh_def down_def keys_down_def buttons_down_def)

lemma serveVNext_start_conns: "serveVNext_start fs path allow = (Inr sv, lg, acts) \<Longrightarrow> dconns sv = [] \<and> dexit sv = None"
  by (auto simp: serveVNext_start_def Let_def split: if_splits prod.splits option.splits)

text \<open>(C3) From start-up to service: when \<open>main\<close> reaches the destination server and its socket is bound, then
  under every interleaving of connections, one backend call at a time, at most ten connections are
  open, the peer of each is allowlisted, and every key or button that is down on the display is one
  that an open connection has pressed and not released. When no connection is open, nothing is down.\<close>

theorem daemon_dest_safe:
  assumes "go_main fl env = RunDest path allow gids st" "serveVNext_start fs path allow = (Inr sv0, lg, acts)"
    and "\<forall>c n. go_orders (range_order (envs c) n)"
    and "sys_reach (display_lib env) envs allow gids (dest_sys_start sv0 st) sy"
  shows "length (dconns (srv sy)) \<le> 10 \<and> list_all (admitted allow gids \<circ> snd) (dconns (srv sy))
     \<and> (\<forall>x \<in> down (xlog (xs (disp sy))). \<exists>c \<in> live_conns sy. x \<in> down (own_requests c sy))"
proof -
  note conns = serveVNext_start_conns [OF assms(2)]
  have "sys_inv (display_lib env) envs (destBackend st) (dest_sys_start sv0 st)"
    using sys_inv_start go_main_dest [OF assms(1)] conns by simp
  from sys_inv_down [OF sys_reach_inv [OF assms(4) this assms(3)] assms(3)] go_main_dest [OF assms(1)]
  have "\<forall>x \<in> down (xlog (xs (disp sy))). \<exists>c \<in> live_conns sy. x \<in> down (own_requests c sy)"
    by (simp add: fresh_down down_inputs)
  moreover have "srv_inv allow gids (srv (dest_sys_start sv0 st))"
    using conns by (simp add: srv_inv_def dest_sys_start_def)
  ultimately show ?thesis using sys_reach_srv [OF assms(4)] by (simp add: srv_inv_def)
qed

section \<open>Progress\<close>

definition request_lines :: "conn_env \<Rightarrow> string list" where
  "request_lines env = fst (scan_lines scanBufferMax (read_error env) (input env))"

lemma finish_connection:
  assumes "sys_inv xl envs d0 sy" "\<forall>c n. go_orders (range_order (envs c) n)"
    and "dexit (srv sy) = None" "c \<in> live_conns sy"
  shows "\<exists>n sy'. sys_run xl envs allow gids (replicate n (Job c) @ [Listener (DFinished c)]) sy = Some sy'
     \<and> c \<notin> live_conns sy' \<and> length (own_jobs c sy) + n \<le> 3 * length (request_lines (envs c))"
  using assms(1,3,4)
proof (induction "3 * length (request_lines (envs c)) - length (own_jobs c sy)" arbitrary: sy rule: less_induct)
  case less
  let ?h = "own_jobs c sy" let ?js = "conn_jobs xl (envs c) ?h (disp sy)"
  have bound: "length ?js \<le> 3 * length (request_lines (envs c))"
    unfolding request_lines_def
    by (rule conn_jobs_ok(1) [OF _ sys_inv_open [OF less.prems(1)]])
       (use less.prems(1) assms(2) in \<open>auto simp: sys_inv_def\<close>)
  have "take (length ?h) ?js = ?h" using less.prems(1) by (simp add: sys_inv_def consistent_def)
  from arg_cong [OF this, of length] have made: "length ?h \<le> length ?js" by simp
  show ?case
  proof (cases "length ?h < length ?js")
    case False
    then have "sys_step xl envs allow gids (Listener (DFinished c)) sy =
        Some (sy\<lparr>srv := finished_srv (envs c) c (srv sy), ended := c # ended sy\<rparr>)"
      using less.prems(3) by (simp add: Let_def live_conns_def finished_srv_def)
    with bound made show ?thesis by (intro exI [of _ 0]) (force simp: live_conns_def finished_srv_def AList.delete_eq)
  next
    case True
    from True less.prems(2,3) obtain sy1 where step: "sys_step xl envs allow gids (Job c) sy = Some sy1"
      and sy1: "srv sy1 = srv sy" "length (own_jobs c sy1) = Suc (length ?h)"
      by (cases "?js ! length ?h") (auto simp: Let_def live_conns_def)
    have "3 * length (request_lines (envs c)) - length (own_jobs c sy1) < 3 * length (request_lines (envs c)) - length ?h"
      using True bound sy1(2) by linarith
    from less.hyps [OF this sys_inv_job [OF less.prems(1) step assms(2)]] less.prems(2,3) sy1 obtain n sy' where
      "sys_run xl envs allow gids (replicate n (Job c) @ [Listener (DFinished c)]) sy1 = Some sy'" "c \<notin> live_conns sy'"
      "length (own_jobs c sy1) + n \<le> 3 * length (request_lines (envs c))"
      by (auto simp: live_conns_def)
    with step True bound sy1(2) show ?thesis
      by (intro exI [of _ "Suc n"] exI [of _ sy']) (simp del: sys_step.simps)
  qed
qed

text \<open>(C4) Progress: whatever the other connections have done and wherever they stand, an open connection of
  a running server can be brought to its end by its own calls alone, and the calls it makes in all
  are at most three for each line its client sent.\<close>

theorem dest_connection_completes:
  assumes "dpy st" "serveVNext_start fs path allow = (Inr sv0, lg, acts)" "\<forall>c n. go_orders (range_order (envs c) n)"
    and "sys_reach xl envs allow gids (dest_sys_start sv0 st) sy" "dexit (srv sy) = None" "c \<in> live_conns sy"
  shows "\<exists>n sy'. sys_run xl envs allow gids (replicate n (Job c) @ [Listener (DFinished c)]) sy = Some sy'
     \<and> c \<notin> live_conns sy' \<and> length (own_jobs c sy) + n \<le> 3 * length (request_lines (envs c))"
proof -
  have "sys_inv xl envs (destBackend st) (dest_sys_start sv0 st)"
    using sys_inv_start [OF assms(1)] serveVNext_start_conns [OF assms(2)] by simp
  from finish_connection [OF sys_reach_inv [OF assms(4) this assms(3)] assms(3,5,6)] show ?thesis .
qed

section \<open>A sample run\<close>

definition sample_flags :: flags where
  "sample_flags = \<lparr>f_debug = False, f_tcp = [], f_ws = [], f_vnext = ''unix:/run/d/s'', f_allow = ''euid'', f_gid = [],
     f_version = False\<rparr>"

definition sample_daemon :: daemon_env where
  "sample_daemon = \<lparr>identity = \<lparr>buildVersion = [], buildRevision = [], buildDirty = []\<rparr>,
     lockenv = \<lparr>display = '':99'', euid = 1000, sys_open = (\<lambda>p. Inr \<lparr>st_kind = Regular, st_uid = 1000, st_ino = 1\<rparr>),
       flock_busy = (\<lambda>i ino. False)\<rparr>,
     egid = 1000, display_lib = sample_xlib\<rparr>"

lemma sample_main: "\<exists>st. go_main sample_flags sample_daemon = RunDest ''/run/d/s'' [1000] [] st"
proof -
  obtain st where "initDisplay sample_xlib init_xstate = (0, st)"
    by (simp add: initDisplay_def init_display_def sample_xlib_def init_xstate_def Let_def upt_rec)
  moreover have "TrimSpace ''euid'' = ''euid''" "TrimSpace ''unix:/run/d/s'' = ''unix:/run/d/s''"
    by (rule TrimSpace_id; simp add: IsSpace_def)+
  moreover from this have "ParseUnixListen ''unix:/run/d/s'' = Inr ''/run/d/s''"
    by (simp add: ParseUnixListen_iff Clean_def ContainsAny_def)
  moreover have "acquireSingletonLock (lockenv sample_daemon) \<noteq> None"
    by (simp add: sample_daemon_def acquireSingletonLock_def lockPaths_def openLockFile_def currentEUID_def Let_def upt_rec)
  ultimately show ?thesis
    by (auto simp: go_main_def sample_flags_def AdmitFlags_def SelectMode_def parse_lists_def exitIfDisplayInit_def
        ParseAllowlist_def ParseGIDAllowlist_def processID_def sample_daemon_def)
qed

definition sample_peer :: peer where
  "sample_peer = \<lparr>unix_conn = True, syscall_err = None, control_err = None, so_peercred = Some (1000, 5)\<rparr>"

definition sample_env :: conn_env where
  "sample_env = \<lparr>input = button_line @ [LF], read_error = None, write_ok = (\<lambda>n. True), range_order = (\<lambda>n. (id, rev))\<rparr>"

lemma sample_accept:
  assumes "serveVNext_start sample_fs ''/run/d/s'' [1000] = (Inr sv0, lg, acts)"
  shows "\<exists>sy. sys_reach xl (\<lambda>c. sample_env) [1000] [] (dest_sys_start sv0 st) sy \<and> live_conns sy = {7} \<and> dexit (srv sy) = None
     \<and> own_jobs 7 sy = []"
proof -
  note sv0 = serveVNext_start_conns [OF assms]
  let ?sv = "sv0\<lparr>dconns := [(7, sample_peer)]\<rparr>"
  have "sys_reach xl (\<lambda>c. sample_env) [1000] [] (dest_sys_start sv0 st) ((dest_sys_start sv0 st)\<lparr>srv := ?sv\<rparr>)"
    by (rule sys_next [OF sys_refl, where e = "Listener (DAccepted 7 sample_peer)"])
       (simp add: sv0 dest_sys_start_def allowPeer_iff admitted_def sample_peer_def destMaxConns_def)
  then show ?thesis
    by (intro exI [of _ "(dest_sys_start sv0 st)\<lparr>srv := ?sv\<rparr>"]) (simp add: live_conns_def sv0 own_jobs_def dest_sys_start_def)
qed

lemma sample_start: "\<exists>sv0 lg acts. serveVNext_start sample_fs ''/run/d/s'' [1000] = (Inr sv0, lg, acts)"
  by (simp add: serveVNext_start_def sample_listen Let_def)

theorem daemon_dest_safe_witness:
  "\<exists>sv0 st sy. sys_reach sample_xlib (\<lambda>c. sample_env) [1000] [] (dest_sys_start sv0 st) sy \<and> live_conns sy = {7}
     \<and> length (dconns (srv sy)) \<le> 10 \<and> down (xlog (xs (disp sy))) \<subseteq> down (own_requests 7 sy)"
proof -
  obtain st where main: "go_main sample_flags sample_daemon = RunDest ''/run/d/s'' [1000] [] st" using sample_main by blast
  obtain sv0 lg acts where start: "serveVNext_start sample_fs ''/run/d/s'' [1000] = (Inr sv0, lg, acts)"
    using sample_start by blast
  obtain sy where sy: "sys_reach sample_xlib (\<lambda>c. sample_env) [1000] [] (dest_sys_start sv0 st) sy" "live_conns sy = {7}"
    using sample_accept [OF start] by blast
  have "display_lib sample_daemon = sample_xlib" by (simp add: sample_daemon_def)
  with daemon_dest_safe [OF main start, of "\<lambda>c. sample_env" sy] sy show ?thesis
    by (intro exI [of _ sv0] exI [of _ st] exI [of _ sy]) (auto simp: sample_env_def)
qed

theorem dest_connection_completes_witness:
  "\<exists>sv0 sy n sy'. sys_reach sample_xlib (\<lambda>c. sample_env) [1000] [] (dest_sys_start sv0 sample_xstate) sy
     \<and> sys_run sample_xlib (\<lambda>c. sample_env) [1000] [] (replicate n (Job 7) @ [Listener (DFinished 7)]) sy = Some sy'
     \<and> 7 \<notin> live_conns sy'"
proof -
  obtain sv0 lg acts where start: "serveVNext_start sample_fs ''/run/d/s'' [1000] = (Inr sv0, lg, acts)"
    using sample_start by blast
  obtain sy where sy: "sys_reach sample_xlib (\<lambda>c. sample_env) [1000] [] (dest_sys_start sv0 sample_xstate) sy"
    "live_conns sy = {7}" "dexit (srv sy) = None"
    using sample_accept [OF start] by blast
  have "dpy sample_xstate" by (simp add: sample_xstate_def)
  from dest_connection_completes [OF this start _ sy(1,3), of 7] sy show ?thesis by (auto simp: sample_env_def)
qed

end
