(* ===== verification/DestOwner.thy ===== *)
theory DestOwner
  imports Prelude
begin

text \<open>
  cmd/xtest-server/dest_owner.go: the goroutine that owns the X connection in destination mode. A job
  is a function on the X state that may panic; \<open>call\<close> puts its job into a channel of 256 places and
  returns once the job has run. The lemmas say that calls take effect in the order in which they
  entered the channel, one at a time.
\<close>

section \<open>The owner\<close>

definition destQueueCap :: nat where "destQueueCap = 256"

type_synonym 's job = "'s \<Rightarrow> 's option"

text \<open>\<open>ost\<close> is the state the jobs run on and \<open>queue\<close> the channel; \<open>calls\<close> and \<open>finished\<close> record which
  callers have sent their job and which have returned.\<close>

record 's owner =
  ost :: 's
  queue :: "(nat \<times> 's job) list"
  calls :: "(nat \<times> 's job) list"
  finished :: "nat list"
  exited :: bool

definition startXOwner :: "'s \<Rightarrow> 's owner" where
  "startXOwner s = \<lparr>ost = s, queue = [], calls = [], finished = [], exited = False\<rparr>"

text \<open>\<open>Send\<close>: a caller puts its job into the channel, which blocks while the channel is full. \<open>RunJob\<close>:
  the owner takes the next job and runs it; a panic ends the process.\<close>

datatype 's owner_event = Send nat "'s job" | RunJob

fun owner_step :: "'s owner_event \<Rightarrow> 's owner \<Rightarrow> 's owner option" where
  "owner_step (Send c fn) ow =
     (if exited ow \<or> length (queue ow) \<ge> destQueueCap then None
      else Some (ow\<lparr>queue := queue ow @ [(c, fn)], calls := calls ow @ [(c, fn)]\<rparr>))"
| "owner_step RunJob ow =
     (if exited ow then None
      else case queue ow of
          [] \<Rightarrow> None
        | (c, fn) # js \<Rightarrow>
            (case fn (ost ow) of
               None \<Rightarrow> Some (ow\<lparr>queue := js, exited := True\<rparr>)
             | Some s \<Rightarrow> Some (ow\<lparr>ost := s, queue := js, finished := finished ow @ [c]\<rparr>)))"

inductive owner_reach :: "'s \<Rightarrow> 's owner \<Rightarrow> bool" for s0 where
  owner_start: "owner_reach s0 (startXOwner s0)"
| owner_next: "owner_reach s0 ow \<Longrightarrow> owner_step e ow = Some ow' \<Longrightarrow> owner_reach s0 ow'"

section \<open>Calls are serialized\<close>

fun run_jobs :: "'s job list \<Rightarrow> 's \<Rightarrow> 's option" where
  "run_jobs [] s = Some s"
| "run_jobs (f # fs) s = (case f s of None \<Rightarrow> None | Some s' \<Rightarrow> run_jobs fs s')"

lemma run_jobs_snoc: "run_jobs (fs @ [f]) s = (case run_jobs fs s of None \<Rightarrow> None | Some s' \<Rightarrow> f s')"
  by (induction fs arbitrary: s) (auto split: option.splits)

text \<open>The calls so far are those that have run, in order, then (after a panic) the one that panicked,
  then those still in the channel.\<close>

definition owner_inv :: "'s \<Rightarrow> 's owner \<Rightarrow> bool" where
  "owner_inv s0 ow \<longleftrightarrow> length (queue ow) \<le> destQueueCap
     \<and> (\<exists>ran. finished ow = map fst ran \<and> run_jobs (map snd ran) s0 = Some (ost ow)
          \<and> (if exited ow then \<exists>c fn. fn (ost ow) = None \<and> calls ow = ran @ (c, fn) # queue ow
             else calls ow = ran @ queue ow))"

lemma owner_step_inv:
  assumes "owner_inv s0 ow" "owner_step e ow = Some ow'"
  shows "owner_inv s0 ow'"
proof (cases e)
  case (Send c fn)
  with assms show ?thesis by (auto simp: owner_inv_def split: if_splits)
next
  case RunJob
  with assms(2) obtain c fn js where q: "\<not> exited ow" "queue ow = (c, fn) # js"
    by (auto split: if_splits list.splits)
  with assms(1) obtain ran where ran: "finished ow = map fst ran" "run_jobs (map snd ran) s0 = Some (ost ow)"
    "calls ow = ran @ (c, fn) # js" "length js < destQueueCap"
    by (auto simp: owner_inv_def)
  show ?thesis
  proof (cases "fn (ost ow)")
    case None
    with assms(2) RunJob q have "ow' = ow\<lparr>queue := js, exited := True\<rparr>" by simp
    with ran None show ?thesis by (auto simp: owner_inv_def)
  next
    case (Some s)
    with assms(2) RunJob q have "ow' = ow\<lparr>ost := s, queue := js, finished := finished ow @ [c]\<rparr>" by simp
    with ran Some q(1) show ?thesis
      by (auto simp: owner_inv_def run_jobs_snoc intro!: exI [of _ "ran @ [(c, fn)]"])
  qed
qed



end
