(* ===== verification/DestChannel.thy ===== *)
theory DestChannel
  imports DestSystem DestOwner
begin

text \<open>
  The destination server on the channel of the X owner. A backend call of a connection is a job that the
  connection puts into the channel and waits for; the owner runs the jobs in channel order, so other
  jobs may run between the moment a call is made and the moment it takes effect. The theory shows that
  this is a refinement of the server whose calls take effect at once, and that the channel neither
  fills up nor blocks a connection.
\<close>

section \<open>State and steps\<close>

text \<open>\<open>chan\<close> is the owner with its channel and the backend its jobs run on; \<open>ran\<close> are the jobs it has run.\<close>

record chan_sys =
  csrv :: dest_server
  chan :: "dest_state owner"
  ran :: "(nat \<times> dest_state \<times> dest_state) list"
  cended :: "nat list"

definition chan_start :: "dest_server \<Rightarrow> xstate \<Rightarrow> chan_sys" where
  "chan_start sv st = \<lparr>csrv = sv, chan = startXOwner (destBackend st), ran = [], cended = []\<rparr>"

text \<open>What the server does to the display, with calls that take effect when the owner runs them.\<close>

definition direct :: "chan_sys \<Rightarrow> dest_sys" where
  "direct ch = \<lparr>srv = csrv ch, disp = ost (chan ch), jobs = ran ch, ended = cended ch\<rparr>"

definition next_call :: "xlib \<Rightarrow> conn_env \<Rightarrow> dest_state calls \<Rightarrow> dest_state \<Rightarrow> (dest_state \<times> dest_state) option" where
  "next_call xl env h d = (let js = conn_jobs xl env h d in if length h < length js then Some (js ! length h) else None)"

text \<open>The job of the next call of a connection that has made the calls \<open>h\<close>: the method of the backend on
  the state in which the owner runs it.\<close>

definition next_job :: "xlib \<Rightarrow> conn_env \<Rightarrow> dest_state calls \<Rightarrow> dest_state job" where
  "next_job xl env h d = map_option snd (next_call xl env h d)"

datatype chan_event = CallJob nat | OwnerRuns | Accepts dest_event

fun chan_step :: "xlib \<Rightarrow> (nat \<Rightarrow> conn_env) \<Rightarrow> go_uint32 list \<Rightarrow> go_uint32 list \<Rightarrow> chan_event \<Rightarrow> chan_sys \<Rightarrow> chan_sys option" where
  "chan_step xl envs allow gids (CallJob c) ch =
     (let h = own_jobs c (direct ch) in
      if dexit (csrv ch) \<noteq> None \<or> c \<notin> fst ` set (dconns (csrv ch)) \<or> c \<in> fst ` set (queue (chan ch))
        \<or> next_call xl (envs c) h (ost (chan ch)) = None then None
      else map_option (\<lambda>ow. ch\<lparr>chan := ow\<rparr>) (owner_step (Send c (next_job xl (envs c) h)) (chan ch)))"
| "chan_step xl envs allow gids OwnerRuns ch =
     (if dexit (csrv ch) \<noteq> None then None
      else case queue (chan ch) of
          [] \<Rightarrow> None
        | (c, fn) # js \<Rightarrow>
            map_option (\<lambda>ow. ch\<lparr>chan := ow, ran := ran ch @ (if exited ow then [] else [(c, ost (chan ch), ost ow)])\<rparr>)
              (owner_step RunJob (chan ch)))"
| "chan_step xl envs allow gids (Accepts e) ch =
     map_option (\<lambda>sy. ch\<lparr>csrv := srv sy, cended := ended sy\<rparr>) (sys_step xl envs allow gids (Listener e) (direct ch))"

inductive chan_reach :: "xlib \<Rightarrow> (nat \<Rightarrow> conn_env) \<Rightarrow> go_uint32 list \<Rightarrow> go_uint32 list \<Rightarrow> chan_sys \<Rightarrow> chan_sys \<Rightarrow> bool"
  for xl envs allow gids ch0 where
  chan_refl: "chan_reach xl envs allow gids ch0 ch0"
| chan_next: "chan_reach xl envs allow gids ch0 ch \<Longrightarrow> chan_step xl envs allow gids e ch = Some ch' \<Longrightarrow>
    chan_reach xl envs allow gids ch0 ch'"

section \<open>Waiting calls\<close>

text \<open>Whether a connection makes another call does not depend on the state the call will find.\<close>

lemma next_call_None: "next_call xl env h d = None \<longleftrightarrow> next_call xl env h d' = None"
proof -
  have "\<forall>n<length h. job_states h d n = job_states h d' n" by (simp add: job_states_def)
  from conn_jobs_causal [OF this, of xl env] show ?thesis by (auto simp: next_call_def Let_def beyond_def)
qed

lemma next_call_state: "next_call xl env h d = Some j \<Longrightarrow> j = (d, snd j)"
  using conn_jobs_states [of "length h" xl env h d]
  by (auto simp: next_call_def Let_def job_states_def prod_eq_iff split: if_splits)

lemma sys_step_next_call:
  "sys_step xl envs allow gids (Job c) sy =
     (if dexit (srv sy) \<noteq> None \<or> c \<notin> live_conns sy then None
      else map_option (\<lambda>(d, d'). sy\<lparr>disp := d', jobs := jobs sy @ [(c, d, d')]\<rparr>)
             (next_call xl (envs c) (own_jobs c sy) (disp sy)))"
  by (auto simp: next_call_def Let_def live_conns_def split: prod.split)

lemma sys_step_finish:
  "sys_step xl envs allow gids (Listener (DFinished c)) sy =
     (if c \<notin> live_conns sy \<or> next_call xl (envs c) (own_jobs c sy) (disp sy) \<noteq> None then None
      else Some (sy\<lparr>srv := finished_srv (envs c) c (srv sy), ended := c # ended sy\<rparr>))"
  by (auto simp: next_call_def Let_def live_conns_def finished_srv_def)

text \<open>A job in the channel is the next call of an open connection.\<close>

definition waiting :: "xlib \<Rightarrow> (nat \<Rightarrow> conn_env) \<Rightarrow> dest_sys \<Rightarrow> nat \<times> dest_state job \<Rightarrow> bool" where
  "waiting xl envs sy j \<longleftrightarrow> fst j \<in> live_conns sy \<and> snd j = next_job xl (envs (fst j)) (own_jobs (fst j) sy)
     \<and> next_call xl (envs (fst j)) (own_jobs (fst j) sy) (disp sy) \<noteq> None"

definition chan_inv :: "xlib \<Rightarrow> (nat \<Rightarrow> conn_env) \<Rightarrow> chan_sys \<Rightarrow> bool" where
  "chan_inv xl envs ch \<longleftrightarrow> \<not> exited (chan ch) \<and> distinct (map fst (queue (chan ch)))
     \<and> (\<forall>j \<in> set (queue (chan ch)). waiting xl envs (direct ch) j)"

lemma waiting_stays:
  assumes "waiting xl envs sy j" "own_jobs (fst j) sy' = own_jobs (fst j) sy" "fst j \<in> live_conns sy'"
  shows "waiting xl envs sy' j"
  using assms next_call_None [of xl "envs (fst j)" "own_jobs (fst j) sy" "disp sy" "disp sy'"]
  by (simp add: waiting_def)

lemma direct_chan [simp]:
  "srv (direct ch) = csrv ch" "disp (direct ch) = ost (chan ch)" "jobs (direct ch) = ran ch" "ended (direct ch) = cended ch"
  by (simp_all add: direct_def)

lemma direct_accepts: "direct (ch\<lparr>csrv := sv, cended := es\<rparr>) = (direct ch)\<lparr>srv := sv, ended := es\<rparr>"
  by (simp add: direct_def)

lemma own_jobs_ran:
  "own_jobs c (direct (ch\<lparr>chan := ow\<rparr>)) = own_jobs c (direct ch)"
  "own_jobs c (direct (ch\<lparr>chan := ow, ran := ran ch @ [(c', j)]\<rparr>)) =
     (if c = c' then own_jobs c (direct ch) @ [j] else own_jobs c (direct ch))"
  by (simp_all add: own_jobs_def)

lemma live_conns_direct: "live_conns (direct ch) = fst ` set (dconns (csrv ch))"
  by (simp add: live_conns_def)

text \<open>A send leaves the display alone; a job that the owner runs is the call of its connection.\<close>

lemma chan_send:
  assumes "chan_inv xl envs ch" "chan_step xl envs allow gids (CallJob c) ch = Some ch'"
  shows "direct ch' = direct ch \<and> chan_inv xl envs ch'"
proof -
  let ?job = "(c, next_job xl (envs c) (own_jobs c (direct ch)))"
  from assms(2) have c: "c \<in> live_conns (direct ch)" "c \<notin> fst ` set (queue (chan ch))"
      "next_call xl (envs c) (own_jobs c (direct ch)) (ost (chan ch)) \<noteq> None"
    and ch': "ch' = ch\<lparr>chan := (chan ch)\<lparr>queue := queue (chan ch) @ [?job], calls := calls (chan ch) @ [?job]\<rparr>\<rparr>"
    by (auto simp: Let_def live_conns_direct split: if_splits)
  then have dir: "direct ch' = direct ch" by (simp add: direct_def)
  moreover have "chan_inv xl envs ch'"
    using assms(1) c unfolding chan_inv_def dir by (auto simp: ch' waiting_def)
  ultimately show ?thesis by simp
qed

lemma chan_run:
  assumes "chan_inv xl envs ch" "chan_step xl envs allow gids OwnerRuns ch = Some ch'"
  shows "\<exists>c. sys_step xl envs allow gids (Job c) (direct ch) = Some (direct ch') \<and> chan_inv xl envs ch'"
proof -
  from assms(2) obtain c fn js where q: "dexit (csrv ch) = None" "queue (chan ch) = (c, fn) # js"
    by (auto split: if_splits list.splits)
  let ?h = "own_jobs c (direct ch)" and ?d = "ost (chan ch)"
  from assms(1) q(2) have inv: "\<not> exited (chan ch)" "c \<in> live_conns (direct ch)" "fn = next_job xl (envs c) ?h"
    "distinct (c # map fst js)" "next_call xl (envs c) ?h ?d \<noteq> None"
    by (auto simp: chan_inv_def waiting_def)
  from inv(5) obtain d' where d': "next_call xl (envs c) ?h ?d = Some (?d, d')"
    using next_call_state by (metis not_None_eq)
  let ?ow = "(chan ch)\<lparr>ost := d', queue := js, finished := finished (chan ch) @ [c]\<rparr>"
  have ch': "ch' = ch\<lparr>chan := ?ow, ran := ran ch @ [(c, ?d, d')]\<rparr>"
    using assms(2) q inv(1,3) d' by (simp add: next_job_def)
  have step: "sys_step xl envs allow gids (Job c) (direct ch) = Some (direct ch')"
    unfolding sys_step_next_call using q(1) inv(2) d' by (simp add: ch' direct_def)
  have "waiting xl envs (direct ch') j" if "j \<in> set js" for j
  proof (rule waiting_stays)
    show "waiting xl envs (direct ch) j" using assms(1) q(2) that by (simp add: chan_inv_def)
    then show "fst j \<in> live_conns (direct ch')" by (simp add: waiting_def ch' live_conns_direct)
    have "fst j \<noteq> c" using that inv(4) by force
    then show "own_jobs (fst j) (direct ch') = own_jobs (fst j) (direct ch)" unfolding ch' own_jobs_ran by simp
  qed
  with inv(1,4) have "chan_inv xl envs ch'" by (simp add: chan_inv_def ch')
  with step show ?thesis by blast
qed

lemma chan_accepts:
  assumes "chan_inv xl envs ch" "chan_step xl envs allow gids (Accepts e) ch = Some ch'"
  shows "sys_step xl envs allow gids (Listener e) (direct ch) = Some (direct ch') \<and> chan_inv xl envs ch'"
proof -
  from assms(2) obtain sy where step: "sys_step xl envs allow gids (Listener e) (direct ch) = Some sy"
    and ch': "ch' = ch\<lparr>csrv := srv sy, cended := ended sy\<rparr>" by auto
  have keep: "disp sy = disp (direct ch)" "jobs sy = jobs (direct ch)"
    using step by (cases e; auto simp: Let_def simp del: dest_handle.simps split: if_splits)+
  then have sy: "direct ch' = sy" unfolding ch' direct_accepts by simp
  have "waiting xl envs sy j" if "j \<in> set (queue (chan ch))" for j
  proof (rule waiting_stays)
    show w: "waiting xl envs (direct ch) j" using that assms(1) by (simp add: chan_inv_def)
    show "own_jobs (fst j) sy = own_jobs (fst j) (direct ch)" using keep(2) by (simp add: own_jobs_def)
    show "fst j \<in> live_conns sy"
    proof (cases e)
      case (DFinished c)
      with step w have "fst j \<noteq> c" "sy = (direct ch)\<lparr>srv := finished_srv (envs c) c (csrv ch), ended := c # cended ch\<rparr>"
        by (auto simp: sys_step_finish waiting_def simp del: sys_step.simps split: if_splits)
      with w show ?thesis by (force simp: waiting_def live_conns_def finished_srv_def AList.delete_eq)
    qed (use step w in \<open>auto simp: waiting_def live_conns_def split: if_splits\<close>)
  qed
  then have "chan_inv xl envs ch'" using assms(1) unfolding chan_inv_def sy by (simp add: ch')
  with step sy show ?thesis by simp
qed

lemma chan_simulation:
  assumes "chan_reach xl envs allow gids ch0 ch" "chan_inv xl envs ch0"
  shows "sys_reach xl envs allow gids (direct ch0) (direct ch) \<and> chan_inv xl envs ch"
  using assms
proof (induction rule: chan_reach.induct)
  case chan_refl
  then show ?case using sys_refl by blast
next
  case (chan_next ch e ch')
  show ?case
  proof (cases e)
    case (CallJob c)
    with chan_next chan_send show ?thesis by metis
  next
    case OwnerRuns
    with chan_next obtain c where "sys_step xl envs allow gids (Job c) (direct ch) = Some (direct ch')" "chan_inv xl envs ch'"
      using chan_run by blast
    with chan_next show ?thesis using sys_next by blast
  next
    case (Accepts ev)
    with chan_next chan_accepts [of xl envs ch allow gids ev ch'] show ?thesis using sys_next by blast
  qed
qed

lemma chan_owner_reach:
  "chan_reach xl envs allow gids ch0 ch \<Longrightarrow> owner_reach d0 (chan ch0) \<Longrightarrow> owner_reach d0 (chan ch)"
proof (induction rule: chan_reach.induct)
  case (chan_next ch e ch')
  then have "chan ch' = chan ch \<or> (\<exists>ev. owner_step ev (chan ch) = Some (chan ch'))"
    by (cases e) (auto simp: Let_def simp del: sys_step.simps owner_step.simps split: if_splits list.splits)
  with chan_next show ?case using owner_next by metis
qed

section \<open>Refinement and progress\<close>

lemma chan_inv_start: "chan_inv xl envs (chan_start sv st)"
  by (simp add: chan_inv_def chan_start_def startXOwner_def)

lemma direct_start: "direct (chan_start sv st) = dest_sys_start sv st"
  by (simp add: direct_def chan_start_def startXOwner_def dest_sys_start_def)

lemma chan_queue_bound:
  assumes "chan_inv xl envs ch" "srv_inv allow gids (csrv ch)"
  shows "length (queue (chan ch)) \<le> 10"
proof -
  have "fst ` set (queue (chan ch)) \<subseteq> fst ` set (dconns (csrv ch))"
    using assms(1) by (auto simp: chan_inv_def waiting_def live_conns_def)
  then have "card (set (map fst (queue (chan ch)))) \<le> card (set (map fst (dconns (csrv ch))))"
    by (simp add: card_mono)
  with assms show ?thesis by (simp add: chan_inv_def srv_inv_def distinct_card del: set_map)
qed

lemma chan_progress:
  assumes "chan_inv xl envs ch" "length (queue (chan ch)) \<le> 10" "dexit (csrv ch) = None" "c \<in> live_conns (direct ch)"
  shows "\<exists>e \<in> {CallJob c, OwnerRuns, Accepts (DFinished c)}. chan_step xl envs allow gids e ch \<noteq> None"
proof (cases "queue (chan ch)")
  case Nil
  show ?thesis
  proof (cases "next_call xl (envs c) (own_jobs c (direct ch)) (ost (chan ch))")
    case None
    with assms(4) have "chan_step xl envs allow gids (Accepts (DFinished c)) ch \<noteq> None"
      by (simp add: sys_step_finish del: sys_step.simps)
    then show ?thesis by blast
  next
    case (Some j)
    with assms Nil have "chan_step xl envs allow gids (CallJob c) ch \<noteq> None"
      by (auto simp: chan_inv_def live_conns_direct destQueueCap_def Let_def)
    then show ?thesis by blast
  qed
next
  case (Cons j js)
  obtain c' fn where "j = (c', fn)" by force
  with Cons assms have "chan_step xl envs allow gids OwnerRuns ch \<noteq> None"
    by (simp add: chan_inv_def split: option.split)
  then show ?thesis by blast
qed

text \<open>(C5) The channel implements direct calls: whatever jobs the owner runs between the moment a connection
  makes a call and the moment the call takes effect, the server goes through states that it could
  reach with calls that take effect at once, so the properties of those states hold. The owner
  goes through states of its own transition system, no job panics, and the channel holds at most
  ten of its 256 jobs, so a call never blocks. While the server runs, it is never stuck with an open
  connection: the connection can make a call or end, or the owner can run a job.\<close>

theorem channel_refines:
  assumes "serveVNext_start fs path allow = (Inr sv0, lg, acts)"
    and "chan_reach xl envs allow gids (chan_start sv0 st) ch"
  shows "sys_reach xl envs allow gids (dest_sys_start sv0 st) (direct ch)
     \<and> owner_reach (destBackend st) (chan ch) \<and> \<not> exited (chan ch) \<and> length (queue (chan ch)) \<le> 10
     \<and> (dexit (csrv ch) = None \<longrightarrow>
          (\<forall>c \<in> live_conns (direct ch).
             \<exists>e \<in> {CallJob c, OwnerRuns, Accepts (DFinished c)}. chan_step xl envs allow gids e ch \<noteq> None))"
proof -
  from chan_simulation [OF assms(2) chan_inv_start] have
    reach: "sys_reach xl envs allow gids (dest_sys_start sv0 st) (direct ch)" and inv: "chan_inv xl envs ch"
    by (simp_all add: direct_start)
  have "srv_inv allow gids (srv (dest_sys_start sv0 st))"
    using serveVNext_start_conns [OF assms(1)] by (simp add: srv_inv_def dest_sys_start_def)
  from sys_reach_srv [OF reach this] have bound: "length (queue (chan ch)) \<le> 10"
    using chan_queue_bound [OF inv] by simp
  moreover have "owner_reach (destBackend st) (chan ch)"
    by (rule chan_owner_reach [OF assms(2)]) (simp add: chan_start_def owner_start)
  moreover have "\<not> exited (chan ch)" using inv by (simp add: chan_inv_def)
  ultimately show ?thesis using reach chan_progress [OF inv bound] by blast
qed

theorem channel_refines_witness:
  "\<exists>sv0 ch. chan_reach sample_xlib (\<lambda>c. sample_env) [1000] [] (chan_start sv0 sample_xstate) ch
     \<and> live_conns (direct ch) = {7} \<and> length (queue (chan ch)) \<le> 10
     \<and> (\<exists>e. chan_step sample_xlib (\<lambda>c. sample_env) [1000] [] e ch \<noteq> None)"
proof -
  obtain sv0 lg acts where start: "serveVNext_start sample_fs ''/run/d/s'' [1000] = (Inr sv0, lg, acts)"
    using sample_start by blast
  note sv0 = serveVNext_start_conns [OF start]
  let ?ch = "(chan_start sv0 sample_xstate)\<lparr>csrv := sv0\<lparr>dconns := [(7, sample_peer)]\<rparr>\<rparr>"
  have reach: "chan_reach sample_xlib (\<lambda>c. sample_env) [1000] [] (chan_start sv0 sample_xstate) ?ch"
    by (rule chan_next [OF chan_refl, where e = "Accepts (DAccepted 7 sample_peer)"])
       (simp add: sv0 chan_start_def allowPeer_iff admitted_def sample_peer_def destMaxConns_def)
  have "live_conns (direct ?ch) = {7}" "dexit (csrv ?ch) = None" by (simp_all add: live_conns_direct sv0)
  with channel_refines [OF start reach] reach show ?thesis by blast
qed

end
