(* ===== verification/GoScanner.thy ===== *)
theory GoScanner
  imports GoBufio
begin

text \<open>
  \<open>bufio.Scanner\<close> with \<open>ScanLines\<close> as it works on its reader: the lines in the buffer are delivered, the
  partial line is shifted to the front when space is needed, the buffer is doubled up to the limit,
  and the next bytes are read into the free part of the buffer. A reader that delivers the bytes of
  a stream in any portions gives the tokens of \<open>scan_lines\<close> on the whole stream.
\<close>

section \<open>The scanner and its buffer\<close>

text \<open>One \<open>Read\<close> into \<open>n\<close> bytes: the bytes read, and \<open>Some None\<close> at the end of the input or \<open>Some (Some e)\<close>
  after an error.\<close>

type_synonym 'r reader = "nat \<Rightarrow> 'r \<Rightarrow> (string \<times> scan_error option option) \<times> 'r"

text \<open>\<open>bdata\<close> are the bytes from \<open>start\<close> to \<open>end\<close> in a buffer of \<open>blen\<close> bytes.\<close>

record buffer =
  bstart :: nat
  bdata :: string
  blen :: nat

abbreviation bend :: "buffer \<Rightarrow> nat" where "bend b \<equiv> bstart b + length (bdata b)"

definition shift_data :: "buffer \<Rightarrow> buffer" where
  "shift_data b = (if 0 < bstart b \<and> (bend b = blen b \<or> blen b div 2 < bstart b) then b\<lparr>bstart := 0\<rparr> else b)"

text \<open>A full buffer is doubled, or the scan ends when it has the maximal size.\<close>

definition grow_buffer :: "nat \<Rightarrow> buffer \<Rightarrow> buffer option" where
  "grow_buffer maxTok b =
     (if bend b \<noteq> blen b then Some b
      else if maxTok \<le> blen b then None
      else Some (b\<lparr>bstart := 0, blen := min (if blen b = 0 then 4096 else 2 * blen b) maxTok\<rparr>))"

text \<open>\<open>Read\<close> is repeated while it returns neither bytes nor an error, at most 101 times.\<close>

definition ErrNoProgress :: scan_error where
  "ErrNoProgress = ReadError ''multiple Read calls return no data or error''"

fun read_some :: "'r reader \<Rightarrow> nat \<Rightarrow> nat \<Rightarrow> 'r \<Rightarrow> (string \<times> scan_error option option) \<times> 'r" where
  "read_some rd 0 n r = (([], Some (Some ErrNoProgress)), r)"
| "read_some rd (Suc k) n r =
     (let ((bs, e), r') = rd n r in if e \<noteq> None \<or> bs \<noteq> [] then ((bs, e), r') else read_some rd k n r')"

lemma read_some_now:
  "rd n r = ((bs, e), r') \<Longrightarrow> e \<noteq> None \<or> bs \<noteq> [] \<Longrightarrow> read_some rd 101 n r = ((bs, e), r')"
  by (simp add: read_some.simps(2) [of rd 100, simplified])

text \<open>The terminated lines of the buffered bytes, and the rest.\<close>

function complete_lines :: "string \<Rightarrow> string list \<times> string" where
  "complete_lines s =
     (if LF \<notin> set s then ([], s)
      else let (ls, p) = complete_lines (drop (Suc (length (line_of s))) s) in (drop_cr (line_of s) # ls, p))"
  by pat_completeness auto
termination
  by (relation "measure length") (auto intro: diff_less dest: length_pos_if_in_set)

declare complete_lines.simps [simp del]

text \<open>All tokens of a scan and \<open>sc.Err()\<close>; \<open>fuel\<close> bounds the number of reads.\<close>

fun scan_tokens :: "'r reader \<Rightarrow> nat \<Rightarrow> nat \<Rightarrow> buffer \<Rightarrow> 'r \<Rightarrow> (string list \<times> scan_error option) option" where
  "scan_tokens rd maxTok 0 b r = None"
| "scan_tokens rd maxTok (Suc fuel) b r =
     (let (ls, p) = complete_lines (bdata b);
          b1 = shift_data (b\<lparr>bstart := bstart b + (length (bdata b) - length p), bdata := p\<rparr>)
      in case grow_buffer maxTok b1 of
           None \<Rightarrow> Some (ls, Some ErrTooLong)
         | Some b2 \<Rightarrow>
             (case read_some rd 101 (blen b2 - bend b2) r of
                ((bs, None), r') \<Rightarrow>
                  map_option (apfst ((@) ls)) (scan_tokens rd maxTok fuel (b2\<lparr>bdata := p @ bs\<rparr>) r')
              | ((bs, Some e), r') \<Rightarrow>
                  let (ls', q) = complete_lines (p @ bs)
                  in Some (ls @ ls' @ (if q = [] then [] else [drop_cr q]), e)))"

definition new_buffer :: "nat \<Rightarrow> buffer" where
  "new_buffer n = \<lparr>bstart = 0, bdata = [], blen = n\<rparr>"

section \<open>Lines in the buffer\<close>

lemma line_of_split:
  assumes "LF \<in> set s"
  shows "s = line_of s @ LF # drop (Suc (length (line_of s))) s"
proof -
  have "s = takeWhile (\<lambda>c. c \<noteq> LF) s @ dropWhile (\<lambda>c. c \<noteq> LF) s" by simp
  moreover have "dropWhile (\<lambda>c. c \<noteq> LF) s = LF # tl (dropWhile (\<lambda>c. c \<noteq> LF) s)"
    using assms by (metis (mono_tags, lifting) dropWhile_eq_Nil_conv hd_dropWhile list.exhaust_sel)
  ultimately show ?thesis
    unfolding line_of_def by (metis (no_types, lifting) append_eq_conv_conj drop_Suc tl_drop)
qed

lemma line_of_less: "LF \<in> set s \<Longrightarrow> length (line_of s) < length s"
  by (induction s) (auto simp: line_of_def)

lemma complete_lines_rest:
  "complete_lines s = (ls, p) \<Longrightarrow> LF \<notin> set p \<and> (\<exists>c. s = c @ p)"
proof (induction s arbitrary: ls rule: complete_lines.induct)
  case (1 s)
  show ?case
  proof (cases "LF \<in> set s")
    case True
    then obtain ls' where "complete_lines (drop (Suc (length (line_of s))) s) = (ls', p)"
      using "1.prems" by (auto simp: complete_lines.simps [of s] split: prod.splits)
    from "1.IH" [of ls'] this True line_of_split [OF True] show ?thesis
      by (metis append.assoc append_Cons)
  next
    case False
    with "1.prems" show ?thesis by (simp add: complete_lines.simps [of s])
  qed
qed

lemma scan_lines_complete:
  "complete_lines d = (ls, p) \<Longrightarrow> length d \<le> limit \<Longrightarrow>
   scan_lines limit rerr (d @ s) = apfst ((@) ls) (scan_lines limit rerr (p @ s))"
proof (induction d arbitrary: ls rule: complete_lines.induct)
  case (1 d)
  let ?l = "line_of d" and ?d' = "drop (Suc (length (line_of d))) d"
  show ?case
  proof (cases "LF \<in> set d")
    case True
    then obtain ls' where ls': "complete_lines ?d' = (ls', p)" "ls = drop_cr ?l # ls'"
      using "1.prems" by (auto simp: complete_lines.simps [of d] split: prod.splits)
    have d: "d @ s = ?l @ LF # (?d' @ s)" using line_of_split [OF True] by simp
    have len: "length ?l < limit" using "1.prems"(2) line_of_less [OF True] by simp
    have "scan_lines limit rerr (?d' @ s) = apfst ((@) ls') (scan_lines limit rerr (p @ s))"
      using "1.IH" ls'(1) True "1.prems"(2) by simp
    then show ?thesis
      unfolding d scan_lines_line [OF line_of_no_LF len] ls'(2) by (cases "scan_lines limit rerr (p @ s)") simp
  next
    case False
    with "1.prems" show ?thesis by (simp add: complete_lines.simps [of d] apfst_def map_prod_def split: prod.splits)
  qed
qed

section \<open>Readers that deliver a stream\<close>

locale byte_reader =
  fixes rd :: "'r reader" and view :: "'r \<Rightarrow> string" and ok :: "'r \<Rightarrow> bool" and rerr :: "scan_error option"
  assumes read_data: "ok r \<Longrightarrow> view r \<noteq> [] \<Longrightarrow> 0 < n \<Longrightarrow>
      \<exists>bs r'. rd n r = ((bs, None), r') \<and> bs \<noteq> [] \<and> length bs \<le> n \<and> view r = bs @ view r' \<and> ok r'"
    and read_end: "ok r \<Longrightarrow> view r = [] \<Longrightarrow> 0 < n \<Longrightarrow> \<exists>r'. rd n r = (([], Some rerr), r')"
begin

lemma read_some_data:
  assumes "ok r" "view r \<noteq> []" "0 < n"
  obtains bs r' where "read_some rd 101 n r = ((bs, None), r')" "bs \<noteq> []" "length bs \<le> n" "view r = bs @ view r'" "ok r'"
  using read_data [OF assms] that read_some_now [of rd n r] by fastforce

lemma read_some_end:
  assumes "ok r" "view r = []" "0 < n"
  obtains r' where "read_some rd 101 n r = (([], Some rerr), r')"
  using read_end [OF assms] that read_some_now [of rd n r] by fastforce

end

definition buffer_ok :: "nat \<Rightarrow> buffer \<Rightarrow> bool" where
  "buffer_ok maxTok b \<longleftrightarrow> bend b \<le> blen b \<and> blen b \<le> maxTok"

lemma shift_data_simps [simp]: "bdata (shift_data b) = bdata b" "blen (shift_data b) = blen b"
  by (simp_all add: shift_data_def)

lemma shift_ok: "buffer_ok maxTok b \<Longrightarrow> buffer_ok maxTok (shift_data b)"
  by (auto simp: buffer_ok_def shift_data_def)

lemma shift_full: "bend (shift_data b) = blen b \<Longrightarrow> bend b \<le> blen b \<Longrightarrow> length (bdata b) = blen b"
  by (auto simp: shift_data_def split: if_splits)

lemma grow_None:
  "grow_buffer maxTok (shift_data b) = None \<Longrightarrow> buffer_ok maxTok b \<Longrightarrow> length (bdata b) = maxTok"
  using shift_full [of b] by (auto simp: grow_buffer_def buffer_ok_def split: if_splits)

lemma grow_Some:
  "grow_buffer maxTok (shift_data b) = Some b' \<Longrightarrow> buffer_ok maxTok b \<Longrightarrow>
   bdata b' = bdata b \<and> bend b' < blen b' \<and> blen b' \<le> maxTok"
  using shift_ok [of maxTok b] by (auto simp: grow_buffer_def buffer_ok_def split: if_splits)

lemma scan_lines_last: "LF \<notin> set p \<Longrightarrow> length p < limit \<Longrightarrow> scan_lines limit rerr p = (if p = [] then [] else [drop_cr p], rerr)"
proof -
  assume "LF \<notin> set p" "length p < limit"
  moreover from this have "line_of p = p" unfolding line_of_def by (intro takeWhile_eq_all_conv [THEN iffD2]) auto
  ultimately show ?thesis by (simp add: scan_lines.simps [of limit rerr p])
qed

context byte_reader
begin

lemma scan_tokens_lines:
  assumes "ok r" "buffer_ok maxTok b" "0 < maxTok" "length (view r) < fuel"
  shows "scan_tokens rd maxTok fuel b r = Some (scan_lines maxTok rerr (bdata b @ view r))"
  using assms
proof (induction fuel arbitrary: b r)
  case (Suc fuel)
  obtain ls p where c: "complete_lines (bdata b) = (ls, p)" by force
  obtain u where u: "bdata b = u @ p" and p: "LF \<notin> set p" using complete_lines_rest [OF c] by blast
  let ?b = "b\<lparr>bstart := bstart b + (length (bdata b) - length p), bdata := p\<rparr>"
  have okb: "buffer_ok maxTok ?b" "length (bdata b) \<le> maxTok"
    using Suc.prems(2) u by (auto simp: buffer_ok_def)
  have lines: "scan_lines maxTok rerr (bdata b @ view r) = apfst ((@) ls) (scan_lines maxTok rerr (p @ view r))"
    by (rule scan_lines_complete [OF c okb(2)])
  show ?case
  proof (cases "grow_buffer maxTok (shift_data ?b)")
    case None
    from grow_None [OF this okb(1)] have "length p = maxTok" by simp
    with p Suc.prems(3) have "scan_lines maxTok rerr (p @ view r) = ([], Some ErrTooLong)"
      by (intro scan_lines_too_long) auto
    with None c lines show ?thesis by simp
  next
    case (Some b2)
    note b2 = grow_Some [OF Some okb(1)]
    show ?thesis
    proof (cases "view r = []")
      case True
      with b2 obtain r' where "read_some rd 101 (blen b2 - bend b2) r = (([], Some rerr), r')"
        using read_some_end [OF Suc.prems(1)] by (metis zero_less_diff)
      moreover have "scan_lines maxTok rerr p = (if p = [] then [] else [drop_cr p], rerr)"
        using b2 p by (intro scan_lines_last) auto
      ultimately show ?thesis
        using Some c lines True p b2 by (simp add: complete_lines.simps [of p])
    next
      case False
      with b2 obtain bs r' where rd: "read_some rd 101 (blen b2 - bend b2) r = ((bs, None), r')" "bs \<noteq> []"
        "length bs \<le> blen b2 - bend b2" "view r = bs @ view r'" "ok r'"
        using read_some_data [OF Suc.prems(1)] by (metis zero_less_diff)
      have "length (view r') < fuel" using rd(2,4) Suc.prems(4) by (cases bs) auto
      then have "scan_tokens rd maxTok fuel (b2\<lparr>bdata := p @ bs\<rparr>) r' = Some (scan_lines maxTok rerr ((p @ bs) @ view r'))"
        using Suc.IH [OF rd(5), of "b2\<lparr>bdata := p @ bs\<rparr>"] rd b2 Suc.prems(3,4) by (auto simp: buffer_ok_def)
      with Some c lines rd show ?thesis by simp
    qed
  qed
qed simp

end

end
