(* ===== verification/WsStream.thy ===== *)
theory WsStream
  imports Ws GoScanner Handle
begin

text \<open>
  The command scanners on their readers. A plain connection is scanned through the reader that gives
  back the sniffed bytes first; however the connection delivers its bytes, the lines are those of the
  byte stream. A WebSocket is scanned through the frame reader; a client that sends each command in a
  frame of its own has each command executed once and in order, with one answer each.
\<close>

section \<open>Plain connections\<close>

text \<open>\<open>connReader.Read\<close> returns no bytes only when the connection has ended.\<close>

definition conn_reader :: "scan_error option \<Rightarrow> connReader reader" where
  "conn_reader rerr n cr =
     (let (bs, cr') = connReader_Read n cr in ((bs, if bs = [] then Some rerr else None), cr'))"

interpretation crd: byte_reader "conn_reader rerr" pending "\<lambda>cr. [] \<notin> set (cr_chunks cr)" rerr for rerr
proof
  fix n :: nat and r :: connReader
  assume ok: "[] \<notin> set (cr_chunks r)" and n: "0 < n"
  obtain bs r' where rd: "connReader_Read n r = (bs, r')" by force
  note step = connReader_Read_pending [OF rd ok]
  show "\<exists>bs r'. conn_reader rerr n r = ((bs, None), r') \<and> bs \<noteq> [] \<and> length bs \<le> n \<and> pending r = bs @ pending r'
      \<and> [] \<notin> set (cr_chunks r')" if "pending r \<noteq> []"
    using step rd n that by (intro exI [of _ bs] exI [of _ r']) (simp add: conn_reader_def)
  show "\<exists>r'. conn_reader rerr n r = (([], Some rerr), r')" if "pending r = []"
    using step rd that by (intro exI [of _ r']) (simp add: conn_reader_def)
qed

definition scanBufferInit :: nat where "scanBufferInit = 65536"

text \<open>(C22) Chunk independence: however a plain connection delivers its bytes, in whatever portions and
  with the four sniffed bytes in front, the buffered scanner ends and delivers exactly the lines of
  the byte stream, with the error that ended it, or stops at a line that does not fit its buffer.\<close>

theorem plain_stream_lines:
  assumes "[] \<notin> set (cr_chunks cr)" "length (pending cr) < fuel"
  shows "scan_tokens (conn_reader rerr) scanBufferMax fuel (new_buffer scanBufferInit) cr
     = Some (scan_lines scanBufferMax rerr (pending cr))"
  using crd.scan_tokens_lines [OF assms(1) _ _ assms(2), of scanBufferMax "new_buffer scanBufferInit" rerr]
  by (simp add: buffer_ok_def new_buffer_def scanBufferInit_def scanBufferMax_def)

theorem plain_stream_lines_witness:
  "scan_tokens (conn_reader None) scanBufferMax 100 (new_buffer scanBufferInit)
     \<lparr>cr_prefix = ''clic'', cr_chunks = [''k 1'' @ [LF] @ ''rel'', ''easeall'' @ [LF]]\<rparr> = Some ([''click 1'', ''releaseall''], None)"
proof -
  let ?cr = "\<lparr>cr_prefix = ''clic'', cr_chunks = [''k 1'' @ [LF] @ ''rel'', ''easeall'' @ [LF]]\<rparr>"
  have "pending ?cr = concat (map (\<lambda>l. l @ [LF]) [''click 1'', ''releaseall''])" by (simp add: pending_def)
  moreover have "scan_lines scanBufferMax None (concat (map (\<lambda>l. l @ [LF]) [''click 1'', ''releaseall'']))
      = (map drop_cr [''click 1'', ''releaseall''], None)"
    by (rule scan_lines_concat) (simp add: LF_def scanBufferMax_def)
  ultimately show ?thesis using plain_stream_lines [of ?cr 100 None] by (simp add: pending_def drop_cr_def)
qed

section \<open>WebSocket connections\<close>

fun ws_error_end :: "ws_error \<Rightarrow> scan_error option" where
  "ws_error_end EOF = None"
| "ws_error_end ErrUnexpectedEOF = Some (ReadError ''unexpected EOF'')"
| "ws_error_end errWSFrameTooLarge = Some (ReadError ''websocket frame exceeds 1 MiB'')"
| "ws_error_end errWSControlLarge = Some (ReadError ''websocket control frame exceeds 125 bytes'')"
| "ws_error_end (ReadFailed msg) = Some (ReadError msg)"

text \<open>The reader state: the bytes of the connection that are left and the frames written.\<close>

definition ws_reader :: "string option \<Rightarrow> (string \<times> string list) reader" where
  "ws_reader rerr n st =
     (case wsConn_Read rerr n (fst st) of
        (Inl e, s', pongs) \<Rightarrow> (([], Some (ws_error_end e)), (s', snd st @ pongs))
      | (Inr bs, s', pongs) \<Rightarrow> ((bs, None), (s', snd st @ pongs)))"

text \<open>The WebSocket branch of a connection up to its release: the commands are scanned from the
  frames, and each \<open>ok\<close> goes out through \<open>wsConn.Write\<close>.\<close>

definition serve_ws :: "nat \<Rightarrow> xlib \<Rightarrow> bool \<Rightarrow> string option \<Rightarrow> string \<Rightarrow> process \<Rightarrow> (string list \<times> process) option" where
  "serve_ws fuel xl debugLog rerr s pr =
     (case scan_tokens (ws_reader rerr) scanBufferMax fuel (new_buffer scanBufferInit) (s, []) of
        None \<Rightarrow> None
      | Some (lines, err) \<Rightarrow> Some (apfst (map wsConn_Write) (serveScannerWithAck xl debugLog lines pr)))"

definition command_frame :: "string \<times> string \<Rightarrow> string" where
  "command_frame mc = client_frame (fst mc) (snd mc @ [LF])"

definition frame_command :: "string \<times> string \<Rightarrow> bool" where
  "frame_command mc \<longleftrightarrow> length (fst mc) = 4 \<and> LF \<notin> set (snd mc) \<and> length (snd mc) < 32768"

lemma complete_lines_one: "LF \<notin> set l \<Longrightarrow> complete_lines (l @ [LF]) = ([drop_cr l], [])"
  by (simp add: complete_lines.simps [of "l @ [LF]"] complete_lines.simps [of "[]"] line_of_append)

lemma ws_reader_command:
  assumes "frame_command mc" "32768 \<le> n"
  shows "ws_reader rerr n (command_frame mc @ s, out) = ((snd mc @ [LF], None), (s, out))"
proof -
  obtain b1 where "read_frame rerr (command_frame mc @ s) = Inr (1, b1, snd mc @ [LF], s)"
    using read_frame_client [of "snd mc @ [LF]" "fst mc" rerr s] assms
    by (auto simp: command_frame_def frame_command_def maxFrame_def)
  moreover have "take n (snd mc @ [LF]) = snd mc @ [LF]" using assms by (intro take_all) (simp add: frame_command_def)
  ultimately show ?thesis by (simp add: ws_reader_def wsConn_Read.simps del: take_append)
qed

lemma ws_reader_end: "ws_reader None n ([], out) = (([], Some None), ([], out))"
  by (simp add: ws_reader_def wsConn_Read.simps read_frame_def ReadFull_def)

text \<open>Between frames the buffer holds no partial line, so at least half of it is free.\<close>

lemma drained_buffer:
  assumes "blen b = scanBufferInit" "bend b \<le> blen b" "complete_lines (bdata b) = (ls, [])"
  obtains b' where
    "grow_buffer scanBufferMax (shift_data (b\<lparr>bstart := bstart b + (length (bdata b) - length []), bdata := []\<rparr>)) = Some b'"
    "blen b' = scanBufferInit" "bdata b' = []" "bstart b' \<le> 32768"
proof (cases "32768 < bend b")
  case True
  with assms that [of "b\<lparr>bstart := 0, bdata := []\<rparr>"] show ?thesis
    by (auto simp: grow_buffer_def shift_data_def scanBufferInit_def)
next
  case False
  with assms that [of "b\<lparr>bstart := bend b, bdata := []\<rparr>"] show ?thesis
    by (auto simp: grow_buffer_def shift_data_def scanBufferInit_def)
qed

lemma ws_scan_commands:
  assumes "list_all frame_command mcs" "length mcs < fuel" "blen b = scanBufferInit" "bend b \<le> blen b"
    and "complete_lines (bdata b) = (ls, [])"
  shows "scan_tokens (ws_reader None) scanBufferMax fuel b (concat (map command_frame mcs), out)
     = Some (ls @ map (drop_cr \<circ> snd) mcs, None)"
  using assms
proof (induction mcs arbitrary: fuel b ls out)
  case Nil
  obtain k where k: "fuel = Suc k" using Nil.prems(2) by (cases fuel) auto
  obtain b' where "grow_buffer scanBufferMax (shift_data (b\<lparr>bstart := bstart b + (length (bdata b) - length []), bdata := []\<rparr>)) = Some b'"
    using drained_buffer [OF Nil.prems(3-5)] by blast
  with Nil.prems(5) k show ?case
    by (simp add: read_some_now [where rd = "ws_reader None", OF ws_reader_end] complete_lines.simps [of "[]"])
next
  case (Cons mc mcs)
  obtain k where k: "fuel = Suc k" "length mcs < k" using Cons.prems(2) by (cases fuel) auto
  obtain b' where b': "grow_buffer scanBufferMax (shift_data (b\<lparr>bstart := bstart b + (length (bdata b) - length []), bdata := []\<rparr>)) = Some b'"
    "blen b' = scanBufferInit" "bdata b' = []" "bstart b' \<le> 32768"
    using drained_buffer [OF Cons.prems(3-5)] by blast
  have mc: "frame_command mc" "list_all frame_command mcs" using Cons.prems(1) by simp_all
  let ?b = "b'\<lparr>bdata := snd mc @ [LF]\<rparr>"
  have "bend ?b \<le> blen ?b" using mc(1) b' by (simp add: frame_command_def scanBufferInit_def)
  then have "scan_tokens (ws_reader None) scanBufferMax k ?b (concat (map command_frame mcs), out)
      = Some ([drop_cr (snd mc)] @ map (drop_cr \<circ> snd) mcs, None)"
    using Cons.IH [OF mc(2) k(2), of ?b] b'(2) mc(1) by (simp add: complete_lines_one frame_command_def)
  moreover have "ws_reader None (blen b' - bend b') (command_frame mc @ concat (map command_frame mcs), out)
      = ((snd mc @ [LF], None), (concat (map command_frame mcs), out))"
    by (rule ws_reader_command [OF mc(1)]) (use b' in \<open>simp add: scanBufferInit_def\<close>)
  ultimately show ?case
    using Cons.prems(5) k(1) b' by (simp add: read_some_now)
qed

lemma serveScannerWithAck_fold:
  "fold (\<lambda>line (acks, q). (acks @ [''ok'' @ [LF]], handleCommand xl debug line q)) lines (acks, pr)
   = (acks @ replicate (length lines) (''ok'' @ [LF]), fold (handleCommand xl debug) lines pr)"
  by (induction lines arbitrary: acks pr) (simp_all add: replicate_append_same [symmetric])

lemma serveScannerWithAck_eq:
  "serveScannerWithAck xl debug lines pr = (replicate (length lines) (''ok'' @ [LF]), fold (handleCommand xl debug) lines pr)"
  unfolding serveScannerWithAck_def serveScannerWithAck_fold by simp

text \<open>(C21) Commands over a WebSocket: a client that sends each command with its line feed in a masked text
  frame of its own, of less than 32 kibibytes, and then closes the connection has every command
  executed exactly once and in order, and gets one frame with \<open>ok\<close> for each.\<close>

theorem ws_commands_executed:
  assumes "list_all frame_command mcs" "length mcs < fuel"
  shows "serve_ws fuel xl debug None (concat (map command_frame mcs)) pr
     = Some (replicate (length mcs) (wsConn_Write (''ok'' @ [LF])), fold (handleCommand xl debug) (map (drop_cr \<circ> snd) mcs) pr)"
proof -
  have "scan_tokens (ws_reader None) scanBufferMax fuel (new_buffer scanBufferInit) (concat (map command_frame mcs), [])
      = Some ([] @ map (drop_cr \<circ> snd) mcs, None)"
    by (rule ws_scan_commands [OF assms]) (simp_all add: new_buffer_def complete_lines.simps [of "[]"])
  then show ?thesis by (simp add: serve_ws_def serveScannerWithAck_eq)
qed

theorem ws_commands_executed_witness:
  "serve_ws 3 sample_xlib False None (command_frame ([CHR 0x01, CHR 0x02, CHR 0x03, CHR 0x04], ''releaseall''))
       \<lparr>px = sample_xstate, stderr_log = []\<rparr>
     = Some ([wsConn_Write (''ok'' @ [LF])], handleCommand sample_xlib False ''releaseall'' \<lparr>px = sample_xstate, stderr_log = []\<rparr>)"
  using ws_commands_executed [of "[([CHR 0x01, CHR 0x02, CHR 0x03, CHR 0x04], ''releaseall'')]" 3 sample_xlib False
      "\<lparr>px = sample_xstate, stderr_log = []\<rparr>"]
  by (simp add: frame_command_def LF_def drop_cr_def)

end
