(* ===== verification/Client.thy ===== *)
theory Client
  imports Serve
begin

text \<open>
  x11input/client.go: the public client of the legacy line protocol. The connection is the sequence of
  payloads handed to it; contexts and the results of its calls are arguments. The properties relate
  the client to the daemon: a line it accepts is one line of the daemon's scanner.
\<close>

section \<open>State and errors\<close>

datatype client_error =
    ErrNilContext | ErrNilReader | ErrContext string | ErrNilClient | ErrClosed
  | ErrNotSingle | ErrLineTooLong | ErrDial string | ErrDeadline string | ErrWrite string | ErrShortWrite
  | ErrReadReady "scan_error option" | ErrHandshake

text \<open>\<open>conn_open\<close> is false once \<open>conn\<close> is nil.\<close>

record Client =
  conn_open :: bool
  ready :: string
  sent :: "string list"

text \<open>A context: its error when it is done, and whether it has a deadline.\<close>

record go_context =
  ctx_err :: "string option"
  ctx_deadline :: bool

text \<open>The answers of the connection: setting the deadline, and the bytes and error of a write.\<close>

record conn_answers =
  set_deadline :: "string option"
  write_result :: "string \<Rightarrow> nat \<times> string option"
  close_result :: "string option"

section \<open>Operations\<close>

definition New :: Client where
  "New = \<lparr>conn_open = True, ready = [], sent = []\<rparr>"

definition Dial :: "go_context option \<Rightarrow> string option \<Rightarrow> client_error + Client" where
  "Dial ctx dial_err =
     (case ctx of
        None \<Rightarrow> Inl ErrNilContext
      | Some c \<Rightarrow> (case dial_err of Some e \<Rightarrow> Inl (ErrDial e) | None \<Rightarrow> Inr New))"

text \<open>The scanner of \<open>WaitReady\<close> has the default token bound. \<open>done_first\<close> says that the context ended
  before the line was read.\<close>

definition maxScanTokenSize :: nat where "maxScanTokenSize = 65536"

definition WaitReady :: "go_context option \<Rightarrow> bool \<Rightarrow> (scan_error option \<times> string) option \<Rightarrow> client_error + string" where
  "WaitReady ctx done_first rd =
     (case ctx of
        None \<Rightarrow> Inl ErrNilContext
      | Some c \<Rightarrow>
          (case rd of
             None \<Rightarrow> Inl ErrNilReader
           | Some (rerr, inp) \<Rightarrow>
               if done_first then Inl (ErrContext (case ctx_err c of Some e \<Rightarrow> e | None \<Rightarrow> []))
               else (case scan_lines maxScanTokenSize rerr inp of
                       ([], err) \<Rightarrow> Inl (ErrReadReady err)
                     | (line # ls, err) \<Rightarrow>
                         if line \<noteq> ''READY'' \<and> \<not> HasPrefix line ''READY tcp:'' then Inl ErrHandshake
                         else Inr line)))"

definition Ready :: "Client option \<Rightarrow> string" where
  "Ready c = (case c of None \<Rightarrow> [] | Some cl \<Rightarrow> ready cl)"

definition SetReady :: "string \<Rightarrow> Client option \<Rightarrow> Client option" where
  "SetReady r c = map_option (\<lambda>cl. cl\<lparr>ready := r\<rparr>) c"

definition maxLine :: nat where "maxLine = 1048576"

text \<open>The write of one payload, under the deadline of the context.\<close>

definition write_payload :: "bool \<Rightarrow> string \<Rightarrow> conn_answers \<Rightarrow> Client \<Rightarrow> client_error option \<times> Client" where
  "write_payload deadline payload ans cl =
     (case (if deadline then set_deadline ans else None) of
        Some e \<Rightarrow> (Some (ErrDeadline e), cl)
      | None \<Rightarrow>
          let cl' = cl\<lparr>sent := sent cl @ [payload]\<rparr> in
          (case write_result ans payload of
             (n, Some e) \<Rightarrow> (Some (ErrWrite e), cl')
           | (n, None) \<Rightarrow> (if n \<noteq> length payload then Some ErrShortWrite else None, cl')))"

definition write_line :: "bool \<Rightarrow> string \<Rightarrow> conn_answers \<Rightarrow> Client \<Rightarrow> client_error option \<times> Client" where
  "write_line deadline line ans cl =
     (if \<not> conn_open cl then (Some ErrClosed, cl)
      else let trimmed = TrimRightByte line LF in
        if ContainsAny trimmed [LF, CHR 0x00] then (Some ErrNotSingle, cl)
        else if length trimmed > maxLine then (Some ErrLineTooLong, cl)
        else write_payload deadline (trimmed @ [LF]) ans cl)"

definition WriteLine :: "go_context option \<Rightarrow> string \<Rightarrow> conn_answers \<Rightarrow> Client option
    \<Rightarrow> client_error option \<times> Client option" where
  "WriteLine ctx line ans c =
     (case ctx of
        None \<Rightarrow> (Some ErrNilContext, c)
      | Some cx \<Rightarrow>
          (case ctx_err cx of
             Some e \<Rightarrow> (Some (ErrContext e), c)
           | None \<Rightarrow>
               (case c of
                  None \<Rightarrow> (Some ErrNilClient, None)
                | Some cl \<Rightarrow> apsnd Some (write_line (ctx_deadline cx) line ans cl))))"

definition Close :: "conn_answers \<Rightarrow> Client option \<Rightarrow> string option \<times> Client option" where
  "Close ans c =
     (case c of
        None \<Rightarrow> (None, None)
      | Some cl \<Rightarrow>
          if \<not> conn_open cl then (None, c) else (close_result ans, Some (cl\<lparr>conn_open := False\<rparr>)))"

section \<open>Properties\<close>

lemma write_payload_once:
  assumes "write_payload deadline payload ans cl = (r, cl')"
  shows "sent cl' = sent cl \<and> r \<noteq> None
     \<or> sent cl' = sent cl @ [payload] \<and> (r = None \<longleftrightarrow> write_result ans payload = (length payload, None))"
  using assms
  by (cases "write_result ans payload")
     (auto simp: write_payload_def Let_def split: option.splits if_splits)

definition one_line :: "string \<Rightarrow> bool" where
  "one_line l \<longleftrightarrow> LF \<notin> set l \<and> CHR 0x00 \<notin> set l \<and> length l \<le> 1048576"

lemma write_line_once:
  assumes "write_line deadline line ans cl = (r, cl')"
  shows "sent cl' = sent cl \<and> r \<noteq> None
     \<or> sent cl' = sent cl @ [TrimRightByte line LF @ [LF]] \<and> conn_open cl \<and> one_line (TrimRightByte line LF)
       \<and> (r = None \<longleftrightarrow> write_result ans (TrimRightByte line LF @ [LF]) = (length (TrimRightByte line LF) + 1, None))"
proof (cases "conn_open cl \<and> one_line (TrimRightByte line LF)")
  case True
  with assms have "write_payload deadline (TrimRightByte line LF @ [LF]) ans cl = (r, cl')"
    by (auto simp: write_line_def Let_def one_line_def ContainsAny_def list_ex_iff maxLine_def split: if_splits)
  from write_payload_once [OF this] True show ?thesis by auto
next
  case False
  with assms show ?thesis
    by (auto simp: write_line_def Let_def one_line_def ContainsAny_def list_ex_iff maxLine_def split: if_splits)
qed

text \<open>(C34) One write per call: whatever the call returns, \<open>WriteLine\<close> hands the connection at most one
  payload, which is the line without its trailing line feeds and with one line feed, contains no
  other line feed and no NUL and has at most 2 to the 20 bytes before it; and it reports success only
  after such a write was complete.\<close>

theorem WriteLine_once:
  assumes "WriteLine ctx line ans (Some cl) = (r, c')"
  shows "\<exists>cl'. c' = Some cl' \<and> (sent cl' = sent cl \<and> r \<noteq> None
     \<or> sent cl' = sent cl @ [TrimRightByte line LF @ [LF]] \<and> conn_open cl \<and> one_line (TrimRightByte line LF)
       \<and> (r = None \<longleftrightarrow> write_result ans (TrimRightByte line LF @ [LF]) = (length (TrimRightByte line LF) + 1, None)))"
proof -
  consider "r \<noteq> None" "c' = Some cl"
    | dl cl' where "write_line dl line ans cl = (r, cl')" "c' = Some cl'"
    using assms by (auto simp: WriteLine_def apsnd_def map_prod_def split: option.splits prod.splits)
  then show ?thesis
  proof cases
    case 1
    then show ?thesis by simp
  next
    case 2
    from write_line_once [OF 2(1)] 2(2) show ?thesis by simp
  qed
qed

theorem WriteLine_once_witness:
  "let ans = \<lparr>set_deadline = None, write_result = (\<lambda>p. (length p, None)), close_result = None\<rparr>;
       (r, c') = WriteLine (Some \<lparr>ctx_err = None, ctx_deadline = False\<rparr>) ''click 1'' ans (Some New)
   in r = None \<and> map_option sent c' = Some [''click 1'' @ [LF]]"
proof -
  let ?ans = "\<lparr>set_deadline = None, write_result = (\<lambda>p. (length p, None)), close_result = None\<rparr>"
  obtain r c' where w: "WriteLine (Some \<lparr>ctx_err = None, ctx_deadline = False\<rparr>) ''click 1'' ?ans (Some New) = (r, c')"
    by force
  have t: "TrimRightByte ''click 1'' LF = ''click 1''" by (simp add: TrimRightByte_def LF_def)
  have "r = None"
    using w by (simp add: WriteLine_def write_line_def write_payload_def Let_def t [unfolded LF_def]
        ContainsAny_def LF_def maxLine_def New_def)
  with WriteLine_once [OF w] w t show ?thesis by (auto simp: New_def)
qed

lemma scanner_framing:
  assumes "LF \<notin> set l" "length l \<le> 1048576"
  shows "scan_lines scanBufferMax rerr (l @ LF # rest) =
     (if length l < 1048576
      then (drop_cr l # fst (scan_lines scanBufferMax rerr rest), snd (scan_lines scanBufferMax rerr rest))
      else ([], Some ErrTooLong))"
proof (cases "length l < 1048576")
  case True
  with assms(1) scan_lines_line [of l scanBufferMax rerr rest] show ?thesis by (simp add: scanBufferMax_def)
next
  case False
  with assms have "l \<noteq> []" "scanBufferMax \<le> length l" by (auto simp: scanBufferMax_def)
  with False scan_lines_too_long [OF assms(1), of scanBufferMax rerr "LF # rest"] show ?thesis by simp
qed

lemma serveScanner_line:
  assumes "one_line l"
  shows "serveScanner xl debug rerr (l @ LF # rest) pr =
     (if length l < 1048576 then serveScanner xl debug rerr rest (handleCommand xl debug (drop_cr l) pr)
      else pr\<lparr>stderr_log := stderr_log pr @ [''xtest-server: scanner error: bufio.Scanner: token too long'' @ [LF]]\<rparr>)"
proof -
  have msg: "scan_message ErrTooLong = ''bufio.Scanner: token too long''" by (simp add: scan_message_def)
  from assms scanner_framing [of l rerr rest] show ?thesis
    by (cases "scan_lines scanBufferMax rerr rest")
       (cases "length l < 1048576", simp_all add: serveScanner_def one_line_def msg)
qed

text \<open>(C35) Framing between client and daemon: when \<open>WriteLine\<close> succeeds, it has handed its connection one
  payload; a daemon that reads this payload, and then anything else, executes exactly the line the
  client was given (a trailing carriage return dropped) as one command and goes on with the rest, when
  the line is below 2 to the 20 bytes. A line of exactly 2 to the 20 bytes, which the client accepts too,
  instead ends the daemon's scan: no command of it or of what follows is executed, and the error is
  logged.\<close>

theorem client_daemon_framing:
  assumes "WriteLine ctx line ans (Some cl) = (None, c')"
  shows "\<exists>cl' l. c' = Some cl' \<and> l = TrimRightByte line LF \<and> sent cl' = sent cl @ [l @ [LF]]
     \<and> (\<forall>rest. serveScanner xl debug rerr (concat [l @ [LF], rest]) pr =
          (if length l < 1048576 then serveScanner xl debug rerr rest (handleCommand xl debug (drop_cr l) pr)
           else pr\<lparr>stderr_log := stderr_log pr @ [''xtest-server: scanner error: bufio.Scanner: token too long'' @ [LF]]\<rparr>))"
proof -
  from assms obtain dl cl' where w: "write_line dl line ans cl = (None, cl')" "c' = Some cl'"
    by (auto simp: WriteLine_def apsnd_def map_prod_def split: option.splits prod.splits)
  from write_line_once [OF w(1)]
  have "sent cl' = sent cl @ [TrimRightByte line LF @ [LF]]" "one_line (TrimRightByte line LF)" by auto
  with w(2) serveScanner_line show ?thesis by simp
qed

theorem client_daemon_framing_witness:
  "let ans = \<lparr>set_deadline = None, write_result = (\<lambda>p. (length p, None)), close_result = None\<rparr>;
       (r, c') = WriteLine (Some \<lparr>ctx_err = None, ctx_deadline = False\<rparr>) ''click 1'' ans (Some New);
       pr = \<lparr>px = sample_xstate, stderr_log = []\<rparr>
   in r = None \<and> (\<exists>cl'. c' = Some cl' \<and> sent cl' = [''click 1'' @ [LF]]
      \<and> serveScanner sample_xlib False None (concat [''click 1'' @ [LF], []]) pr
        = handleCommand sample_xlib False ''click 1'' pr)"
proof -
  let ?ans = "\<lparr>set_deadline = None, write_result = (\<lambda>p. (length p, None)), close_result = None\<rparr>"
  let ?pr = "\<lparr>px = sample_xstate, stderr_log = []\<rparr>"
  have t: "TrimRightByte ''click 1'' LF = ''click 1''" by (simp add: TrimRightByte_def LF_def)
  obtain c' where w: "WriteLine (Some \<lparr>ctx_err = None, ctx_deadline = False\<rparr>) ''click 1'' ?ans (Some New) = (None, c')"
    by (simp add: WriteLine_def write_line_def write_payload_def Let_def t [unfolded LF_def]
        ContainsAny_def LF_def maxLine_def New_def)
  have e: "serveScanner sample_xlib False None [] q = q" for q by (simp add: serveScanner_def)
  from client_daemon_framing [OF w, of sample_xlib False None ?pr] obtain cl' where
    "c' = Some cl'" "sent cl' = [''click 1'' @ [LF]]"
    "serveScanner sample_xlib False None (concat [''click 1'' @ [LF], []]) ?pr
       = serveScanner sample_xlib False None [] (handleCommand sample_xlib False ''click 1'' ?pr)"
    by (auto simp: t New_def drop_cr_def simp del: concat.simps)
  with w e show ?thesis by (simp add: Let_def del: concat.simps)
qed

lemma Itoa_no_LF: "LF \<notin> set (Itoa n) \<and> CHR 0x0D \<notin> set (Itoa n)"
  using nat_digits_digits [of LF] nat_digits_digits [of "CHR 0x0D"]
  by (auto simp: Itoa_def LF_def is_digit_def)

text \<open>The handshake: \<open>WaitReady\<close> accepts the ready lines that the daemon prints in its two legacy
  modes and refuses the identity line of destination mode.\<close>

lemma WaitReady_modes:
  assumes "LF \<notin> set path" "length path < 65000" "length (Itoa port) < 60000"
  shows "WaitReady (Some cx) False (Some (rerr, stdinReadyLine @ [LF])) = Inr stdinReadyLine
     \<and> WaitReady (Some cx) False (Some (rerr, tcpReadyLine port @ [LF])) = Inr (tcpReadyLine port)
     \<and> WaitReady (Some cx) False (Some (rerr, destModeLine path @ [LF])) = Inl ErrHandshake"
proof -
  have scan: "scan_lines maxScanTokenSize rerr (l @ [LF]) = ([drop_cr l], rerr)"
    if "LF \<notin> set l" "length l < 65536" for l
    using scan_lines_line [of l maxScanTokenSize rerr "[]"] that by (simp add: maxScanTokenSize_def)
  have "Itoa port \<noteq> []" by (simp add: Itoa_def)
  then have "last (Itoa port) \<noteq> CHR 0x0D" using Itoa_no_LF [of port] by (metis last_in_set)
  with \<open>Itoa port \<noteq> []\<close> have "drop_cr (tcpReadyLine port) = tcpReadyLine port"
    by (simp add: drop_cr_def tcpReadyLine_def)
  moreover have "LF \<notin> set (tcpReadyLine port)" "length (tcpReadyLine port) < 65536"
    using Itoa_no_LF [of port] assms(3) by (simp_all add: tcpReadyLine_def LF_def)
  ultimately have tcp: "scan_lines maxScanTokenSize rerr (tcpReadyLine port @ [LF]) = ([tcpReadyLine port], rerr)"
    using scan by metis
  have "drop_cr stdinReadyLine = stdinReadyLine" "LF \<notin> set stdinReadyLine" "length stdinReadyLine < 65536"
    by (simp_all add: drop_cr_def stdinReadyLine_def LF_def)
  then have stdin: "scan_lines maxScanTokenSize rerr (stdinReadyLine @ [LF]) = ([stdinReadyLine], rerr)"
    using scan by metis
  have "LF \<notin> set (destModeLine path)" "length (destModeLine path) < 65536"
    using assms by (simp_all add: destModeLine_def LF_def)
  then have dst: "scan_lines maxScanTokenSize rerr (destModeLine path @ [LF]) = ([drop_cr (destModeLine path)], rerr)"
    by (rule scan)
  have x: "\<exists>t. drop_cr (destModeLine path) = CHR ''x'' # t" by (simp add: drop_cr_def destModeLine_def)
  show ?thesis
  proof (intro conjI)
    show "WaitReady (Some cx) False (Some (rerr, stdinReadyLine @ [LF])) = Inr stdinReadyLine"
      by (simp add: WaitReady_def stdin) (simp add: stdinReadyLine_def)
    show "WaitReady (Some cx) False (Some (rerr, tcpReadyLine port @ [LF])) = Inr (tcpReadyLine port)"
      by (simp add: WaitReady_def tcp) (simp add: tcpReadyLine_def)
    show "WaitReady (Some cx) False (Some (rerr, destModeLine path @ [LF])) = Inl ErrHandshake"
      using x by (auto simp: WaitReady_def dst)
  qed
qed

end
