(* ===== verification/Spec2Isabelle.thy ===== *)
theory Spec2Isabelle
  imports DestChannel WsStream Client
begin

text \<open>
  A verification development for the X11 input daemon xtest-server (src/cmd/xtest-server), its packages
  internal/v2line and internal/vnext, and the Go client x11input. This text is the map of the
  development; every theory opens with a shorter one of its own.

  \<^bold>\<open>The program.\<close> The daemon injects keyboard, pointer and window-manager requests into an X11 display.
  After reading its flags, taking a lock file and opening the display, \<open>main\<close> serves one of three
  transports. The two legacy ones, standard input and a TCP port (plain or upgraded to a
  WebSocket), speak a line protocol, v2: each line is a command such as \<^verbatim>\<open>click 1\<close>, which
  internal/v2line interprets over an actuator, the XTEST wrappers of x11.go. The third one is the
  destination transport: a Unix socket, restricted to allowlisted peers, on which each line is a JSON
  request. internal/vnext decodes the line strictly, dispatches it to a backend, keeps per connection
  what it has pressed, and answers with one JSON line. All X calls of the destination transport run
  on one owner goroutine. Both transports promise that input does not stay pressed after its client
  has gone; the destination one also promises that a window reference is used only while the display
  is as the client saw it.

  \<^bold>\<open>Conventions.\<close> Definitions carry the names of the source where HOL allows it. Go strings and byte
  slices are byte strings, \<open>uint\<close> is a 64-bit word, \<open>uint32\<close> a 32-bit word; \<open>int\<close> is an integer with
  its range written out where a conversion may leave it. Structs are records, enumerations and error
  values datatypes; a pointer that may be nil is an option. State is passed explicitly. What the
  program asks of code outside the repository (Xlib and the X server, the kernel, the clock, the
  scheduler) is an argument: a record of answers, each of which may depend on what was asked before.

  \<^bold>\<open>Theories.\<close>
  \<^item> Prelude: the Go types, the collections \<open>go_simps\<close> and \<open>emit_intros\<close>, generic lemmas.
  \<^item> GoStrings, GoBufio, GoScanner, GoJson, GoJsonText: the standard library as the daemon uses it: UTF-8,
    strings, strconv, path/filepath; \<open>bufio.Scanner\<close>, once on a whole input (\<open>scan_lines\<close>) and once
    with its buffer on a reader (\<open>scan_tokens\<close>); the scanner, decoder and string encoder of
    encoding/json, with the texts of flat objects and the proof that they are read back.
  \<^item> VnextOutcome (outcome.go), VnextRequest (request.go), DecodeSpec (what \<open>Decode\<close> guarantees), Backend
    (backend.go, ewmh.go), VnextSession (session.go), VnextDispatch (dispatch.go), VnextFake (fake.go,
    panic_backend.go), VnextAdmission (admission.go): the package internal/vnext.
  \<^item> V2line (dispatch.go, redact.go): the package internal/v2line.
  \<^item> X11 (x11.go with its C part, x11_nocgo.go): the display as the C globals and the sequence \<open>xlog\<close> of
    requests issued; what is pressed is computed from that sequence (\<open>keys_down\<close>, \<open>buttons_down\<close>).
  \<^item> DestConn, DestBackend, DestRefs, DestServe (dest.go), DestOwner (dest_owner.go): one connection, the
    live backend, its window references, the listener with peer admission, the X owner.
  \<^item> Handle (handle.go, the scanner loops), Ready (ready.go), Ws (ws.go), WsStream (the scanners on their
    readers), Serve (serve.go), Lock (lock.go), Daemon (main.go): the legacy transports and start-up.
  \<^item> Reliable, Replay, DestSystem, DestChannel: connections on backends that cannot fail to send, code
    replayed one backend call at a time, the destination server as a whole, and the same server with
    its calls queued in the channel of the X owner.
  \<^item> Client (x11input/client.go).

  \<^bold>\<open>Interfaces.\<close> \<open>backend_contract\<close> (Backend) is the interface between the request path and a backend: a
  result says which input events were submitted. The lemmas on sessions, \<open>Dispatch\<close>, \<open>HandleLine\<close> and
  connections are proved in it once; it is interpreted by the recording backend (\<open>fake\<close>) and by the
  live backend (\<open>dest\<close>). \<open>reliable_backend\<close> extends it by a liveness condition under which key and button
  releases succeed (\<open>rfake\<close>; \<open>rdest\<close>, on an open display). \<open>actuator_contract\<close> (V2line) is the interface of
  the line protocol, interpreted by the daemon's actuator (\<open>xact\<close>). \<open>byte_reader\<close> (GoScanner) is what a
  scanner needs of its reader, interpreted by \<open>connReader\<close> (\<open>crd\<close>). A replayed backend keeps the contract
  of the backend it replays, which is how the lemmas of one connection reach the concurrent server.

  \<^bold>\<open>What is shown.\<close>
  \<^item> Requests: \<open>Decode\<close> returns a complete valid request or an outcome, accepts only one flat object with
    distinct keys of its operation, and reads every valid request back from its documented text.
  \<^item> Destination connections: every line submits exactly the events its operation and outcome allow
    (refinement of \<open>HandleLine\<close> on the live backend), the session tracks what they leave pressed, the
    connection answers each line with one framed JSON text, and leaves nothing pressed.
  \<^item> Destination server: from \<open>main\<close> on, under every interleaving of connections at the granularity of
    single backend calls, at most ten admitted peers are served and whatever is pressed was pressed by
    an open connection; an open connection can always be brought to its end by its own calls, of which
    it makes at most three per line. The X owner runs calls one at a time in channel order; the server
    on its channel refines the server whose calls take effect at once, and is never stuck.
  \<^item> Window references: what a passed revalidation means, that a changed client list is a conflict, and
    that inspected windows revalidate while the display does not change.
  \<^item> Listener: the socket is bound only below a private directory and replaces neither a link nor a live
    socket.
  \<^item> Legacy transports: a command submits the events of its plan, whatever the line; gestures release what
    they press; pauses are bounded; stderr never shows a payload; a stream and the whole TCP server leave
    no key and none of the buttons 1 to 3 pressed.
  \<^item> Framing: the buffered scanner over any portions of a stream ends with the lines of the stream;
    WebSocket frames are read back as written within their bounds; commands in frames of their own are
    executed once and in order; a line of the client is one command of the daemon.
  \<^item> Start-up: \<open>main\<close> serves only after its checks; when the lock is taken; allowlists are read exactly.
  \<^item> Deviations from comments or documents, each stated as a property: two toggles do not clear a lock, the
    lock file is not per display, a client line of exactly 2 to the 20 bytes is too long for the daemon, a
    WebSocket frame longer than the read buffer loses bytes, bytes after an upgrade request are lost, and
    buttons above 3 are not released by the legacy transports.

  \<^bold>\<open>Bounds and fuel.\<close> Recursions are structural or come with a termination proof, with two exceptions.
  \<open>scan_tokens\<close> takes a number of reads as fuel: more than the bytes of the stream on a plain connection,
  more than the frames on a WebSocket, is shown to be enough. \<open>waitPointer\<close> polls as often as the clock
  allows before its deadline, which is an argument. The retries of opening the display (15), of
  listening (3) and of locking (20) are those of the code.

  \<^bold>\<open>Granularity of concurrency.\<close> In the TCP server an event is a command, a connection attempt or an end, in any
  order: each runs under the process-global mutex or touches only its own connection. In the
  destination server a step is one backend call, which is one job of the owner; the session of a
  connection belongs to its goroutine alone. The iteration order of Go maps is an argument.

  \<^bold>\<open>Not modelled.\<close> The flag package (the parsed flags are the input of \<open>main\<close>). When
  Xlib calls the X error handlers, which print a line, or print one and exit. Deadlines of reads and writes and TCP
  keep-alive: an expired deadline shows as the read error or failed write that the code sees. The
  lines that \<open>init_display\<close> prints, on the size of the display or on why it fails. The
  \<open>#else\<close> branch of \<open>peer_ucred\<close> for systems without \<open>SO_PEERCRED\<close>. Tests, fuzz targets, scripts and build
  files, which are not part of the program.
\<close>

end
